(* ===== verification/Gateway_Prelude.thy ===== *)
theory Gateway_Prelude
  imports Main "HOL-Library.Word" "HOL-Library.Multiset"
begin

text \<open>
  Shared vocabulary of the development: Rust's \<open>Result\<close> and its \<open>?\<close> operator, the
  checked and saturating integer operations, the ASCII and UTF-8 string functions the code
  calls, decimal printing and reading, the iterator methods \<open>min_by_key\<close>, \<open>max_by_key\<close>,
  \<open>find\<close> and the stable \<open>sort_by\<close>, and the generic lemmas about them that the component
  theories use. A Rust \<open>String\<close> is a \<^typ>\<open>string\<close> whose characters are the bytes of its
  UTF-8 form, so \<open>len()\<close> is \<^const>\<open>length\<close>. A \<open>Uuid\<close> is its 128-bit value and an
  \<open>OffsetDateTime\<close> is its number of nanoseconds since the Unix epoch.
\<close>

named_theorems result_simps \<open>rewrite rules for the error monad\<close>
named_theorems checked_simps \<open>what a successful checked operation computed\<close>
named_theorems str_simps \<open>unfolding rules for the string functions\<close>

type_synonym uuid = "128 word"
type_synonym u256 = "256 word"
type_synonym byte = "8 word"
type_synonym instant = int

section \<open>Results\<close>

definition bind_result :: "'e + 'a \<Rightarrow> ('a \<Rightarrow> 'e + 'b) \<Rightarrow> 'e + 'b" where
  "bind_result r f = (case r of Inl e \<Rightarrow> Inl e | Inr a \<Rightarrow> f a)"

definition ok_or :: "'e \<Rightarrow> 'a option \<Rightarrow> 'e + 'a" where
  "ok_or e x = (case x of None \<Rightarrow> Inl e | Some a \<Rightarrow> Inr a)"

definition map_err :: "('e \<Rightarrow> 'f) \<Rightarrow> 'e + 'a \<Rightarrow> 'f + 'a" where
  "map_err f r = (case r of Inl e \<Rightarrow> Inl (f e) | Inr a \<Rightarrow> Inr a)"

lemma bind_result_simps [simp]:
  "bind_result (Inl e) f = Inl e"
  "bind_result (Inr a) f = f a"
  by (simp_all add: bind_result_def)

lemma bind_result_Inr_iff [result_simps]:
  "bind_result r f = Inr b \<longleftrightarrow> (\<exists>a. r = Inr a \<and> f a = Inr b)"
  by (cases r) auto

lemma bind_result_Inl_iff [result_simps]:
  "bind_result r f = Inl e \<longleftrightarrow> r = Inl e \<or> (\<exists>a. r = Inr a \<and> f a = Inl e)"
  by (cases r) auto

lemma ok_or_simps [simp]:
  "ok_or e None = Inl e"
  "ok_or e (Some a) = Inr a"
  by (simp_all add: ok_or_def)

lemma ok_or_Inr_iff [result_simps]: "ok_or e x = Inr a \<longleftrightarrow> x = Some a"
  by (cases x) auto

lemma ok_or_Inl_iff [result_simps]: "ok_or e x = Inl f \<longleftrightarrow> x = None \<and> f = e"
  by (cases x) auto

lemma map_err_simps [simp]:
  "map_err f (Inl e) = Inl (f e)"
  "map_err f (Inr a) = Inr a"
  by (simp_all add: map_err_def)

lemma map_err_Inr_iff [result_simps]: "map_err f r = Inr a \<longleftrightarrow> r = Inr a"
  by (cases r) auto

lemma map_err_Inl_iff [result_simps]: "map_err f r = Inl e' \<longleftrightarrow> (\<exists>e. r = Inl e \<and> e' = f e)"
  by (cases r) auto

section \<open>Checked and saturating integers\<close>

text \<open>
  The checked operations of Rust's unsigned integers, at any width. \<open>U256\<close> of
  \<open>alloy_primitives\<close> is used through the same operations at width 256.
\<close>

definition checked_add :: "'w::len word \<Rightarrow> 'w word \<Rightarrow> 'w word option" where
  "checked_add a b = (if unat a + unat b < 2 ^ LENGTH('w) then Some (a + b) else None)"

definition checked_sub :: "'w::len word \<Rightarrow> 'w word \<Rightarrow> 'w word option" where
  "checked_sub a b = (if b \<le> a then Some (a - b) else None)"

definition checked_mul :: "'w::len word \<Rightarrow> 'w word \<Rightarrow> 'w word option" where
  "checked_mul a b = (if unat a * unat b < 2 ^ LENGTH('w) then Some (a * b) else None)"

definition checked_div :: "'w::len word \<Rightarrow> 'w word \<Rightarrow> 'w word option" where
  "checked_div a b = (if b = 0 then None else Some (a div b))"

definition checked_rem :: "'w::len word \<Rightarrow> 'w word \<Rightarrow> 'w word option" where
  "checked_rem a b = (if b = 0 then None else Some (a mod b))"

definition saturating_sub :: "'w::len word \<Rightarrow> 'w word \<Rightarrow> 'w word" where
  "saturating_sub a b = (if b \<le> a then a - b else 0)"

lemma checked_add_Some_iff [checked_simps]:
  "checked_add a b = Some c \<longleftrightarrow> unat c = unat a + unat b"
  for a b c :: "'w::len word"
proof
  assume "checked_add a b = Some c"
  then show "unat c = unat a + unat b"
    by (auto simp: checked_add_def unat_word_ariths split: if_splits)
next
  assume eq: "unat c = unat a + unat b"
  then have lt: "unat a + unat b < 2 ^ LENGTH('w)"
    using unsigned_less [of c, where ?'a = nat] by simp
  then have "unat (a + b) = unat c"
    by (simp add: eq unat_word_ariths)
  with lt show "checked_add a b = Some c"
    by (simp add: checked_add_def word_unat_eq_iff)
qed

lemma checked_mul_Some_iff [checked_simps]:
  "checked_mul a b = Some c \<longleftrightarrow> unat c = unat a * unat b"
  for a b c :: "'w::len word"
proof
  assume "checked_mul a b = Some c"
  then show "unat c = unat a * unat b"
    by (auto simp: checked_mul_def unat_word_ariths split: if_splits)
next
  assume eq: "unat c = unat a * unat b"
  then have lt: "unat a * unat b < 2 ^ LENGTH('w)"
    using unsigned_less [of c, where ?'a = nat] by simp
  then have "unat (a * b) = unat c"
    by (simp add: eq unat_word_ariths)
  with lt show "checked_mul a b = Some c"
    by (simp add: checked_mul_def word_unat_eq_iff)
qed

lemma checked_sub_Some_iff [checked_simps]:
  "checked_sub a b = Some c \<longleftrightarrow> unat a = unat b + unat c"
  for a b c :: "'w::len word"
proof
  assume "checked_sub a b = Some c"
  then show "unat a = unat b + unat c"
    by (auto simp: checked_sub_def unat_sub word_le_nat_alt split: if_splits)
next
  assume eq: "unat a = unat b + unat c"
  then have le: "b \<le> a" by (simp add: word_le_nat_alt)
  then have "unat (a - b) = unat c" by (simp add: unat_sub eq)
  with le show "checked_sub a b = Some c"
    by (simp add: checked_sub_def word_unat_eq_iff)
qed

lemma checked_div_Some_iff [checked_simps]:
  "checked_div a b = Some c \<longleftrightarrow> b \<noteq> 0 \<and> unat c = unat a div unat b"
  for a b c :: "'w::len word"
  by (auto simp: checked_div_def unat_div word_unat_eq_iff)

lemma checked_rem_Some_iff [checked_simps]:
  "checked_rem a b = Some c \<longleftrightarrow> b \<noteq> 0 \<and> unat c = unat a mod unat b"
  for a b c :: "'w::len word"
  by (auto simp: checked_rem_def unat_mod word_unat_eq_iff)

lemma checked_add_None_iff [checked_simps]:
  "checked_add a b = None \<longleftrightarrow> 2 ^ LENGTH('w) \<le> unat a + unat b"
  for a b :: "'w::len word"
  by (auto simp: checked_add_def)

lemma checked_mul_None_iff [checked_simps]:
  "checked_mul a b = None \<longleftrightarrow> 2 ^ LENGTH('w) \<le> unat a * unat b"
  for a b :: "'w::len word"
  by (auto simp: checked_mul_def)

lemma checked_sub_None_iff [checked_simps]:
  "checked_sub a b = None \<longleftrightarrow> unat a < unat b"
  for a b :: "'w::len word"
  by (auto simp: checked_sub_def word_le_nat_alt)

lemma unat_saturating_sub: "unat (saturating_sub a b) = unat a - unat b"
  for a b :: "'w::len word"
  by (auto simp: saturating_sub_def unat_sub word_le_nat_alt)


lemma unat_ucast_le:
  fixes x :: "'a::len word"
  assumes "LENGTH('a) \<le> LENGTH('b::len)"
  shows "unat (ucast x :: 'b word) = unat x"
proof -
  have "unat x < 2 ^ LENGTH('a)"
    using unsigned_less [of x, where ?'a = nat] by simp
  also have "\<dots> \<le> 2 ^ LENGTH('b)" using assms by simp
  finally show ?thesis by (simp add: unsigned_ucast_eq take_bit_nat_eq_self)
qed

text \<open>
  A \<open>u32\<close> counter is a \<^typ>\<open>nat\<close> and an \<open>i64\<close> or \<open>i32\<close> value an \<^typ>\<open>int\<close>, with
  the saturation the code asks for written out.
\<close>

definition u32_max :: nat where
  "u32_max = 2 ^ 32 - 1"

definition u32_sat_add :: "nat \<Rightarrow> nat \<Rightarrow> nat" where
  "u32_sat_add a b = min (a + b) u32_max"

definition u32_try_from :: "nat \<Rightarrow> nat" where
  "u32_try_from n = (if n \<le> u32_max then n else u32_max)"

definition i64_min :: int where
  "i64_min = - (2 ^ 63)"

definition i64_max :: int where
  "i64_max = 2 ^ 63 - 1"

definition i64_sat :: "int \<Rightarrow> int" where
  "i64_sat x = max i64_min (min i64_max x)"

definition i64_sat_add :: "int \<Rightarrow> int \<Rightarrow> int" where
  "i64_sat_add a b = i64_sat (a + b)"

definition i64_sat_sub :: "int \<Rightarrow> int \<Rightarrow> int" where
  "i64_sat_sub a b = i64_sat (a - b)"

definition i64_ok :: "int \<Rightarrow> bool" where
  "i64_ok x \<longleftrightarrow> i64_min \<le> x \<and> x \<le> i64_max"

lemma u32_try_from_le: "u32_try_from n \<le> n"
  by (simp add: u32_try_from_def)

lemma u32_try_from_eq: "n \<le> u32_max \<Longrightarrow> u32_try_from n = n"
  by (simp add: u32_try_from_def)

lemma u32_try_from_le_iff: "m \<le> u32_max \<Longrightarrow> m \<le> u32_try_from n \<longleftrightarrow> m \<le> n"
  by (auto simp: u32_try_from_def)

lemma i64_sat_id: "i64_ok x \<Longrightarrow> i64_sat x = x"
  by (simp add: i64_sat_def i64_ok_def)

lemma i64_sat_ok: "i64_ok (i64_sat x)"
  by (auto simp: i64_sat_def i64_ok_def i64_min_def i64_max_def)

section \<open>Characters and strings\<close>

definition is_ascii_digit :: "char \<Rightarrow> bool" where
  "is_ascii_digit c \<longleftrightarrow> 48 \<le> (of_char c :: nat) \<and> (of_char c :: nat) \<le> 57"

definition is_ascii_uppercase :: "char \<Rightarrow> bool" where
  "is_ascii_uppercase c \<longleftrightarrow> 65 \<le> (of_char c :: nat) \<and> (of_char c :: nat) \<le> 90"

definition is_ascii_lowercase :: "char \<Rightarrow> bool" where
  "is_ascii_lowercase c \<longleftrightarrow> 97 \<le> (of_char c :: nat) \<and> (of_char c :: nat) \<le> 122"

definition is_ascii_alphanumeric :: "char \<Rightarrow> bool" where
  "is_ascii_alphanumeric c \<longleftrightarrow>
     is_ascii_digit c \<or> is_ascii_uppercase c \<or> is_ascii_lowercase c"

definition char_to_upper :: "char \<Rightarrow> char" where
  "char_to_upper c = (if is_ascii_lowercase c then char_of (of_char c - 32 :: nat) else c)"

definition char_to_lower :: "char \<Rightarrow> char" where
  "char_to_lower c = (if is_ascii_uppercase c then char_of (of_char c + 32 :: nat) else c)"

definition to_ascii_uppercase :: "string \<Rightarrow> string" where
  "to_ascii_uppercase s = map char_to_upper s"

definition to_ascii_lowercase :: "string \<Rightarrow> string" where
  "to_ascii_lowercase s = map char_to_lower s"

text \<open>\<open>char::is_whitespace\<close>, each code point by its UTF-8 bytes.\<close>

definition whitespace_chars :: "string list" where
  "whitespace_chars =
     map (\<lambda>n. [char_of n]) [9, 10, 11, 12, 13, 32 :: nat] @
     map (\<lambda>n. [char_of (194 :: nat), char_of n]) [133, 160 :: nat] @
     [[char_of (225 :: nat), char_of (154 :: nat), char_of (128 :: nat)]] @
     map (\<lambda>n. [char_of (226 :: nat), char_of (128 :: nat), char_of n])
       [128, 129, 130, 131, 132, 133, 134, 135, 136, 137, 138, 168, 169, 175 :: nat] @
     [[char_of (226 :: nat), char_of (129 :: nat), char_of (159 :: nat)],
      [char_of (227 :: nat), char_of (128 :: nat), char_of (128 :: nat)]]"

definition ws_prefix :: "string list \<Rightarrow> string \<Rightarrow> nat" where
  "ws_prefix ws s =
     (case filter (\<lambda>w. take (length w) s = w \<and> w \<noteq> []) ws of [] \<Rightarrow> 0 | w # _ \<Rightarrow> length w)"

function strip_ws :: "string list \<Rightarrow> string \<Rightarrow> string" where
  "strip_ws ws s =
     (if ws_prefix ws s = 0 then s else if s = [] then [] else strip_ws ws (drop (ws_prefix ws s) s))"
  by pat_completeness auto
termination
  by (relation "measure (\<lambda>(ws, s). length s)") auto

declare strip_ws.simps [simp del]

text \<open>\<open>str::trim\<close>: whitespace removed at the front, then at the back.\<close>

definition str_trim :: "string \<Rightarrow> string" where
  "str_trim s = rev (strip_ws (map rev whitespace_chars) (rev (strip_ws whitespace_chars s)))"

text \<open>\<open>chars().count()\<close>: the bytes that are not UTF-8 continuation bytes.\<close>

definition char_count :: "string \<Rightarrow> nat" where
  "char_count s = length (filter (\<lambda>c. \<not> (128 \<le> (of_char c :: nat) \<and> (of_char c :: nat) < 192)) s)"

definition trim_start_matches :: "char \<Rightarrow> string \<Rightarrow> string" where
  "trim_start_matches c s = dropWhile (\<lambda>x. x = c) s"

definition trim_end_matches :: "char \<Rightarrow> string \<Rightarrow> string" where
  "trim_end_matches c s = rev (dropWhile (\<lambda>x. x = c) (rev s))"

text \<open>PostgreSQL's \<open>btrim\<close> removes spaces only.\<close>

definition btrim :: "string \<Rightarrow> string" where
  "btrim s = trim_end_matches (CHR '' '') (trim_start_matches (CHR '' '') s)"

definition char_between :: "nat \<Rightarrow> nat \<Rightarrow> string \<Rightarrow> bool" where
  "char_between lo hi s \<longleftrightarrow> lo \<le> char_count s \<and> char_count s \<le> hi"

definition strip_prefix :: "string \<Rightarrow> string \<Rightarrow> string option" where
  "strip_prefix p s = (if take (length p) s = p then Some (drop (length p) s) else None)"

definition pad_left :: "char \<Rightarrow> nat \<Rightarrow> string \<Rightarrow> string" where
  "pad_left c w s = replicate (w - length s) c @ s"

declare to_ascii_uppercase_def [str_simps] to_ascii_lowercase_def [str_simps]
  trim_start_matches_def [str_simps] trim_end_matches_def [str_simps]
  strip_prefix_def [str_simps] pad_left_def [str_simps]

lemma char_to_upper_not_lower: "\<not> is_ascii_lowercase (char_to_upper c)"
proof (cases "is_ascii_lowercase c")
  case True
  then have r: "97 \<le> (of_char c :: nat)" "(of_char c :: nat) \<le> 122"
    by (simp_all add: is_ascii_lowercase_def)
  have "(of_char (char_of (of_char c - 32 :: nat)) :: nat) = of_char c - 32"
    using r by (simp add: of_char_of)
  with r True show ?thesis
    by (simp add: char_to_upper_def is_ascii_lowercase_def)
qed (simp add: char_to_upper_def)

lemma char_to_lower_not_upper: "\<not> is_ascii_uppercase (char_to_lower c)"
proof (cases "is_ascii_uppercase c")
  case True
  then have r: "65 \<le> (of_char c :: nat)" "(of_char c :: nat) \<le> 90"
    by (simp_all add: is_ascii_uppercase_def)
  have "(of_char (char_of (of_char c + 32 :: nat)) :: nat) = of_char c + 32"
    using r by (simp add: of_char_of)
  with r True show ?thesis
    by (simp add: char_to_lower_def is_ascii_uppercase_def)
qed (simp add: char_to_lower_def)

lemma char_to_lower_idem [simp]: "char_to_lower (char_to_lower c) = char_to_lower c"
  using char_to_lower_not_upper [of c] by (simp add: char_to_lower_def [of "char_to_lower c"])

lemma char_to_upper_idem [simp]: "char_to_upper (char_to_upper c) = char_to_upper c"
  using char_to_upper_not_lower [of c] by (simp add: char_to_upper_def [of "char_to_upper c"])

lemma char_to_upper_uppercase [simp]: "is_ascii_uppercase c \<Longrightarrow> char_to_upper c = c"
  by (auto simp: char_to_upper_def is_ascii_uppercase_def is_ascii_lowercase_def)

lemma to_ascii_uppercase_fixed: "list_all is_ascii_uppercase s \<Longrightarrow> to_ascii_uppercase s = s"
  by (simp add: str_simps map_idI list_all_iff)

section \<open>Decimal text\<close>

definition digit_char :: "nat \<Rightarrow> char" where
  "digit_char d = char_of (48 + d)"

definition char_digit :: "char \<Rightarrow> nat" where
  "char_digit c = of_char c - 48"

fun nat_str :: "nat \<Rightarrow> string" where
  "nat_str n = (if n < 10 then [digit_char n] else nat_str (n div 10) @ [digit_char (n mod 10)])"

declare nat_str.simps [simp del]

definition int_str :: "int \<Rightarrow> string" where
  "int_str i = (if i < 0 then CHR ''-'' # nat_str (nat (- i)) else nat_str (nat i))"

definition dec_val :: "string \<Rightarrow> nat" where
  "dec_val s = foldl (\<lambda>acc c. acc * 10 + char_digit c) 0 s"

text \<open>\<open>str::parse::<i64>\<close>: an optional sign, then at least one digit, in range.\<close>

definition i64_from_str :: "string \<Rightarrow> int option" where
  "i64_from_str s =
     (let (neg, ds) = (case s of [] \<Rightarrow> (False, [])
                       | c # cs \<Rightarrow> if c = CHR ''-'' then (True, cs)
                                   else if c = CHR ''+'' then (False, cs) else (False, c # cs));
          v = (if neg then - int (dec_val ds) else int (dec_val ds))
      in if ds \<noteq> [] \<and> list_all is_ascii_digit ds \<and> i64_ok v then Some v else None)"

lemma of_digit_char [simp]: "d < 10 \<Longrightarrow> (of_char (digit_char d) :: nat) = 48 + d"
  by (simp add: digit_char_def of_char_of)

lemma char_digit_digit_char [simp]: "d < 10 \<Longrightarrow> char_digit (digit_char d) = d"
  by (simp add: char_digit_def)

lemma is_ascii_digit_digit_char [simp]: "d < 10 \<Longrightarrow> is_ascii_digit (digit_char d)"
  by (simp add: is_ascii_digit_def)

lemma digit_char_char_digit [simp]: "is_ascii_digit c \<Longrightarrow> digit_char (char_digit c) = c"
  by (simp add: is_ascii_digit_def digit_char_def char_digit_def)

lemma char_digit_less: "is_ascii_digit c \<Longrightarrow> char_digit c < 10"
  by (auto simp: is_ascii_digit_def char_digit_def)

lemma digit_char_0: "digit_char 0 = CHR ''0''"
  by (simp add: digit_char_def char_of_eq_iff)

lemma char_digit_eq_0_iff: "is_ascii_digit c \<Longrightarrow> char_digit c = 0 \<longleftrightarrow> c = CHR ''0''"
  by (metis digit_char_0 digit_char_char_digit char_digit_digit_char zero_less_numeral)

lemma foldl_dec:
  "foldl (\<lambda>acc c. acc * 10 + char_digit c) a s = a * 10 ^ length s + dec_val s"
proof (induction s arbitrary: a)
  case Nil
  then show ?case by (simp add: dec_val_def)
next
  case (Cons c s)
  have "dec_val (c # s) = char_digit c * 10 ^ length s + dec_val s"
    using Cons [of "char_digit c"] by (simp add: dec_val_def)
  with Cons [of "a * 10 + char_digit c"] show ?case
    by (simp add: algebra_simps)
qed

lemma dec_val_Nil [simp]: "dec_val [] = 0"
  by (simp add: dec_val_def)

lemma dec_val_append: "dec_val (s @ t) = dec_val s * 10 ^ length t + dec_val t"
proof -
  have "dec_val (s @ t) = foldl (\<lambda>acc c. acc * 10 + char_digit c) (dec_val s) t"
    by (simp add: dec_val_def)
  then show ?thesis by (simp only: foldl_dec)
qed

lemma dec_val_Cons: "dec_val (c # s) = char_digit c * 10 ^ length s + dec_val s"
  using dec_val_append [of "[c]" s] by (simp add: dec_val_def)

lemma dec_val_snoc: "dec_val (s @ [c]) = dec_val s * 10 + char_digit c"
  by (simp add: dec_val_append dec_val_Cons)

lemma dec_val_less: "list_all is_ascii_digit s \<Longrightarrow> dec_val s < 10 ^ length s"
proof (induction s)
  case (Cons c s)
  then have "char_digit c < 10" "dec_val s < 10 ^ length s"
    by (auto simp: char_digit_less)
  then have "char_digit c * 10 ^ length s + dec_val s < (char_digit c + 1) * 10 ^ length s"
    by simp
  also have "\<dots> \<le> 10 * 10 ^ length s"
    using \<open>char_digit c < 10\<close> by (intro mult_right_mono) auto
  finally show ?case by (simp add: dec_val_Cons)
qed simp

lemma dec_val_nat_str [simp]: "dec_val (nat_str n) = n"
proof (induction n rule: nat_str.induct)
  case (1 n)
  then show ?case
    by (subst nat_str.simps) (auto simp: dec_val_snoc dec_val_Cons)
qed

lemma nat_str_digits [simp]: "list_all is_ascii_digit (nat_str n)"
proof (induction n rule: nat_str.induct)
  case (1 n)
  then show ?case by (subst nat_str.simps) auto
qed

lemma nat_str_not_Nil [simp]: "nat_str n \<noteq> []"
  by (subst nat_str.simps) auto

lemma inj_nat_str: "inj nat_str"
  by (metis dec_val_nat_str injI)

lemma nat_str_hd: "0 < n \<Longrightarrow> hd (nat_str n) \<noteq> CHR ''0''"
proof (induction n rule: nat_str.induct)
  case (1 n)
  show ?case
  proof (cases "n < 10")
    case True
    have "char_digit (digit_char n) \<noteq> 0"
      using "1.prems" True by simp
    then have "digit_char n \<noteq> CHR ''0''"
      using char_digit_eq_0_iff [of "digit_char n"] True by simp
    with True show ?thesis by (subst nat_str.simps) simp
  next
    case False
    with "1.IH" have "hd (nat_str (n div 10)) \<noteq> CHR ''0''" by simp
    with False show ?thesis by (subst nat_str.simps) simp
  qed
qed

lemma dec_val_replicate_0: "dec_val (replicate k (CHR ''0'') @ s) = dec_val s"
  by (induction k) (simp_all add: dec_val_Cons char_digit_def)

lemma dec_val_dropWhile_0: "dec_val (dropWhile (\<lambda>c. c = CHR ''0'') s) = dec_val s"
  by (induction s) (auto simp: dec_val_Cons char_digit_def)

text \<open>Digit strings of equal value that do not start with a zero are equal.\<close>

lemma nat_str_dec_val:
  "list_all is_ascii_digit s \<Longrightarrow> s \<noteq> [] \<Longrightarrow> hd s \<noteq> CHR ''0'' \<Longrightarrow> nat_str (dec_val s) = s"
proof (induction s rule: rev_induct)
  case (snoc c s)
  show ?case
  proof (cases "s = []")
    case True
    with snoc.prems show ?thesis
      by (subst nat_str.simps) (simp add: dec_val_Cons char_digit_less)
  next
    case False
    with snoc have IH: "nat_str (dec_val s) = s" by simp
    from snoc.prems have c: "char_digit c < 10" by (simp add: char_digit_less)
    from False snoc.prems obtain d ds where s: "s = d # ds" by (cases s) auto
    with snoc.prems have "char_digit d \<noteq> 0"
      by (simp add: char_digit_eq_0_iff)
    then have "1 \<le> dec_val s"
      by (simp add: s dec_val_Cons Suc_le_eq)
    then have "\<not> dec_val (s @ [c]) < 10"
      by (simp add: dec_val_snoc)
    moreover have "dec_val (s @ [c]) div 10 = dec_val s" "dec_val (s @ [c]) mod 10 = char_digit c"
      using c by (simp_all add: dec_val_snoc)
    ultimately show ?thesis
      using IH snoc.prems by (subst nat_str.simps) simp
  qed
qed simp

lemma dec_val_eq_0_iff:
  "list_all is_ascii_digit s \<Longrightarrow> dec_val s = 0 \<longleftrightarrow> dropWhile (\<lambda>c. c = CHR ''0'') s = []"
  by (induction s) (auto simp: dec_val_Cons char_digit_eq_0_iff)

lemma nat_str_dec_val_strip:
  assumes "list_all is_ascii_digit s" "dec_val s \<noteq> 0"
  shows "nat_str (dec_val s) = trim_start_matches (CHR ''0'') s"
proof -
  let ?t = "dropWhile (\<lambda>c. c = CHR ''0'') s"
  have "list_all is_ascii_digit ?t"
    using assms(1) by (auto simp: list_all_iff dest: set_dropWhileD)
  moreover from assms have "?t \<noteq> []" by (simp add: dec_val_eq_0_iff)
  moreover from this have "hd ?t \<noteq> CHR ''0''" by (rule hd_dropWhile)
  ultimately have "nat_str (dec_val ?t) = ?t" by (rule nat_str_dec_val)
  then show ?thesis by (simp add: dec_val_dropWhile_0 str_simps)
qed


lemma int_str_inj: "int_str a = int_str b \<longleftrightarrow> a = b"
proof
  assume e: "int_str a = int_str b"
  have h: "nat_str n \<noteq> CHR ''-'' # s" for n s
  proof
    assume "nat_str n = CHR ''-'' # s"
    then have "is_ascii_digit CHR ''-''" using nat_str_digits [of n] by simp
    then show False by (simp add: is_ascii_digit_def)
  qed
  have i: "nat_str n = nat_str m \<longleftrightarrow> n = m" for n m by (metis dec_val_nat_str)
  from e show "a = b" by (auto simp: int_str_def h h [symmetric] i split: if_splits)
qed simp

section \<open>Iterators and sorting\<close>

text \<open>\<open>min_by_key\<close> returns the first least element, \<open>max_by_key\<close> the last greatest one.\<close>

fun min_by_key :: "('a \<Rightarrow> 'k::linorder) \<Rightarrow> 'a list \<Rightarrow> 'a option" where
  "min_by_key f [] = None"
| "min_by_key f (x # xs) = Some (foldl (\<lambda>best y. if f y < f best then y else best) x xs)"

fun max_by_key :: "('a \<Rightarrow> 'k::linorder) \<Rightarrow> 'a list \<Rightarrow> 'a option" where
  "max_by_key f [] = None"
| "max_by_key f (x # xs) = Some (foldl (\<lambda>best y. if f y < f best then best else y) x xs)"

lemma foldl_min_by_key:
  fixes f :: "'a \<Rightarrow> 'k::linorder"
  defines "m \<equiv> \<lambda>x xs. foldl (\<lambda>best y. if f y < f best then y else best) x xs"
  shows "m x xs \<in> insert x (set xs)" "y \<in> insert x (set xs) \<Longrightarrow> f (m x xs) \<le> f y"
proof -
  have "m x xs \<in> insert x (set xs) \<and> (\<forall>y\<in>insert x (set xs). f (m x xs) \<le> f y)" for x
  proof (induction xs arbitrary: x)
    case (Cons z zs)
    let ?b = "if f z < f x then z else x"
    have e: "m x (z # zs) = m ?b zs" by (simp add: m_def)
    from Cons [of ?b] have "f (m ?b zs) \<le> f ?b" by blast
    moreover have "f ?b \<le> f x" "f ?b \<le> f z" by (auto simp: not_less)
    ultimately have "f (m ?b zs) \<le> f x" "f (m ?b zs) \<le> f z" by (blast intro: order_trans)+
    with Cons [of ?b] e show ?case by (auto split: if_splits)
  qed (simp add: m_def)
  then show "m x xs \<in> insert x (set xs)" "y \<in> insert x (set xs) \<Longrightarrow> f (m x xs) \<le> f y"
    by blast+
qed

lemma foldl_max_by_key:
  fixes f :: "'a \<Rightarrow> 'k::linorder"
  defines "m \<equiv> \<lambda>x xs. foldl (\<lambda>best y. if f y < f best then best else y) x xs"
  shows "m x xs \<in> insert x (set xs)" "y \<in> insert x (set xs) \<Longrightarrow> f y \<le> f (m x xs)"
proof -
  have "m x xs \<in> insert x (set xs) \<and> (\<forall>y\<in>insert x (set xs). f y \<le> f (m x xs))" for x
  proof (induction xs arbitrary: x)
    case (Cons z zs)
    let ?b = "if f z < f x then x else z"
    have e: "m x (z # zs) = m ?b zs" by (simp add: m_def)
    from Cons [of ?b] have "f ?b \<le> f (m ?b zs)" by blast
    moreover have "f x \<le> f ?b" "f z \<le> f ?b" by (auto simp: not_less)
    ultimately have "f x \<le> f (m ?b zs)" "f z \<le> f (m ?b zs)" by (blast intro: order_trans)+
    with Cons [of ?b] e show ?case by (auto split: if_splits)
  qed (simp add: m_def)
  then show "m x xs \<in> insert x (set xs)" "y \<in> insert x (set xs) \<Longrightarrow> f y \<le> f (m x xs)"
    by blast+
qed

lemma min_by_key_SomeD:
  assumes "min_by_key f xs = Some m"
  shows "m \<in> set xs" "x \<in> set xs \<Longrightarrow> f m \<le> f x"
proof -
  from assms obtain y ys where xs: "xs = y # ys" by (cases xs) auto
  with assms have m: "m = foldl (\<lambda>best y. if f y < f best then y else best) y ys"
    by simp
  show "m \<in> set xs" unfolding m xs list.set using foldl_min_by_key(1) .
  show "f m \<le> f x" if "x \<in> set xs"
    using that unfolding m xs list.set by (rule foldl_min_by_key(2))
qed

lemma max_by_key_SomeD:
  assumes "max_by_key f xs = Some m"
  shows "m \<in> set xs" "x \<in> set xs \<Longrightarrow> f x \<le> f m"
proof -
  from assms obtain y ys where xs: "xs = y # ys" by (cases xs) auto
  with assms have m: "m = foldl (\<lambda>best y. if f y < f best then best else y) y ys"
    by simp
  show "m \<in> set xs" unfolding m xs list.set using foldl_max_by_key(1) .
  show "f x \<le> f m" if "x \<in> set xs"
    using that unfolding m xs list.set by (rule foldl_max_by_key(2))
qed

lemma min_by_key_None_iff [simp]: "min_by_key f xs = None \<longleftrightarrow> xs = []"
  by (cases xs) auto

lemma max_by_key_None_iff [simp]: "max_by_key f xs = None \<longleftrightarrow> xs = []"
  by (cases xs) auto

text \<open>\<open>Iterator::max\<close>.\<close>

fun iter_max :: "'a::linorder list \<Rightarrow> 'a option" where
  "iter_max [] = None"
| "iter_max (x # xs) = Some (foldl max x xs)"

lemma iter_max_eq: "iter_max xs = (if xs = [] then None else Some (Max (set xs)))"
proof -
  have "foldl max x xs = Max (insert x (set xs))" for x :: 'a and xs
  proof (induction xs arbitrary: x)
    case (Cons y ys)
    then show ?case by (cases "ys = []") (simp_all add: max.assoc)
  qed simp
  then show ?thesis by (cases xs) simp_all
qed

text \<open>A \<open>BTreeMap\<close>: an association list sorted by key, without duplicate keys.\<close>

fun btree_insert :: "'k::linorder \<Rightarrow> 'v \<Rightarrow> ('k \<times> 'v) list \<Rightarrow> ('k \<times> 'v) list" where
  "btree_insert k v [] = [(k, v)]"
| "btree_insert k v ((k', v') # m) =
     (if k < k' then (k, v) # (k', v') # m
      else if k = k' then (k, v) # m
      else (k', v') # btree_insert k v m)"

definition btree_ok :: "('k::linorder \<times> 'v) list \<Rightarrow> bool" where
  "btree_ok m \<longleftrightarrow> sorted_wrt (<) (map fst m)"

lemma btree_insert_keys: "set (map fst (btree_insert k v m)) = insert k (set (map fst m))"
  by (induction k v m rule: btree_insert.induct) auto

lemma btree_insert_ok: "btree_ok m \<Longrightarrow> btree_ok (btree_insert k v m)"
proof (induction k v m rule: btree_insert.induct)
  case (2 k v k' v' m)
  have "\<forall>x\<in>set (map fst (btree_insert k v m)). k' < x" if "k' < k"
    using that "2.prems" unfolding btree_insert_keys by (auto simp: btree_ok_def)
  with 2 show ?case by (auto simp: btree_ok_def)
qed (simp add: btree_ok_def)

lemma btree_insert_map_of: "btree_ok m \<Longrightarrow> map_of (btree_insert k v m) = (map_of m)(k \<mapsto> v)"
  by (induction k v m rule: btree_insert.induct) (auto simp: btree_ok_def fun_eq_iff)

text \<open>
  The stable sort of slices, as the standard library runs it on short slices: each
  element in turn moves left past the elements it is less than. The accumulator holds
  the sorted prefix reversed. On a strict weak order every stable sort gives the same
  list.
\<close>

primrec insert_tail :: "('a \<Rightarrow> 'a \<Rightarrow> bool) \<Rightarrow> 'a \<Rightarrow> 'a list \<Rightarrow> 'a list" where
  "insert_tail lt x [] = [x]"
| "insert_tail lt x (y # ys) = (if lt x y then y # insert_tail lt x ys else x # y # ys)"

definition sort_by :: "('a \<Rightarrow> 'a \<Rightarrow> bool) \<Rightarrow> 'a list \<Rightarrow> 'a list" where
  "sort_by lt xs = rev (foldl (\<lambda>acc x. insert_tail lt x acc) [] xs)"

lemma mset_insert_tail [simp]: "mset (insert_tail lt x ys) = add_mset x (mset ys)"
  by (induction ys) auto

lemma mset_sort_by [simp]: "mset (sort_by lt xs) = mset xs"
proof -
  have "mset (foldl (\<lambda>acc x. insert_tail lt x acc) acc xs) = mset acc + mset xs" for acc
    by (induction xs arbitrary: acc) auto
  then show ?thesis by (simp add: sort_by_def)
qed

lemma set_sort_by [simp]: "set (sort_by lt xs) = set xs"
  by (metis mset_sort_by set_mset_mset)

lemma length_sort_by [simp]: "length (sort_by lt xs) = length xs"
  by (metis mset_sort_by size_mset)

lemma sort_by_sorted:
  assumes lt_iff: "\<And>x y. x \<in> set xs \<Longrightarrow> y \<in> set xs \<Longrightarrow> lt x y \<longleftrightarrow> \<not> le y x"
    and total: "\<And>x y. x \<in> set xs \<Longrightarrow> y \<in> set xs \<Longrightarrow> le x y \<or> le y x"
    and trans: "\<And>x y z. x \<in> set xs \<Longrightarrow> y \<in> set xs \<Longrightarrow> z \<in> set xs \<Longrightarrow>
      le x y \<Longrightarrow> le y z \<Longrightarrow> le x z"
  shows "sorted_wrt le (sort_by lt xs)"
proof -
  have ins: "sorted_wrt (\<lambda>a b. le b a) (insert_tail lt x ys)"
    if "sorted_wrt (\<lambda>a b. le b a) ys" "x \<in> set xs" "set ys \<subseteq> set xs" for x ys
    using that
  proof (induction ys)
    case (Cons y ys)
    have s: "set (insert_tail lt x ys) = insert x (set ys)"
      by (metis mset_insert_tail set_mset_add_mset_insert set_mset_mset)
    show ?case
    proof (cases "lt x y")
      case True
      have "y \<in> set xs" using Cons.prems by simp
      with True have "le x y" using lt_iff [of x y] total [of x y] Cons.prems(2) by blast
      with True Cons s show ?thesis by auto
    next
      case False
      have "y \<in> set xs" using Cons.prems by simp
      with False have "le y x" using lt_iff [of x y] Cons.prems(2) by blast
      with False Cons show ?thesis by (auto intro: trans)
    qed
  qed simp
  have "sorted_wrt (\<lambda>a b. le b a) (foldl (\<lambda>acc x. insert_tail lt x acc) acc zs)"
    if "sorted_wrt (\<lambda>a b. le b a) acc" "set acc \<subseteq> set xs" "set zs \<subseteq> set xs" for acc zs
    using that
  proof (induction zs arbitrary: acc)
    case (Cons z zs)
    have "set (insert_tail lt z acc) = insert z (set acc)"
      by (metis mset_insert_tail set_mset_add_mset_insert set_mset_mset)
    with Cons ins [of acc z] show ?case by simp
  qed simp
  from this [of "[]" xs] show ?thesis
    by (simp add: sort_by_def sorted_wrt_rev)
qed

lemma sorted_wrt_ends:
  assumes "sorted_wrt le xs" "x \<in> set xs" "\<And>y. y \<in> set xs \<Longrightarrow> le y y"
  shows "le (hd xs) x" "le x (last xs)"
proof -
  from assms(2) obtain i where i: "i < length xs" "x = xs ! i" by (metis in_set_conv_nth)
  then have ne: "xs \<noteq> []" by auto
  show "le (hd xs) x"
    using i assms ne by (cases "i = 0") (auto simp: hd_conv_nth sorted_wrt_iff_nth_less)
  show "le x (last xs)"
    using i assms ne
    by (cases "i = length xs - 1") (auto simp: last_conv_nth sorted_wrt_iff_nth_less)
qed

primrec replace_first :: "('a \<Rightarrow> bool) \<Rightarrow> 'a \<Rightarrow> 'a list \<Rightarrow> 'a list" where
  "replace_first P v [] = []"
| "replace_first P v (x # xs) = (if P x then v # xs else x # replace_first P v xs)"

lemma length_replace_first [simp]: "length (replace_first P v xs) = length xs"
  by (induction xs) auto

lemma mset_replace_first:
  "find P xs = Some x \<Longrightarrow> add_mset x (mset (replace_first P v xs)) = add_mset v (mset xs)"
  by (induction xs) (auto split: if_splits)

lemma map_replace_first:
  "(\<And>x. P x \<Longrightarrow> f v = f x) \<Longrightarrow> map f (replace_first P v xs) = map f xs"
  by (induction xs) auto

section \<open>Time\<close>

text \<open>
  \<open>OffsetDateTime::checked_add\<close> of a whole number of seconds comes from a library
  outside the repository and is a parameter of the definitions that use it. It is
  documented to return the exact sum, or nothing where the sum leaves the
  representable years -9999 to 9999.
\<close>

definition nanos_per_sec :: int where
  "nanos_per_sec = 1000000000"

definition instant_min :: instant where
  "instant_min = - 377705116800 * nanos_per_sec"

definition instant_max :: instant where
  "instant_max = 253402300799 * nanos_per_sec + 999999999"

locale checked_time =
  fixes add_secs :: "instant \<Rightarrow> int \<Rightarrow> instant option"
  assumes add_secs_eq: "add_secs t s =
    (if instant_min \<le> t + s * nanos_per_sec \<and> t + s * nanos_per_sec \<le> instant_max
     then Some (t + s * nanos_per_sec) else None)"
begin

lemma add_secs_SomeD: "add_secs t s = Some u \<Longrightarrow> u = t + s * nanos_per_sec"
  by (auto simp: add_secs_eq split: if_splits)

end

definition ref_add_secs :: "instant \<Rightarrow> int \<Rightarrow> instant option" where
  "ref_add_secs t s =
     (let u = t + s * nanos_per_sec
      in if instant_min \<le> u \<and> u \<le> instant_max then Some u else None)"

interpretation ref_time: checked_time ref_add_secs
  by unfold_locales (simp add: ref_add_secs_def Let_def)

end
