(* ===== verification/Money.thy ===== *)
theory Money
  imports Gateway_Prelude
begin

text \<open>
  The money types of \<open>crates/gateway-domain/src/money.rs\<close>: currency codes, fiat
  minor units and raw token amounts.

  A \<open>RawAmount\<close> is the \<open>U256\<close> it wraps, a 256-bit word. The decimal printer and
  parser of \<open>U256\<close> belong to a library outside the repository: they are the
  parameters \<open>display_u256\<close> and \<open>u256_from_str\<close> of the definitions below, and the
  locale \<open>u256_text\<close> states what the code relies on. The lemmas show that the
  price conversion \<open>mul_div_ceil\<close> is the exact ceiling of the quotient or the
  right error, that text and amount determine each other, and that the
  human-readable form loses no digit.
\<close>

section \<open>Data\<close>

datatype money_error =
    InvalidCurrencyCode
  | AmountMustBePositive
  | InvalidFiatAmount
  | InvalidRawAmount
  | RawAmountOverflow
  | DivisionByZero

datatype currency_code = CurrencyCode (currency_as_str: string)

record fiat_amount =
  fa_currency :: currency_code
  fa_minor_units :: int

type_synonym raw_amount = u256

section \<open>Currency codes\<close>

definition currency_new :: "string \<Rightarrow> money_error + currency_code" where
  "currency_new value =
     (let value = to_ascii_uppercase value;
          valid = (length value = 3 \<and> list_all is_ascii_uppercase value)
      in if \<not> valid then Inl InvalidCurrencyCode else Inr (CurrencyCode value))"

definition currency_wf :: "currency_code \<Rightarrow> bool" where
  "currency_wf c \<longleftrightarrow> length (currency_as_str c) = 3 \<and> list_all is_ascii_uppercase (currency_as_str c)"

section \<open>Fiat amounts\<close>

definition fiat_positive :: "currency_code \<Rightarrow> int \<Rightarrow> money_error + fiat_amount" where
  "fiat_positive currency minor_units =
     (if minor_units \<le> 0 then Inl AmountMustBePositive
      else Inr \<lparr> fa_currency = currency, fa_minor_units = minor_units \<rparr>)"

definition fiat_parse_positive :: "currency_code \<Rightarrow> string \<Rightarrow> money_error + fiat_amount" where
  "fiat_parse_positive currency minor_units =
     (if minor_units = [] \<or> \<not> list_all is_ascii_digit minor_units then Inl InvalidFiatAmount
      else bind_result (ok_or InvalidFiatAmount (i64_from_str minor_units))
        (\<lambda>minor_units. fiat_positive currency minor_units))"

text \<open>The module \<open>decimal_i64\<close>: minor units travel as a decimal string.\<close>

definition decimal_i64_serialize :: "int \<Rightarrow> string" where
  "decimal_i64_serialize value = int_str value"

definition decimal_i64_deserialize :: "string \<Rightarrow> int option" where
  "decimal_i64_deserialize value = i64_from_str value"

section \<open>Raw amounts\<close>

definition raw_ZERO :: raw_amount where
  "raw_ZERO = 0"

definition raw_is_zero :: "raw_amount \<Rightarrow> bool" where
  "raw_is_zero a \<longleftrightarrow> a = 0"

definition raw_positive :: "u256 \<Rightarrow> money_error + raw_amount" where
  "raw_positive value = (if value = 0 then Inl AmountMustBePositive else Inr value)"

definition to_decimal_string :: "(u256 \<Rightarrow> string) \<Rightarrow> raw_amount \<Rightarrow> nat \<Rightarrow> string" where
  "to_decimal_string display_u256 a decimals =
     (let digits = display_u256 a
      in if decimals = 0 then digits
         else let padded = pad_left (CHR ''0'') (decimals + 1) digits;
                  whole = take (length padded - decimals) padded;
                  fraction = trim_end_matches (CHR ''0'') (drop (length padded - decimals) padded)
              in if fraction = [] then whole else whole @ ''.'' @ fraction)"

definition raw_checked_add :: "raw_amount \<Rightarrow> raw_amount \<Rightarrow> money_error + raw_amount" where
  "raw_checked_add a b = ok_or RawAmountOverflow (checked_add a b)"

definition raw_checked_add_u32 :: "raw_amount \<Rightarrow> 32 word \<Rightarrow> money_error + raw_amount" where
  "raw_checked_add_u32 a b = ok_or RawAmountOverflow (checked_add a (ucast b))"

definition mul_div_ceil :: "64 word \<Rightarrow> raw_amount \<Rightarrow> raw_amount \<Rightarrow> money_error + raw_amount" where
  "mul_div_ceil multiplier numerator denominator =
     (if denominator = 0 then Inl DivisionByZero
      else bind_result (ok_or RawAmountOverflow (checked_mul (ucast multiplier) numerator)) (\<lambda>product.
        bind_result (ok_or DivisionByZero (checked_div product denominator)) (\<lambda>quotient.
        bind_result (ok_or DivisionByZero (checked_rem product denominator)) (\<lambda>remainder.
        bind_result (if remainder = 0 then Inr quotient
                     else ok_or RawAmountOverflow (checked_add quotient 1)) (\<lambda>rounded.
        raw_positive rounded)))))"

definition raw_from_str :: "(string \<Rightarrow> u256 option) \<Rightarrow> string \<Rightarrow> money_error + raw_amount" where
  "raw_from_str u256_from_str value =
     (if value = [] \<or> \<not> list_all is_ascii_digit value then Inl InvalidRawAmount
      else bind_result (ok_or InvalidRawAmount (u256_from_str value)) raw_positive)"

section \<open>Text of 256-bit integers\<close>

text \<open>
  What the code relies on: \<open>Display\<close> prints the decimal digits without leading
  zeros, and \<open>from_str\<close> reads a non-empty run of ASCII digits exactly when the
  value fits 256 bits.
\<close>

locale u256_text =
  fixes display_u256 :: "u256 \<Rightarrow> string"
    and u256_from_str :: "string \<Rightarrow> u256 option"
  assumes display_decimal: "display_u256 x = nat_str (unat x)"
    and from_str_digits: "s \<noteq> [] \<Longrightarrow> list_all is_ascii_digit s \<Longrightarrow>
      u256_from_str s = (if dec_val s < 2 ^ 256 then Some (of_nat (dec_val s)) else None)"
begin

lemma from_str_display [simp]: "u256_from_str (display_u256 x) = Some x"
  using unsigned_less [of x, where ?'a = nat]
  by (simp add: display_decimal from_str_digits)

lemma raw_from_str_iff:
  "raw_from_str u256_from_str s = Inr a \<longleftrightarrow>
     s \<noteq> [] \<and> list_all is_ascii_digit s \<and> dec_val s = unat a \<and> a \<noteq> 0"
proof (cases "s \<noteq> [] \<and> list_all is_ascii_digit s \<and> dec_val s < 2 ^ 256")
  case True
  then show ?thesis
    by (auto simp: raw_from_str_def from_str_digits raw_positive_def word_unat_eq_iff
        take_bit_nat_eq_self unsigned_of_nat)
next
  case False
  then have "raw_from_str u256_from_str s \<noteq> Inr a"
    by (auto simp: raw_from_str_def from_str_digits)
  moreover have "unat a < 2 ^ 256"
    using unsigned_less [of a, where ?'a = nat] by simp
  ultimately show ?thesis using False by auto
qed

lemma raw_from_str_display: "a \<noteq> 0 \<Longrightarrow> raw_from_str u256_from_str (display_u256 a) = Inr a"
  by (simp add: raw_from_str_iff display_decimal)

end

definition ref_display_u256 :: "u256 \<Rightarrow> string" where
  "ref_display_u256 x = nat_str (unat x)"

definition ref_u256_from_str :: "string \<Rightarrow> u256 option" where
  "ref_u256_from_str s =
     (if s \<noteq> [] \<and> list_all is_ascii_digit s \<and> dec_val s < 2 ^ 256
      then Some (of_nat (dec_val s)) else None)"

interpretation ref_text: u256_text ref_display_u256 ref_u256_from_str
  by unfold_locales (simp_all add: ref_display_u256_def ref_u256_from_str_def)

section \<open>Lemmas\<close>

lemma currency_new_wf: "currency_new s = Inr c \<Longrightarrow> currency_wf c"
  by (auto simp: currency_new_def currency_wf_def Let_def split: if_splits)

lemma currency_new_fixed: "currency_wf c \<Longrightarrow> currency_new (currency_as_str c) = Inr c"
  by (cases c) (simp add: currency_wf_def currency_new_def to_ascii_uppercase_fixed)

lemma digits_no_sign:
  "s \<noteq> [] \<Longrightarrow> list_all is_ascii_digit s \<Longrightarrow>
     i64_from_str s = (if int (dec_val s) \<le> i64_max then Some (int (dec_val s)) else None)"
  by (cases s) (auto simp: i64_from_str_def i64_ok_def i64_min_def is_ascii_digit_def)

lemma i64_from_str_int_str:
  assumes "i64_ok i"
  shows "i64_from_str (int_str i) = Some i"
proof (cases "i < 0")
  case True
  with assms show ?thesis
    by (simp add: int_str_def i64_from_str_def)
next
  case False
  with assms show ?thesis
    by (simp add: int_str_def digits_no_sign i64_ok_def)
qed

lemma raw_positive_iff [simp]: "raw_positive v = Inr a \<longleftrightarrow> v = a \<and> a \<noteq> 0"
  by (auto simp: raw_positive_def)

lemma nat_ceil_div_bounds:
  fixes p d :: nat
  assumes "0 < d" "0 < p"
  defines "r \<equiv> p div d + (if p mod d = 0 then 0 else 1)"
  shows "p \<le> r * d" "(r - 1) * d < p" "0 < r" "r \<le> p"
proof -
  have p: "p = p div d * d + p mod d" by simp
  have m: "p mod d < d" using assms by simp
  show "p \<le> r * d"
  proof (cases "p mod d = 0")
    case True
    with p show ?thesis by (simp add: r_def)
  next
    case False
    then have "r * d = p div d * d + d" by (simp add: r_def)
    with p m show ?thesis by linarith
  qed
  show "0 < r"
    using assms p m by (cases "p mod d = 0") (auto simp: r_def intro!: Nat.gr0I)
  show "(r - 1) * d < p"
  proof (cases "p mod d = 0")
    case True
    with \<open>0 < r\<close> have "(r - 1) * d < r * d" using assms by simp
    with True p show ?thesis by (simp add: r_def)
  next
    case False
    then have "(r - 1) * d = p div d * d" by (simp add: r_def)
    then show ?thesis using p False by linarith
  qed
  then have "r - 1 < p"
    using assms by (metis le_less_trans mult.right_neutral mult_le_mono2 One_nat_def Suc_leI)
  then show "r \<le> p" by linarith
qed

lemma nat_ceil_unique:
  fixes p d r s :: nat
  assumes "p \<le> r * d" "(r - 1) * d < p" "p \<le> s * d" "(s - 1) * d < p"
  shows "r = s"
proof -
  have "(r - 1) * d < s * d" "(s - 1) * d < r * d"
    using assms by linarith+
  then have "r - 1 < s" "s - 1 < r"
    by simp_all
  then show ?thesis by linarith
qed

lemma of_nat_unat_less: "n < 2 ^ 256 \<Longrightarrow> unat (of_nat n :: u256) = n"
  by (simp add: unsigned_of_nat take_bit_nat_eq_self)

lemma checked_ceil_div:
  fixes num low :: u256
  assumes "num \<noteq> 0" "low \<noteq> 0"
  shows "bind_result (ok_or e (checked_div num low)) (\<lambda>q.
           bind_result (ok_or e (checked_rem num low)) (\<lambda>rem.
           bind_result (if rem = 0 then Inr q else ok_or e' (checked_add q 1)) f)) =
         f (of_nat (unat num div unat low + (if unat num mod unat low = 0 then 0 else 1)))"
proof -
  have l: "0 < unat low" and n: "0 < unat num" using assms by (simp_all add: unat_gt_0)
  note b = nat_ceil_div_bounds [OF l n]
  have z: "num mod low = 0 \<longleftrightarrow> unat num mod unat low = 0"
    by (simp add: word_unat_eq_iff unat_mod)
  have q: "num div low = of_nat (unat num div unat low)"
    by (metis unat_div of_nat_unat ucast_id)
  show ?thesis
  proof (cases "unat num mod unat low = 0")
    case True
    with z q assms show ?thesis by (simp add: checked_div_def checked_rem_def)
  next
    case False
    then have "unat num div unat low + 1 < 2 ^ 256"
      using b(4) unsigned_less [of num, where ?'a = nat] by simp
    then have "checked_add (num div low) 1 = Some (num div low + 1)"
      by (simp add: checked_add_def unat_div)
    with False z q assms show ?thesis by (simp add: checked_div_def checked_rem_def add.commute)
  qed
qed

text \<open>\<open>mul_div_ceil\<close> on every branch; the overflow of the rounding step cannot happen.\<close>

lemma mul_div_ceil_cases:
  "mul_div_ceil m n d =
     (if d = 0 then Inl DivisionByZero
      else if 2 ^ 256 \<le> unat m * unat n then Inl RawAmountOverflow
      else if unat m * unat n = 0 then Inl AmountMustBePositive
      else Inr (of_nat (unat m * unat n div unat d + (if unat m * unat n mod unat d = 0 then 0 else 1))))"
proof -
  let ?M = "ucast m :: u256" and ?p = "unat m * unat n"
  have M: "unat ?M = unat m"
    by (simp add: unat_ucast_le)
  consider "d = 0" | "d \<noteq> 0" "2 ^ 256 \<le> ?p" | "d \<noteq> 0" "?p < 2 ^ 256" by linarith
  then show ?thesis
  proof cases
    case 2
    then have "checked_mul ?M n = None" by (simp add: checked_mul_None_iff M)
    with 2 show ?thesis by (simp add: mul_div_ceil_def)
  next
    case 3
    define P where "P = ?M * n"
    have P: "unat P = ?p"
      using 3 by (simp add: P_def unat_mult_lem [THEN iffD1] M)
    have mul: "checked_mul ?M n = Some P"
      using 3 by (simp add: checked_mul_Some_iff M P)
    show ?thesis
    proof (cases "?p = 0")
      case True
      then have "P = 0" using P by (simp add: word_unat_eq_iff)
      with True 3 mul show ?thesis
        by (simp add: mul_div_ceil_def checked_div_def checked_rem_def raw_positive_def)
    next
      case False
      let ?r = "?p div unat d + (if ?p mod unat d = 0 then 0 else 1)"
      have d: "0 < unat d" using 3 by (simp add: unat_gt_0)
      note b = nat_ceil_div_bounds [OF d False [THEN neq0_conv [THEN iffD1]]]
      have "P \<noteq> 0" using False P by (metis unat_0)
      then have "mul_div_ceil m n d = raw_positive (of_nat ?r)"
        using 3 mul by (simp only: mul_div_ceil_def checked_ceil_div P ok_or_simps bind_result_simps
            if_False not_False_eq_True)
      moreover have "unat (of_nat ?r :: u256) = ?r"
        using b(4) 3(2) by (intro of_nat_unat_less) (rule le_less_trans)
      then have "(of_nat ?r :: u256) \<noteq> 0" using b(3) by (metis less_not_refl unat_0)
      ultimately show ?thesis using 3 False by (simp add: raw_positive_def)
    qed
  qed (simp add: mul_div_ceil_def)
qed


lemma mul_div_ceil_Inr_iff:
  "mul_div_ceil m n d = Inr r \<longleftrightarrow>
     d \<noteq> 0 \<and> 0 < unat m * unat n \<and> unat m * unat n < 2 ^ 256 \<and>
     unat m * unat n \<le> unat r * unat d \<and> (unat r - 1) * unat d < unat m * unat n"
proof -
  let ?p = "unat m * unat n"
  let ?r = "?p div unat d + (if ?p mod unat d = 0 then 0 else 1)"
  have ok: "mul_div_ceil m n d = Inr r \<longleftrightarrow>
      ?p \<le> unat r * unat d \<and> (unat r - 1) * unat d < ?p"
    if "d \<noteq> 0" "0 < ?p" "?p < 2 ^ 256"
  proof -
    have d: "0 < unat d" using that(1) by (simp add: unat_gt_0)
    note b = nat_ceil_div_bounds [OF d that(2)]
    have r: "?r < 2 ^ 256" using b(4) that(3) by (rule le_less_trans)
    have "mul_div_ceil m n d = Inr r \<longleftrightarrow> ?r = unat r"
      using that r of_nat_unat_less [OF r]
      by (simp add: mul_div_ceil_cases word_unat_eq_iff del: of_nat_add of_nat_mult)
    also have "\<dots> \<longleftrightarrow> ?p \<le> unat r * unat d \<and> (unat r - 1) * unat d < ?p"
      using b(1,2) nat_ceil_unique [of ?p ?r "unat d" "unat r"] by auto
    finally show ?thesis .
  qed
  have no: "mul_div_ceil m n d \<noteq> Inr r" if "\<not> (d \<noteq> 0 \<and> 0 < ?p \<and> ?p < 2 ^ 256)"
    using that by (auto simp: mul_div_ceil_cases)
  show ?thesis
    by (cases "d \<noteq> 0 \<and> 0 < ?p \<and> ?p < 2 ^ 256") (use ok no in blast)+
qed

text \<open>C24: Converting a price never rounds down and never charges more than one raw unit
  too much: \<open>mul_div_ceil\<close> returns \<open>r\<close> exactly when the denominator is not zero, the
  256-bit product exists and is positive, and \<open>r\<close> is the least integer with
  \<open>multiplier * numerator \<le> r * denominator\<close>; each error is returned in exactly one
  situation, and the overflow of the rounding step is not one of them.\<close>

theorem mul_div_ceil_exact:
  "(mul_div_ceil m n d = Inr r \<longleftrightarrow>
      d \<noteq> 0 \<and> 0 < unat m * unat n \<and> unat m * unat n < 2 ^ 256 \<and>
      unat m * unat n \<le> unat r * unat d \<and> (unat r - 1) * unat d < unat m * unat n) \<and>
   (mul_div_ceil m n d = Inl DivisionByZero \<longleftrightarrow> d = 0) \<and>
   (mul_div_ceil m n d = Inl RawAmountOverflow \<longleftrightarrow> d \<noteq> 0 \<and> 2 ^ 256 \<le> unat m * unat n) \<and>
   (mul_div_ceil m n d = Inl AmountMustBePositive \<longleftrightarrow> d \<noteq> 0 \<and> unat m * unat n = 0)"
proof (intro conjI)
  let ?p = "unat m * unat n"
  show "mul_div_ceil m n d = Inl DivisionByZero \<longleftrightarrow> d = 0"
    by (simp add: mul_div_ceil_cases)
  show "mul_div_ceil m n d = Inl RawAmountOverflow \<longleftrightarrow> d \<noteq> 0 \<and> 2 ^ 256 \<le> ?p"
    by (simp add: mul_div_ceil_cases)
  show "mul_div_ceil m n d = Inl AmountMustBePositive \<longleftrightarrow> d \<noteq> 0 \<and> ?p = 0"
    by (auto simp: mul_div_ceil_cases)
qed (rule mul_div_ceil_Inr_iff)

lemma trim_end_split:
  obtains k where "s = trim_end_matches c s @ replicate k c"
proof -
  have "rev s = takeWhile (\<lambda>x. x = c) (rev s) @ dropWhile (\<lambda>x. x = c) (rev s)"
    by simp
  then have "s = trim_end_matches c s @ rev (takeWhile (\<lambda>x. x = c) (rev s))"
    by (metis rev_append rev_rev_ident trim_end_matches_def)
  moreover have "takeWhile (\<lambda>x. x = c) (rev s) = replicate (length (takeWhile (\<lambda>x. x = c) (rev s))) c"
    by (rule replicate_length_same [symmetric]) (auto dest: set_takeWhileD)
  ultimately show thesis using that by (metis rev_replicate)
qed

lemma trim_end_last: "trim_end_matches c s \<noteq> [] \<Longrightarrow> last (trim_end_matches c s) \<noteq> c"
  unfolding trim_end_matches_def last_rev using hd_dropWhile [of "\<lambda>x. x = c" "rev s"] by simp

lemma trim_end_digits: "list_all is_ascii_digit s \<Longrightarrow> list_all is_ascii_digit (trim_end_matches c s)"
  by (auto simp: list_all_iff trim_end_matches_def dest: set_dropWhileD)

lemma dec_val_trim_end:
  assumes "length s = d"
  shows "dec_val s = dec_val (trim_end_matches (CHR ''0'') s) *
           10 ^ (d - length (trim_end_matches (CHR ''0'') s))"
proof -
  obtain k where k: "s = trim_end_matches (CHR ''0'') s @ replicate k (CHR ''0'')"
    by (rule trim_end_split)
  have "dec_val (replicate k (CHR ''0'')) = 0"
    using dec_val_replicate_0 [of k "[]"] by simp
  moreover have "d - length (trim_end_matches (CHR ''0'') s) = k"
    using assms k by (metis diff_add_inverse length_append length_replicate)
  moreover have "dec_val s = dec_val (trim_end_matches (CHR ''0'') s @ replicate k (CHR ''0''))"
    using k by simp
  ultimately show ?thesis by (simp add: dec_val_append)
qed

text \<open>The shape of the printed amount and the value it denotes.\<close>

definition decimal_form :: "string \<Rightarrow> string \<Rightarrow> string" where
  "decimal_form whole fraction = (if fraction = [] then whole else whole @ ''.'' @ fraction)"

lemma decimal_form_inj:
  assumes "decimal_form w f = decimal_form w' f'"
    and "list_all is_ascii_digit w" "list_all is_ascii_digit w'"
  shows "w = w' \<and> f = f'"
proof -
  have dot: "CHR ''.'' \<notin> set u" if "list_all is_ascii_digit u" for u
    using that by (auto simp: list_all_iff is_ascii_digit_def)
  show ?thesis
  proof (cases "f = [] \<or> f' = []")
    case True
    have "\<not> is_ascii_digit CHR ''.''" by (simp add: is_ascii_digit_def)
    with True assms show ?thesis
      by (auto simp: decimal_form_def split: if_splits)
  next
    case False
    with assms(1) have e: "w @ CHR ''.'' # f = w' @ CHR ''.'' # f'"
      by (simp add: decimal_form_def)
    have "takeWhile (\<lambda>c. c \<noteq> CHR ''.'') (u @ CHR ''.'' # g) = u"
      if "list_all is_ascii_digit u" for u g
      using dot [OF that] by (induction u) auto
    then have "w = w'" using e assms(2,3) by metis
    with e show ?thesis by simp
  qed
qed

lemma pad_left_digits: "list_all is_ascii_digit s \<Longrightarrow> list_all is_ascii_digit (pad_left (CHR ''0'') w s)"
  by (auto simp: pad_left_def is_ascii_digit_def list_all_iff)

lemma to_decimal_string_parts:
  assumes "u256_text display_u256 u256_from_str"
  obtains whole fraction where
    "to_decimal_string display_u256 a decimals = decimal_form whole fraction"
    "whole \<noteq> []" "list_all is_ascii_digit whole" "list_all is_ascii_digit fraction"
    "length fraction \<le> decimals" "fraction \<noteq> [] \<longrightarrow> last fraction \<noteq> CHR ''0''"
    "unat a = dec_val whole * 10 ^ decimals + dec_val fraction * 10 ^ (decimals - length fraction)"
proof (cases "decimals = 0")
  case True
  show thesis
    by (rule that [of "nat_str (unat a)" "[]"])
      (simp_all add: to_decimal_string_def True decimal_form_def u256_text.display_decimal [OF assms])
next
  case False
  define padded where "padded = pad_left (CHR ''0'') (decimals + 1) (nat_str (unat a))"
  define n where "n = length padded - decimals"
  have len: "decimals + 1 \<le> length padded" by (simp add: padded_def pad_left_def)
  have dig: "list_all is_ascii_digit padded" by (simp add: padded_def pad_left_digits)
  have val: "dec_val padded = unat a" by (simp add: padded_def pad_left_def dec_val_replicate_0)
  define whole where "whole = take n padded"
  define fr where "fr = drop n padded"
  have fl: "length fr = decimals" using len by (simp add: fr_def n_def)
  have split: "padded = whole @ fr" by (simp add: whole_def fr_def)
  from dig split have d: "list_all is_ascii_digit whole" "list_all is_ascii_digit fr" by simp_all
  obtain k where k: "fr = trim_end_matches (CHR ''0'') fr @ replicate k (CHR ''0'')"
    by (rule trim_end_split)
  show thesis
  proof (rule that [of whole "trim_end_matches (CHR ''0'') fr"])
    show "to_decimal_string display_u256 a decimals = decimal_form whole (trim_end_matches (CHR ''0'') fr)"
      using False by (simp add: to_decimal_string_def Let_def decimal_form_def whole_def fr_def n_def
          padded_def u256_text.display_decimal [OF assms])
    show "whole \<noteq> []" using len by (auto simp: whole_def n_def)
    show "length (trim_end_matches (CHR ''0'') fr) \<le> decimals"
      using k fl by (metis le_add1 length_append)
    show "trim_end_matches (CHR ''0'') fr \<noteq> [] \<longrightarrow> last (trim_end_matches (CHR ''0'') fr) \<noteq> CHR ''0''"
      using trim_end_last by blast
    show "unat a = dec_val whole * 10 ^ decimals + dec_val (trim_end_matches (CHR ''0'') fr) *
        10 ^ (decimals - length (trim_end_matches (CHR ''0'') fr))"
      using val split fl dec_val_trim_end [OF fl] by (simp add: dec_val_append)
  qed (use d trim_end_digits in auto)
qed

text \<open>C38: The human-readable amount is exact. With \<open>d\<close> decimals the printed text is a
  non-empty digit run, followed by a point and at most \<open>d\<close> further digits not ending in
  zero if there is a fraction; the digits denote exactly the raw amount, and two amounts
  printed with the same decimals never read the same.\<close>

theorem to_decimal_string_exact:
  assumes "u256_text display_u256 u256_from_str"
  shows "(\<exists>whole fraction.
           to_decimal_string display_u256 a d =
             (if fraction = [] then whole else whole @ ''.'' @ fraction) \<and>
           whole \<noteq> [] \<and> list_all is_ascii_digit (whole @ fraction) \<and> length fraction \<le> d \<and>
           (fraction \<noteq> [] \<longrightarrow> last fraction \<noteq> CHR ''0'') \<and>
           unat a = dec_val whole * 10 ^ d + dec_val fraction * 10 ^ (d - length fraction)) \<and>
         (to_decimal_string display_u256 a d = to_decimal_string display_u256 b d \<longrightarrow> a = b)"
proof -
  obtain w f where 1: "to_decimal_string display_u256 a d = decimal_form w f"
    "w \<noteq> []" "list_all is_ascii_digit w" "list_all is_ascii_digit f" "length f \<le> d"
    "f \<noteq> [] \<longrightarrow> last f \<noteq> CHR ''0''"
    "unat a = dec_val w * 10 ^ d + dec_val f * 10 ^ (d - length f)"
    by (rule to_decimal_string_parts [OF assms])
  obtain w' f' where 2: "to_decimal_string display_u256 b d = decimal_form w' f'"
    "list_all is_ascii_digit w'"
    "unat b = dec_val w' * 10 ^ d + dec_val f' * 10 ^ (d - length f')"
    by (rule to_decimal_string_parts [OF assms])
  have "a = b" if "to_decimal_string display_u256 a d = to_decimal_string display_u256 b d"
    using decimal_form_inj [of w f w' f'] that 1 2 by (simp add: word_unat_eq_iff)
  moreover have "to_decimal_string display_u256 a d = (if f = [] then w else w @ ''.'' @ f)"
    using 1(1) by (simp only: decimal_form_def)
  ultimately show ?thesis using 1 by (metis list_all_append)
qed

theorem to_decimal_string_exact_witness:
  "to_decimal_string ref_display_u256 1500000 6 \<noteq> to_decimal_string ref_display_u256 1500001 6"
  using to_decimal_string_exact [OF ref_text.u256_text_axioms, of 1500000 6 1500001] by auto

text \<open>C39: Amounts survive their text form, and nothing else parses. A positive raw
  amount printed and parsed gives the same amount; a string parses to an amount exactly
  when it is a non-empty run of ASCII digits denoting that amount and the amount is not
  zero, so signs, points, spaces, hexadecimal prefixes and values beyond 256 bits are
  refused.\<close>

theorem raw_amount_text_round_trip:
  assumes "u256_text display_u256 u256_from_str"
  shows "(a \<noteq> 0 \<longrightarrow> raw_from_str u256_from_str (display_u256 a) = Inr a) \<and>
         (raw_from_str u256_from_str s = Inr b \<longleftrightarrow>
            s \<noteq> [] \<and> list_all is_ascii_digit s \<and> dec_val s = unat b \<and> b \<noteq> 0)"
  using u256_text.raw_from_str_display [OF assms] u256_text.raw_from_str_iff [OF assms] by blast

theorem raw_amount_text_round_trip_witness:
  "raw_from_str ref_u256_from_str (ref_display_u256 1500000) = Inr 1500000 \<and>
   raw_from_str ref_u256_from_str ''0x10'' \<noteq> Inr 16"
  using raw_amount_text_round_trip [OF ref_text.u256_text_axioms, of 1500000 "''0x10''" 16]
  by (auto simp: is_ascii_digit_def)

text \<open>A public fiat amount parses exactly when it is a non-empty run of ASCII
  digits whose value is positive and fits a signed 64-bit integer; the parsed amount has
  that value, and the serialised form of every 64-bit value reads back.\<close>

theorem fiat_parse_positive_exact:
  "(fiat_parse_positive c s = Inr f \<longleftrightarrow>
      s \<noteq> [] \<and> list_all is_ascii_digit s \<and> 0 < dec_val s \<and> dec_val s < 2 ^ 63 \<and>
      f = \<lparr> fa_currency = c, fa_minor_units = int (dec_val s) \<rparr>) \<and>
   (i64_ok i \<longrightarrow> decimal_i64_deserialize (decimal_i64_serialize i) = Some i)"
proof (intro conjI impI)
  have m: "int n \<le> i64_max \<longleftrightarrow> n < 2 ^ 63" for n
    by (auto simp: i64_max_def)
  show "fiat_parse_positive c s = Inr f \<longleftrightarrow>
      s \<noteq> [] \<and> list_all is_ascii_digit s \<and> 0 < dec_val s \<and> dec_val s < 2 ^ 63 \<and>
      f = \<lparr> fa_currency = c, fa_minor_units = int (dec_val s) \<rparr>"
    by (auto simp: fiat_parse_positive_def digits_no_sign fiat_positive_def m)
  show "decimal_i64_deserialize (decimal_i64_serialize i) = Some i" if "i64_ok i"
    using that by (simp add: decimal_i64_serialize_def decimal_i64_deserialize_def i64_from_str_int_str)
qed

theorem fiat_parse_positive_exact_witness:
  "decimal_i64_deserialize (decimal_i64_serialize (- 5)) = Some (- 5)"
  using fiat_parse_positive_exact [of _ _ _ "- 5"] by (simp add: i64_ok_def i64_min_def i64_max_def)

end
