(* ===== verification/Price.thy ===== *)
theory Price
  imports Money
begin

text \<open>
  The price aggregation of \<open>crates/gateway-domain/src/price.rs\<close>: readings of several
  providers are filtered by age, reduced to one reading per provider group, sorted by
  exact rational comparison, checked for divergence and combined into a median.

  The lemmas show which readings stand behind a returned rate, that the spread is the
  exact ceiling in basis points, that the gcd loop ends with the greatest common
  divisor, and that the median lies between the extremes as long as no comparison
  overflows. Where one does, the divergence check can be passed by a reading it never
  looked at: \<open>aggregate_overflow_bypass\<close> exhibits it.
\<close>

section \<open>Data\<close>

definition BPS_SCALE :: "64 word" where
  "BPS_SCALE = 10000"

record price_reading =
  pr_source_key :: string
  pr_provider_group :: string
  pr_rate_numerator :: raw_amount
  pr_rate_denominator :: raw_amount
  pr_observed_at :: instant

record price_policy =
  pp_min_sources :: nat
  pp_max_age_seconds :: int
  pp_max_deviation_bps :: nat

datatype price_discard_reason = PD_Stale | PD_FutureDated | PD_SupersededInGroup

definition price_discard_as_str :: "price_discard_reason \<Rightarrow> string" where
  "price_discard_as_str r =
     (case r of PD_Stale \<Rightarrow> ''stale'' | PD_FutureDated \<Rightarrow> ''future_dated''
      | PD_SupersededInGroup \<Rightarrow> ''superseded_in_group'')"

record aggregated_price =
  ap_rate_numerator :: raw_amount
  ap_rate_denominator :: raw_amount
  ap_group_count :: nat
  ap_deviation_bps :: nat
  ap_used :: "nat list"
  ap_discarded :: "(nat \<times> price_discard_reason) list"

datatype price_error =
    PolicyDemandsTooFewSources
  | NoReadings
  | NotEnoughSources nat nat
  | Diverged nat nat
  | PriceOverflow

section \<open>Operations\<close>

fun compare_less :: "price_reading \<Rightarrow> price_reading \<Rightarrow> bool" where
  "compare_less left right =
     (case (checked_mul (pr_rate_numerator left) (pr_rate_denominator right),
            checked_mul (pr_rate_numerator right) (pr_rate_denominator left)) of
        (Some left_side, Some right_side) \<Rightarrow> left_side < right_side
      | _ \<Rightarrow> False)"

definition deviation_bps :: "price_reading \<Rightarrow> price_reading \<Rightarrow> price_error + nat" where
  "deviation_bps lowest highest =
     bind_result (ok_or PriceOverflow
       (checked_mul (pr_rate_numerator highest) (pr_rate_denominator lowest))) (\<lambda>scaled_high.
     bind_result (ok_or PriceOverflow
       (checked_mul (pr_rate_numerator lowest) (pr_rate_denominator highest))) (\<lambda>scaled_low.
     let difference = saturating_sub scaled_high scaled_low
     in if difference = 0 then Inr 0
        else bind_result (ok_or PriceOverflow (checked_mul difference (ucast BPS_SCALE))) (\<lambda>numerator.
          bind_result (ok_or PriceOverflow (checked_div numerator scaled_low)) (\<lambda>quotient.
          bind_result (ok_or PriceOverflow (checked_rem numerator scaled_low)) (\<lambda>remainder.
          bind_result (if remainder = 0 then Inr quotient
                       else ok_or PriceOverflow (checked_add quotient 1)) (\<lambda>rounded.
          if unat rounded \<le> u32_max then Inr (unat rounded) else Inl PriceOverflow))))))"

lemma unat_mod_less: "right \<noteq> 0 \<Longrightarrow> unat (left mod right) < unat right" for left right :: "'w::len word"
  by (simp add: unat_mod unat_gt_0)

function gcd_loop :: "u256 \<Rightarrow> u256 \<Rightarrow> u256" where
  "gcd_loop left right =
     (if right \<noteq> 0
      then case checked_rem left right of
             None \<Rightarrow> left
           | Some remainder \<Rightarrow> gcd_loop right remainder
      else left)"
  by pat_completeness auto
termination
  by (relation "measure (\<lambda>(left, right). unat right)")
    (auto simp: checked_rem_def unat_mod_less split: if_splits)

declare gcd_loop.simps [simp del]

definition greatest_common_divisor :: "u256 \<Rightarrow> u256 \<Rightarrow> u256" where
  "greatest_common_divisor left right =
     (let left = gcd_loop left right in if left = 0 then 1 else left)"

definition get :: "nat \<Rightarrow> 'a list \<Rightarrow> 'a option" where
  "get i xs = (if i < length xs then Some (xs ! i) else None)"

definition median :: "(nat \<times> price_reading) list \<Rightarrow> price_error + raw_amount \<times> raw_amount" where
  "median readings =
     (let count = length readings
      in if count = 0 then Inl NoReadings
         else if count mod 2 = 1 then
           bind_result (ok_or NoReadings (get (count div 2) readings)) (\<lambda>middle.
             Inr (pr_rate_numerator (snd middle), pr_rate_denominator (snd middle)))
         else
           bind_result (ok_or NoReadings (get (count div 2 - 1) readings)) (\<lambda>left.
           bind_result (ok_or NoReadings (get (count div 2) readings)) (\<lambda>right.
           bind_result (ok_or PriceOverflow
             (checked_mul (pr_rate_numerator (snd left)) (pr_rate_denominator (snd right)))) (\<lambda>left_cross.
           bind_result (ok_or PriceOverflow
             (checked_mul (pr_rate_numerator (snd right)) (pr_rate_denominator (snd left)))) (\<lambda>right_cross.
           bind_result (ok_or PriceOverflow (checked_add left_cross right_cross)) (\<lambda>numerator.
           bind_result (ok_or PriceOverflow
             (Option.bind (checked_mul (pr_rate_denominator (snd left)) (pr_rate_denominator (snd right)))
               (\<lambda>product. checked_mul product 2))) (\<lambda>denominator.
           let divisor = greatest_common_divisor numerator denominator
           in bind_result (ok_or PriceOverflow (checked_div numerator divisor)) (\<lambda>numerator.
              bind_result (ok_or PriceOverflow (checked_div denominator divisor)) (\<lambda>denominator.
              bind_result (map_err (\<lambda>_. PriceOverflow) (raw_positive numerator)) (\<lambda>n.
              bind_result (map_err (\<lambda>_. PriceOverflow) (raw_positive denominator)) (\<lambda>d.
              Inr (n, d))))))))))))"

type_synonym discards = "(nat \<times> price_discard_reason) list"
type_synonym indexed = "(nat \<times> price_reading) list"

text \<open>The body of the first loop of \<open>aggregate\<close>: age.\<close>

definition reading_verdict ::
  "(instant \<Rightarrow> int \<Rightarrow> instant option) \<Rightarrow> price_policy \<Rightarrow> instant \<Rightarrow> price_reading
     \<Rightarrow> price_discard_reason option" where
  "reading_verdict add_secs policy now reading =
     (if pr_observed_at reading > now then Some PD_FutureDated
      else case add_secs (pr_observed_at reading) (i64_sat_add (pp_max_age_seconds policy) 1) of
             None \<Rightarrow> Some PD_Stale
           | Some cutoff \<Rightarrow> if now \<ge> cutoff then Some PD_Stale else None)"

fun fresh_step ::
  "(instant \<Rightarrow> int \<Rightarrow> instant option) \<Rightarrow> price_policy \<Rightarrow> instant
     \<Rightarrow> discards \<times> indexed \<Rightarrow> nat \<times> price_reading \<Rightarrow> discards \<times> indexed" where
  "fresh_step add_secs policy now (discarded, fresh) (index, reading) =
     (case reading_verdict add_secs policy now reading of
        Some reason \<Rightarrow> (discarded @ [(index, reason)], fresh)
      | None \<Rightarrow> (discarded, fresh @ [(index, reading)]))"

text \<open>The body of the second loop: one opinion per provider group.\<close>

fun group_step :: "discards \<times> indexed \<Rightarrow> nat \<times> price_reading \<Rightarrow> discards \<times> indexed" where
  "group_step (discarded, per_group) (index, reading) =
     (let same = (\<lambda>kept. pr_provider_group (snd kept) = pr_provider_group reading)
      in case find same per_group of
           Some slot \<Rightarrow>
             if pr_observed_at reading > pr_observed_at (snd slot)
             then (discarded @ [(fst slot, PD_SupersededInGroup)],
                   replace_first same (index, reading) per_group)
             else (discarded @ [(index, PD_SupersededInGroup)], per_group)
         | None \<Rightarrow> (discarded, per_group @ [(index, reading)]))"

definition aggregate ::
  "(instant \<Rightarrow> int \<Rightarrow> instant option) \<Rightarrow> price_reading list \<Rightarrow> price_policy \<Rightarrow> instant
     \<Rightarrow> price_error + aggregated_price" where
  "aggregate add_secs readings policy now =
     (if pp_min_sources policy < 2 then Inl PolicyDemandsTooFewSources
      else let (discarded, fresh) = foldl (fresh_step add_secs policy now) ([], []) (enumerate 0 readings);
               (discarded, per_group) = foldl group_step (discarded, []) fresh;
               group_count = u32_try_from (length per_group)
           in if group_count < pp_min_sources policy
              then Inl (NotEnoughSources (pp_min_sources policy) group_count)
              else let per_group = sort_by (\<lambda>left right. compare_less (snd left) (snd right)) per_group
                   in bind_result (ok_or NoReadings (get 0 per_group)) (\<lambda>lowest.
                      bind_result (ok_or NoReadings (get (length per_group - 1) per_group)) (\<lambda>highest.
                      bind_result (deviation_bps (snd lowest) (snd highest)) (\<lambda>deviation.
                      if deviation > pp_max_deviation_bps policy
                      then Inl (Diverged deviation (pp_max_deviation_bps policy))
                      else bind_result (median per_group) (\<lambda>(rate_numerator, rate_denominator).
                        Inr \<lparr> ap_rate_numerator = rate_numerator,
                              ap_rate_denominator = rate_denominator,
                              ap_group_count = group_count,
                              ap_deviation_bps = deviation,
                              ap_used = map fst per_group,
                              ap_discarded = discarded \<rparr>)))))"

section \<open>The gcd loop\<close>

lemma unat_gcd_loop: "unat (gcd_loop l r) = gcd (unat l) (unat r)"
proof (induction l r rule: gcd_loop.induct)
  case (1 l r)
  show ?case
  proof (cases "r = 0")
    case False
    then have "gcd_loop l r = gcd_loop r (l mod r)"
      by (subst gcd_loop.simps) (simp add: checked_rem_def)
    with 1 False show ?thesis
      by (simp add: checked_rem_def unat_mod gcd_red_nat [of "unat l" "unat r"])
  qed (simp add: gcd_loop.simps)
qed

lemma unat_greatest_common_divisor:
  "unat (greatest_common_divisor l r) = (if l = 0 \<and> r = 0 then 1 else gcd (unat l) (unat r))"
proof -
  have "gcd_loop l r = 0 \<longleftrightarrow> l = 0 \<and> r = 0"
    using unat_gcd_loop [of l r] by (metis gcd_eq_0_iff unat_eq_zero)
  then show ?thesis by (simp add: greatest_common_divisor_def unat_gcd_loop)
qed

section \<open>The deviation\<close>

definition rate_num :: "price_reading \<Rightarrow> nat" where
  "rate_num p = unat (pr_rate_numerator p)"

definition rate_den :: "price_reading \<Rightarrow> nat" where
  "rate_den p = unat (pr_rate_denominator p)"

text \<open>\<open>a/b \<le> c/d\<close> without leaving the integers.\<close>

definition rate_le :: "price_reading \<Rightarrow> price_reading \<Rightarrow> bool" where
  "rate_le l r \<longleftrightarrow> rate_num l * rate_den r \<le> rate_num r * rate_den l"

definition reading_ok :: "price_reading \<Rightarrow> bool" where
  "reading_ok r \<longleftrightarrow> pr_rate_numerator r \<noteq> 0 \<and> pr_rate_denominator r \<noteq> 0"

lemma reading_ok_pos: "reading_ok r \<longleftrightarrow> 0 < rate_num r \<and> 0 < rate_den r"
  by (simp add: reading_ok_def rate_num_def rate_den_def unat_gt_0)


lemma unat_BPS_SCALE: "unat (ucast BPS_SCALE :: u256) = 10000"
  by (simp add: unat_ucast_le BPS_SCALE_def)

lemma deviation_bps_cases:
  fixes lo hi :: price_reading
  defines "H \<equiv> rate_num hi * rate_den lo" and "L \<equiv> rate_num lo * rate_den hi"
  defines "r \<equiv> (H - L) * 10000 div L + (if (H - L) * 10000 mod L = 0 then 0 else 1)"
  shows "deviation_bps lo hi =
     (if 2 ^ 256 \<le> H \<or> 2 ^ 256 \<le> L then Inl PriceOverflow
      else if H \<le> L then Inr 0
      else if 2 ^ 256 \<le> (H - L) * 10000 \<or> L = 0 \<or> u32_max < r then Inl PriceOverflow
      else Inr r)"
proof (cases "2 ^ 256 \<le> H \<or> 2 ^ 256 \<le> L")
  case True
  then have "checked_mul (pr_rate_numerator hi) (pr_rate_denominator lo) = None \<or>
      checked_mul (pr_rate_numerator lo) (pr_rate_denominator hi) = None"
    by (simp add: checked_mul_None_iff H_def L_def rate_num_def rate_den_def)
  with True show ?thesis
    by (cases "checked_mul (pr_rate_numerator hi) (pr_rate_denominator lo)")
      (auto simp: deviation_bps_def)
next
  case False
  define sh where "sh = pr_rate_numerator hi * pr_rate_denominator lo"
  define sl where "sl = pr_rate_numerator lo * pr_rate_denominator hi"
  have u: "unat sh = H" "unat sl = L"
    using False by (simp_all add: sh_def sl_def H_def L_def rate_num_def rate_den_def
        unat_mult_lem [THEN iffD1])
  have c: "checked_mul (pr_rate_numerator hi) (pr_rate_denominator lo) = Some sh"
    "checked_mul (pr_rate_numerator lo) (pr_rate_denominator hi) = Some sl"
    by (simp_all add: checked_mul_Some_iff u) (simp_all add: H_def L_def rate_num_def rate_den_def)
  let ?d = "saturating_sub sh sl"
  have ud: "unat ?d = H - L" by (simp add: unat_saturating_sub u)
  then have d0: "?d = 0 \<longleftrightarrow> H \<le> L" by (auto simp: word_unat_eq_iff)
  show ?thesis
  proof (cases "H \<le> L")
    case True
    with False c d0 show ?thesis by (simp add: deviation_bps_def Let_def)
  next
    case lt: False
    show ?thesis
    proof (cases "2 ^ 256 \<le> (H - L) * 10000")
      case True
      then have "checked_mul ?d (ucast BPS_SCALE) = None"
        by (simp add: checked_mul_None_iff ud unat_BPS_SCALE)
      with True False lt c d0 show ?thesis by (simp add: deviation_bps_def Let_def)
    next
      case small: False
      define n where "n = ?d * ucast BPS_SCALE"
      have un: "unat n = (H - L) * 10000"
        using small by (simp add: n_def ud unat_BPS_SCALE unat_mult_lem [THEN iffD1])
      have m: "checked_mul ?d (ucast BPS_SCALE) = Some n"
        by (simp add: checked_mul_Some_iff un ud unat_BPS_SCALE)
      show ?thesis
      proof (cases "L = 0")
        case True
        then have "sl = 0" using u by (simp add: word_unat_eq_iff)
        with True small False lt c d0 m show ?thesis
          by (simp add: deviation_bps_def Let_def checked_div_def)
      next
        case nz: False
        have n0: "n \<noteq> 0" using un lt by (auto simp: word_unat_eq_iff)
        have s0: "sl \<noteq> 0" using u nz by (auto simp: word_unat_eq_iff)
        have "0 < L" "0 < (H - L) * 10000" using nz lt by auto
        note b = nat_ceil_div_bounds [OF this]
        have "unat (of_nat r :: u256) = r"
          using b(4) small by (intro of_nat_unat_less) (simp add: r_def)
        then show ?thesis
          using c m d0 lt False small nz n0 s0
          by (simp only: deviation_bps_def Let_def ok_or_simps bind_result_simps if_False
              not_False_eq_True checked_ceil_div un u r_def [symmetric]) auto
      qed
    qed
  qed
qed

text \<open>The spread between the lowest and the highest rate is rounded up exactly:
  \<open>deviation_bps\<close> returns \<open>r\<close> just when the cross products and the scaled difference
  fit 256 bits and \<open>r\<close> is the least number of basis points with
  \<open>high \<le> low * (1 + r / 10000)\<close>, so a ceiling exceeded by a fraction of a basis point
  counts as exceeded.\<close>

theorem deviation_bps_exact:
  assumes "reading_ok lo" "reading_ok hi"
  defines "H \<equiv> rate_num hi * rate_den lo" and "L \<equiv> rate_num lo * rate_den hi"
  shows "deviation_bps lo hi = Inr r \<longleftrightarrow>
    H < 2 ^ 256 \<and> L < 2 ^ 256 \<and> (H - L) * 10000 < 2 ^ 256 \<and> r \<le> u32_max \<and>
    10000 * H \<le> (10000 + r) * L \<and> (\<forall>q. 10000 * H \<le> (10000 + q) * L \<longrightarrow> r \<le> q)"
proof -
  have L: "0 < L" using assms by (simp add: L_def reading_ok_pos)
  define c where "c = (H - L) * 10000 div L + (if (H - L) * 10000 mod L = 0 then 0 else 1)"
  have up: "10000 * H \<le> (10000 + q) * L \<longleftrightarrow> c \<le> q" for q
  proof -
    have "10000 * H \<le> (10000 + q) * L \<longleftrightarrow> (H - L) * 10000 \<le> q * L"
      by (simp add: algebra_simps) linarith
    also have "\<dots> \<longleftrightarrow> c \<le> q"
    proof (cases "H \<le> L")
      case True
      then show ?thesis by (simp add: c_def)
    next
      case False
      then have "0 < (H - L) * 10000" by simp
      note b = nat_ceil_div_bounds [OF L this, folded c_def]
      show ?thesis
      proof
        assume "(H - L) * 10000 \<le> q * L"
        with b(2) have "(c - 1) * L < q * L" by linarith
        then have "c - 1 < q" by simp
        then show "c \<le> q" using b(3) by linarith
      next
        assume "c \<le> q"
        then have "c * L \<le> q * L" by simp
        with b(1) show "(H - L) * 10000 \<le> q * L" by linarith
      qed
    qed
    finally show ?thesis .
  qed
  have le: "c = 0" if "H \<le> L" using that by (simp add: c_def)
  have "deviation_bps lo hi = Inr r \<longleftrightarrow>
      H < 2 ^ 256 \<and> L < 2 ^ 256 \<and> (H - L) * 10000 < 2 ^ 256 \<and> r \<le> u32_max \<and> r = c"
    using L le by (auto simp: deviation_bps_cases H_def [symmetric] L_def [symmetric] c_def [symmetric])
  then show ?thesis unfolding up by (auto intro: antisym)
qed

theorem deviation_bps_exact_witness:
  "10000 * 101 \<le> (10000 + 100) * unat (100 :: u256)"
proof -
  let ?r = "\<lambda>n. \<lparr> pr_source_key = [], pr_provider_group = [], pr_rate_numerator = n,
       pr_rate_denominator = 1, pr_observed_at = 0 \<rparr>"
  have "reading_ok (?r 100)" "reading_ok (?r 101)" "deviation_bps (?r 100) (?r 101) = Inr 100"
    by (simp_all add: reading_ok_def deviation_bps_cases rate_num_def rate_den_def u32_max_def)
  with deviation_bps_exact [of "?r 100" "?r 101" 100] show ?thesis
    by (simp add: rate_num_def rate_den_def)
qed

lemma deviation_bound:
  assumes "reading_ok lo" "reading_ok hi" "deviation_bps lo hi = Inr r"
  shows "10000 * (rate_num hi * rate_den lo) \<le> (10000 + r) * (rate_num lo * rate_den hi)"
proof -
  let ?H = "rate_num hi * rate_den lo" and ?L = "rate_num lo * rate_den hi"
  have L: "0 < ?L" using assms by (simp add: reading_ok_pos)
  show ?thesis
  proof (cases "?H \<le> ?L")
    case True
    then show ?thesis by (simp add: algebra_simps)
  next
    case False
    then have "0 < (?H - ?L) * 10000" by simp
    note b = nat_ceil_div_bounds(1) [OF L this]
    have "r = (?H - ?L) * 10000 div ?L + (if (?H - ?L) * 10000 mod ?L = 0 then 0 else 1)"
      using assms(3) False by (simp add: deviation_bps_cases split: if_splits)
    with b have "(?H - ?L) * 10000 \<le> r * ?L" by simp
    then show ?thesis using False by (simp add: algebra_simps)
  qed
qed

section \<open>The two loops\<close>

lemma fresh_fold:
  "foldl (fresh_step add_secs policy now) (d, f) xs =
     (d @ map (\<lambda>(i, x). (i, the (reading_verdict add_secs policy now x)))
            (filter (\<lambda>(i, x). reading_verdict add_secs policy now x \<noteq> None) xs),
      f @ filter (\<lambda>(i, x). reading_verdict add_secs policy now x = None) xs)"
  by (induction xs arbitrary: d f) (auto split: option.splits)

abbreviation group_of :: "nat \<times> price_reading \<Rightarrow> string" where
  "group_of x \<equiv> pr_provider_group (snd x)"

abbreviation time_of :: "nat \<times> price_reading \<Rightarrow> instant" where
  "time_of x \<equiv> pr_observed_at (snd x)"

text \<open>What the second loop keeps true of the readings it has seen.\<close>

definition groups_inv :: "discards \<Rightarrow> indexed \<Rightarrow> discards \<times> indexed \<Rightarrow> bool" where
  "groups_inv d0 seen st \<longleftrightarrow>
     (case st of (d, kept) \<Rightarrow>
        distinct (map group_of kept) \<and>
        set (map group_of kept) = set (map group_of seen) \<and>
        set kept \<subseteq> set seen \<and>
        (\<forall>k\<in>set kept. \<forall>s\<in>set seen. group_of s = group_of k \<longrightarrow> time_of s \<le> time_of k) \<and>
        mset (map fst kept) + mset (map fst d) = mset (map fst seen) + mset (map fst d0))"

lemma replace_first_set: "x \<in> set (replace_first P v xs) \<Longrightarrow> x = v \<or> x \<in> set xs"
  by (induction xs) (auto split: if_splits)

lemma replace_first_distinct:
  assumes "distinct (map f xs)" "\<And>x. P x \<longleftrightarrow> f x = f v" "x \<in> set (replace_first P v xs)"
  shows "x = v \<or> f x \<noteq> f v"
  using assms
proof (induction xs)
  case (Cons y ys)
  show ?case
  proof (cases "P y")
    case True
    then have "f x \<noteq> f v" if "x \<in> set ys"
      using Cons.prems(1,2) that by (metis distinct.simps(2) image_eqI list.map(2) set_map)
    with True Cons.prems(3) show ?thesis by auto
  qed (use Cons in auto)
qed simp

lemma group_step_inv:
  assumes "groups_inv d0 seen st"
  shows "groups_inv d0 (seen @ [x]) (group_step st x)"
proof -
  obtain d kept where st: "st = (d, kept)" by (cases st)
  obtain i r where x: "x = (i, r)" by (cases x)
  let ?same = "\<lambda>k. group_of k = group_of x"
  note inv = assms [unfolded groups_inv_def st prod.case]
  show ?thesis
  proof (cases "find ?same kept")
    case None
    then have n: "group_of x \<notin> set (map group_of kept)"
      using find_None_iff [of ?same kept] by force
    with inv have "\<forall>s\<in>set seen. group_of s \<noteq> group_of x"
      by (metis image_eqI set_map)
    moreover from None have "group_step st x = (d, kept @ [x])"
      by (simp add: st x)
    ultimately show ?thesis
      using inv n by (auto simp: groups_inv_def)
  next
    case (Some slot)
    then have slot: "slot \<in> set kept" "group_of slot = group_of x"
      by (auto simp: find_Some_iff)
    show ?thesis
    proof (cases "time_of x > time_of slot")
      case True
      with Some have e: "group_step st x =
          (d @ [(fst slot, PD_SupersededInGroup)], replace_first ?same x kept)"
        by (simp add: st x)
      have g: "map group_of (replace_first ?same x kept) = map group_of kept"
        by (rule map_replace_first) simp
      have m: "add_mset slot (mset (replace_first ?same x kept)) = add_mset x (mset kept)"
        by (rule mset_replace_first [OF Some])
      have "image_mset fst (add_mset slot (mset (replace_first ?same x kept))) =
          image_mset fst (add_mset x (mset kept))" by (simp only: m)
      then have mf: "add_mset (fst slot) (image_mset fst (mset (replace_first ?same x kept))) =
          add_mset (fst x) (image_mset fst (mset kept))" by simp
      have new: "time_of s \<le> time_of k"
        if "k \<in> set (replace_first ?same x kept)" "s \<in> set (seen @ [x])" "group_of s = group_of k" for k s
      proof -
        from that(1) have k: "k = x \<or> group_of k \<noteq> group_of x \<and> k \<in> set kept"
          using replace_first_distinct [of group_of kept ?same x k] replace_first_set [of k ?same x kept]
            inv by auto
        show ?thesis
        proof (cases "k = x")
          case kx: True
          have "time_of s \<le> time_of slot \<or> s = x"
            using that inv slot kx by (metis UnE empty_iff empty_set insertE list.simps(15) set_append)
          with True kx show ?thesis by auto
        next
          case False
          with k that inv show ?thesis by auto
        qed
      qed
      have "set (replace_first ?same x kept) \<subseteq> set (seen @ [x])"
        using replace_first_set [of _ ?same x kept] inv by auto
      moreover have "group_of x \<in> set (map group_of kept)" using slot by (metis image_eqI set_map)
      moreover have "mset (map fst (replace_first ?same x kept)) + mset (map fst (d @ [(fst slot, PD_SupersededInGroup)])) =
          mset (map fst (seen @ [x])) + mset (map fst d0)"
      proof -
        have "mset (map fst (replace_first ?same x kept)) + mset (map fst (d @ [(fst slot, PD_SupersededInGroup)])) =
            add_mset (fst slot) (image_mset fst (mset (replace_first ?same x kept))) + mset (map fst d)"
          by simp
        also have "\<dots> = add_mset (fst x) (mset (map fst kept) + mset (map fst d))"
          by (simp add: mf)
        also have "mset (map fst kept) + mset (map fst d) = mset (map fst seen) + mset (map fst d0)"
          using inv by blast
        finally show ?thesis by simp
      qed
      moreover have "set (map group_of kept) = set (map group_of (seen @ [x]))"
        using inv calculation(2) by auto
      moreover have "distinct (map group_of kept)" using inv by blast
      ultimately show ?thesis
        unfolding groups_inv_def e prod.case g using new by blast
    next
      case False
      with Some have e: "group_step st x = (d @ [(i, PD_SupersededInGroup)], kept)"
        by (simp add: st x)
      have "time_of x \<le> time_of k" if "k \<in> set kept" "group_of x = group_of k" for k
      proof -
        have "k = slot"
          using inv that slot by (metis distinct_map inj_onD)
        with False show ?thesis by simp
      qed
      moreover have "group_of x \<in> set (map group_of kept)" using slot by (metis image_eqI set_map)
      ultimately show ?thesis
        using inv e by (auto simp: groups_inv_def x)
    qed
  qed
qed

lemma group_fold_inv: "groups_inv d0 seen st \<Longrightarrow> groups_inv d0 (seen @ xs) (foldl group_step st xs)"
proof (induction xs arbitrary: seen st)
  case (Cons x xs)
  from Cons.IH [OF group_step_inv [OF Cons.prems, of x]] show ?case by simp
qed simp

lemma groups_inv_init: "groups_inv d [] (d, [])"
  by (simp add: groups_inv_def)


section \<open>Order and median\<close>

text \<open>No cross product of two readings overflows.\<close>

definition comparable :: "price_reading list \<Rightarrow> bool" where
  "comparable rs \<longleftrightarrow>
     (\<forall>x\<in>set rs. reading_ok x) \<and>
     (\<forall>x\<in>set rs. \<forall>y\<in>set rs. rate_num x * rate_den y < 2 ^ 256)"

lemma frac_trans:
  fixes a b c d e f k m :: nat
  assumes "a * d \<le> c * b" "k * (c * f) \<le> m * (e * d)" "0 < d"
  shows "k * (a * f) \<le> m * (e * b)"
proof -
  have "k * (a * f) * d = k * f * (a * d)" by (simp add: ac_simps)
  also have "\<dots> \<le> k * f * (c * b)" using assms(1) by (rule mult_le_mono2)
  also have "\<dots> = k * (c * f) * b" by (simp add: ac_simps)
  also have "\<dots> \<le> m * (e * d) * b" using assms(2) by (rule mult_le_mono1)
  also have "\<dots> = m * (e * b) * d" by (simp add: ac_simps)
  finally show ?thesis using assms(3) by simp
qed

lemma rate_le_trans: "reading_ok y \<Longrightarrow> rate_le x y \<Longrightarrow> rate_le y z \<Longrightarrow> rate_le x z"
  using frac_trans [of "rate_num x" "rate_den y" "rate_num y" "rate_den x" 1 "rate_den z" 1 "rate_num z"]
  by (simp add: rate_le_def reading_ok_pos ac_simps)

lemma compare_less_iff:
  assumes "rate_num l * rate_den r < 2 ^ 256" "rate_num r * rate_den l < 2 ^ 256"
  shows "compare_less l r \<longleftrightarrow> \<not> rate_le r l"
proof -
  have "checked_mul (pr_rate_numerator l) (pr_rate_denominator r) =
      Some (pr_rate_numerator l * pr_rate_denominator r)"
    "checked_mul (pr_rate_numerator r) (pr_rate_denominator l) =
      Some (pr_rate_numerator r * pr_rate_denominator l)"
    using assms by (simp_all add: checked_mul_def rate_num_def rate_den_def)
  moreover have "unat (pr_rate_numerator l * pr_rate_denominator r) = rate_num l * rate_den r"
    "unat (pr_rate_numerator r * pr_rate_denominator l) = rate_num r * rate_den l"
    using assms by (simp_all add: rate_num_def rate_den_def unat_mult_lem [THEN iffD1])
  ultimately show ?thesis
    by (auto simp: rate_le_def word_less_nat_alt)
qed

lemma sort_readings_sorted:
  assumes "comparable (map snd xs)"
  shows "sorted_wrt (\<lambda>x y. rate_le (snd x) (snd y))
           (sort_by (\<lambda>l r. compare_less (snd l) (snd r)) xs)"
proof (rule sort_by_sorted)
  show "compare_less (snd x) (snd y) \<longleftrightarrow> \<not> rate_le (snd y) (snd x)"
    if "x \<in> set xs" "y \<in> set xs" for x y
    using assms that by (intro compare_less_iff) (auto simp: comparable_def)
  show "rate_le (snd x) (snd z)"
    if "x \<in> set xs" "y \<in> set xs" "z \<in> set xs" "rate_le (snd x) (snd y)" "rate_le (snd y) (snd z)" for x y z
    using assms that rate_le_trans [of "snd y"] by (auto simp: comparable_def)
qed (auto simp: rate_le_def)

lemma median_odd:
  "length xs mod 2 = 1 \<Longrightarrow> median xs =
     Inr (pr_rate_numerator (snd (xs ! (length xs div 2))), pr_rate_denominator (snd (xs ! (length xs div 2))))"
  by (auto simp: median_def get_def Let_def)

lemma reduced_fraction:
  fixes n d :: u256
  defines "g \<equiv> greatest_common_divisor n d"
  assumes "n \<noteq> 0 \<or> d \<noteq> 0"
  shows "unat (n div g) * unat d = unat n * unat (d div g)" "coprime (unat (n div g)) (unat (d div g))"
proof -
  have g: "unat g = gcd (unat n) (unat d)"
    using assms by (auto simp: unat_greatest_common_divisor)
  then have "unat g dvd unat n" "unat g dvd unat d" by simp_all
  then show "unat (n div g) * unat d = unat n * unat (d div g)"
    by (simp add: unat_div dvd_div_mult) (metis div_mult_swap dvd_div_mult mult.commute)
  show "coprime (unat (n div g)) (unat (d div g))"
    using assms(2) by (simp add: unat_div g) (rule div_gcd_coprime, auto simp: word_unat_eq_iff)
qed

lemma median_even:
  assumes "median xs = Inr (n, d)" "length xs mod 2 = 0"
  defines "l \<equiv> snd (xs ! (length xs div 2 - 1))" and "r \<equiv> snd (xs ! (length xs div 2))"
  shows "n \<noteq> 0" "d \<noteq> 0"
    "unat n * (2 * rate_den l * rate_den r) = (rate_num l * rate_den r + rate_num r * rate_den l) * unat d"
    "coprime (unat n) (unat d)"
proof -
  from assms(1) have ne: "length xs \<noteq> 0" by (auto simp: median_def)
  then have i: "length xs div 2 < length xs" "length xs div 2 - 1 < length xs" by linarith+
  obtain lc rc nu pd de where m:
    "checked_mul (pr_rate_numerator l) (pr_rate_denominator r) = Some lc"
    "checked_mul (pr_rate_numerator r) (pr_rate_denominator l) = Some rc"
    "checked_add lc rc = Some nu"
    "checked_mul (pr_rate_denominator l) (pr_rate_denominator r) = Some pd"
    "checked_mul pd 2 = Some de"
    "n = nu div greatest_common_divisor nu de" "d = de div greatest_common_divisor nu de"
    "n \<noteq> 0" "d \<noteq> 0"
    using assms(1,2) ne i unfolding l_def r_def
    apply (simp add: median_def get_def Let_def result_simps bind_eq_Some_conv del: not_gr_zero)
    apply (elim exE conjE)
    apply (simp add: checked_div_def split: if_splits)
    done
  have nu: "unat nu = rate_num l * rate_den r + rate_num r * rate_den l"
    and de: "unat de = 2 * rate_den l * rate_den r"
    using m(1-5) by (simp_all add: checked_simps rate_num_def rate_den_def)
  show "n \<noteq> 0" "d \<noteq> 0" by fact+
  then have "nu \<noteq> 0 \<or> de \<noteq> 0" using m(6) by auto
  from reduced_fraction [OF this]
  show "unat n * (2 * rate_den l * rate_den r) = (rate_num l * rate_den r + rate_num r * rate_den l) * unat d"
    "coprime (unat n) (unat d)"
    by (simp_all only: m(6,7) nu [symmetric] de [symmetric])
qed

lemma mean_between:
  fixes n d nl dl nr dr a b :: nat
  assumes "n * (2 * dl * dr) = (nl * dr + nr * dl) * d" "0 < dl" "0 < dr"
  shows "a * dl \<le> nl * b \<Longrightarrow> a * dr \<le> nr * b \<Longrightarrow> a * d \<le> n * b"
    and "nl * b \<le> a * dl \<Longrightarrow> nr * b \<le> a * dr \<Longrightarrow> n * b \<le> a * d"
proof -
  have pos: "0 < 2 * dl * dr" using assms by simp
  have e: "n * b * (2 * dl * dr) = ((nl * b) * dr + (nr * b) * dl) * d"
    using arg_cong [OF assms(1), of "\<lambda>x. x * b"] by (simp add: algebra_simps)
  have f: "a * d * (2 * dl * dr) = ((a * dl) * dr + (a * dr) * dl) * d"
    by (simp add: algebra_simps)
  show "a * d \<le> n * b" if "a * dl \<le> nl * b" "a * dr \<le> nr * b"
  proof -
    have "a * d * (2 * dl * dr) \<le> n * b * (2 * dl * dr)"
      unfolding e f using that by (intro mult_le_mono1 add_mono) auto
    with pos show ?thesis by (metis mult_le_cancel2)
  qed
  show "n * b \<le> a * d" if "nl * b \<le> a * dl" "nr * b \<le> a * dr"
  proof -
    have "n * b * (2 * dl * dr) \<le> a * d * (2 * dl * dr)"
      unfolding e f using that by (intro mult_le_mono1 add_mono) auto
    with pos show ?thesis by (metis mult_le_cancel2)
  qed
qed

lemma median_between:
  assumes "median xs = Inr (n, d)" "\<forall>x\<in>set xs. reading_ok (snd x)"
    and "\<forall>x\<in>set xs. rate_le lo (snd x) \<and> rate_le (snd x) hi"
  shows "rate_num lo * unat d \<le> unat n * rate_den lo" "unat n * rate_den hi \<le> rate_num hi * unat d"
    "n \<noteq> 0" "d \<noteq> 0"
proof -
  from assms(1) have ne: "length xs \<noteq> 0" by (auto simp: median_def)
  then have mem: "xs ! (length xs div 2) \<in> set xs" "xs ! (length xs div 2 - 1) \<in> set xs"
    by (metis div_less_dividend length_greater_0_conv list.size(3) nth_mem one_less_numeral_iff semiring_norm(76),
        metis div_less_dividend length_greater_0_conv less_imp_diff_less list.size(3) nth_mem one_less_numeral_iff semiring_norm(76))
  note ok = assms(2) [rule_format, OF mem(1)] assms(2) [rule_format, OF mem(2)]
  note le = assms(3) [rule_format, OF mem(1)] assms(3) [rule_format, OF mem(2)]
  show "rate_num lo * unat d \<le> unat n * rate_den lo" "unat n * rate_den hi \<le> rate_num hi * unat d"
    "n \<noteq> 0" "d \<noteq> 0"
  proof (atomize(full), cases "length xs mod 2 = 1")
    case True
    from median_odd [OF True] assms(1) ok(1) le(1)
    show "(rate_num lo * unat d \<le> unat n * rate_den lo \<and> unat n * rate_den hi \<le> rate_num hi * unat d) \<and>
        n \<noteq> 0 \<and> d \<noteq> 0"
      by (auto simp: rate_le_def rate_num_def rate_den_def reading_ok_def)
  next
    case False
    then have ev: "length xs mod 2 = 0" by simp
    note m = median_even [OF assms(1) ev]
    from mean_between [OF m(3)] ok le m(1,2)
    show "(rate_num lo * unat d \<le> unat n * rate_den lo \<and> unat n * rate_den hi \<le> rate_num hi * unat d) \<and>
        n \<noteq> 0 \<and> d \<noteq> 0"
      by (simp add: rate_le_def reading_ok_pos)
  qed
qed


section \<open>What stands behind a returned rate\<close>

text \<open>A reading counts when its time is not in the future and less than
  \<open>max_age_seconds + 1\<close> whole seconds have passed since.\<close>

definition reading_fresh :: "price_policy \<Rightarrow> instant \<Rightarrow> price_reading \<Rightarrow> bool" where
  "reading_fresh policy now r \<longleftrightarrow>
     (let cutoff = pr_observed_at r + i64_sat_add (pp_max_age_seconds policy) 1 * nanos_per_sec
      in pr_observed_at r \<le> now \<and> now < cutoff \<and> instant_min \<le> cutoff \<and> cutoff \<le> instant_max)"

lemma reading_verdict_None_iff:
  "checked_time add_secs \<Longrightarrow> reading_verdict add_secs policy now r = None \<longleftrightarrow> reading_fresh policy now r"
  by (auto simp: reading_verdict_def reading_fresh_def checked_time.add_secs_eq Let_def not_less)

lemma aggregate_InrE:
  assumes "aggregate add_secs readings policy now = Inr p"
  obtains discarded fresh kept where
    "fresh = filter (\<lambda>(i, x). reading_verdict add_secs policy now x = None) (enumerate 0 readings)"
    "foldl group_step (map (\<lambda>(i, x). (i, the (reading_verdict add_secs policy now x)))
        (filter (\<lambda>(i, x). reading_verdict add_secs policy now x \<noteq> None) (enumerate 0 readings)), []) fresh
      = (discarded, kept)"
    "2 \<le> pp_min_sources policy" "pp_min_sources policy \<le> u32_try_from (length kept)"
    "kept \<noteq> []"
    "let s = sort_by (\<lambda>l r. compare_less (snd l) (snd r)) kept in
       deviation_bps (snd (hd s)) (snd (last s)) = Inr (ap_deviation_bps p) \<and>
       median s = Inr (ap_rate_numerator p, ap_rate_denominator p) \<and>
       ap_used p = map fst s"
    "ap_deviation_bps p \<le> pp_max_deviation_bps policy"
    "ap_group_count p = u32_try_from (length kept)" "ap_discarded p = discarded"
proof -
  let ?fresh = "filter (\<lambda>(i, x). reading_verdict add_secs policy now x = None) (enumerate 0 readings)"
  let ?d0 = "map (\<lambda>(i, x). (i, the (reading_verdict add_secs policy now x)))
        (filter (\<lambda>(i, x). reading_verdict add_secs policy now x \<noteq> None) (enumerate 0 readings))"
  define d0 fr where "d0 = ?d0" "fr = ?fresh"
  have f: "foldl (fresh_step add_secs policy now) ([], []) (enumerate 0 readings) = (d0, fr)"
    by (simp only: fresh_fold append_Nil d0_fr_def)
  obtain discarded kept where g: "foldl group_step (d0, []) fr = (discarded, kept)"
    by fastforce
  let ?s = "sort_by (\<lambda>l r. compare_less (snd l) (snd r)) kept"
  have m: "2 \<le> pp_min_sources policy" "pp_min_sources policy \<le> u32_try_from (length kept)"
    using assms by (auto simp: aggregate_def f g Let_def not_less split: if_splits)
  then have "0 < length kept" using u32_try_from_le [of "length kept"] by linarith
  then have ne: "kept \<noteq> []" "?s \<noteq> []" by (auto dest: arg_cong [where f = length])
  then have "get 0 ?s = Some (hd ?s)" "get (length ?s - 1) ?s = Some (last ?s)"
    by (auto simp: get_def hd_conv_nth last_conv_nth)
  then have "let s = ?s in
       deviation_bps (snd (hd s)) (snd (last s)) = Inr (ap_deviation_bps p) \<and>
       median s = Inr (ap_rate_numerator p, ap_rate_denominator p) \<and>
       ap_used p = map fst s"
    "ap_deviation_bps p \<le> pp_max_deviation_bps policy"
    "ap_group_count p = u32_try_from (length kept)" "ap_discarded p = discarded"
    using assms m
    by (auto simp: aggregate_def f g Let_def result_simps not_less split: if_splits)
  with g [unfolded d0_fr_def] m ne(1) that show thesis by blast
qed

text \<open>What the kept readings are, in terms of the submitted ones.\<close>

lemma aggregate_groups:
  assumes "checked_time add_secs" "aggregate add_secs readings policy now = Inr p"
  obtains s where
    "ap_used p = map fst s" "\<forall>(i, r)\<in>set s. i < length readings \<and> r = readings ! i"
    "deviation_bps (snd (hd s)) (snd (last s)) = Inr (ap_deviation_bps p)" "s \<noteq> []"
    "median s = Inr (ap_rate_numerator p, ap_rate_denominator p)"
    "comparable (map snd s) \<longrightarrow> sorted_wrt (\<lambda>x y. rate_le (snd x) (snd y)) s"
    "distinct (map group_of s)"
    "\<forall>k\<in>set s. reading_fresh policy now (snd k)"
    "\<forall>k\<in>set s. \<forall>j<length readings. reading_fresh policy now (readings ! j) \<longrightarrow>
       pr_provider_group (readings ! j) = group_of k \<longrightarrow> pr_observed_at (readings ! j) \<le> time_of k"
    "\<forall>j<length readings. reading_fresh policy now (readings ! j) \<longrightarrow>
       pr_provider_group (readings ! j) \<in> set (map group_of s)"
    "mset (ap_used p @ map fst (ap_discarded p)) = mset [0..<length readings]"
    "pp_min_sources policy \<le> length s" "ap_group_count p = u32_try_from (length s)"
    "2 \<le> pp_min_sources policy" "ap_deviation_bps p \<le> pp_max_deviation_bps policy"
proof -
  obtain discarded fresh kept where a:
    "fresh = filter (\<lambda>(i, x). reading_verdict add_secs policy now x = None) (enumerate 0 readings)"
    "foldl group_step (map (\<lambda>(i, x). (i, the (reading_verdict add_secs policy now x)))
        (filter (\<lambda>(i, x). reading_verdict add_secs policy now x \<noteq> None) (enumerate 0 readings)), []) fresh
      = (discarded, kept)"
    "2 \<le> pp_min_sources policy" "pp_min_sources policy \<le> u32_try_from (length kept)"
    "kept \<noteq> []"
    "let s = sort_by (\<lambda>l r. compare_less (snd l) (snd r)) kept in
       deviation_bps (snd (hd s)) (snd (last s)) = Inr (ap_deviation_bps p) \<and>
       median s = Inr (ap_rate_numerator p, ap_rate_denominator p) \<and>
       ap_used p = map fst s"
    "ap_deviation_bps p \<le> pp_max_deviation_bps policy"
    "ap_group_count p = u32_try_from (length kept)" "ap_discarded p = discarded"
    by (rule aggregate_InrE [OF assms(2)])
  define s where "s = sort_by (\<lambda>l r. compare_less (snd l) (snd r)) kept"
  let ?d0 = "map (\<lambda>(i, x). (i, the (reading_verdict add_secs policy now x)))
        (filter (\<lambda>(i, x). reading_verdict add_secs policy now x \<noteq> None) (enumerate 0 readings))"
  have "groups_inv ?d0 fresh (discarded, kept)"
    using group_fold_inv [OF groups_inv_init, of ?d0 fresh] a(2) by simp
  note inv = this [unfolded groups_inv_def prod.case]
  have fr: "(i, r) \<in> set fresh \<longleftrightarrow> i < length readings \<and> r = readings ! i \<and> reading_fresh policy now r" for i r
    using reading_verdict_None_iff [OF assms(1)] by (auto simp: a(1) in_set_enumerate_eq)
  have ms: "mset s = mset kept" by (simp add: s_def)
  have ss: "set s = set kept" by (simp add: s_def)
  have "image_mset fst (filter_mset (\<lambda>(i, x). reading_verdict add_secs policy now x = None) (mset (enumerate 0 readings))) +
      image_mset fst (filter_mset (\<lambda>(i, x). reading_verdict add_secs policy now x \<noteq> None) (mset (enumerate 0 readings)))
      = image_mset fst (mset (enumerate 0 readings))"
    by (subst image_mset_union [symmetric])
      (metis (mono_tags, lifting) case_prod_unfold filter_mset_cong multiset_partition)
  also have "\<dots> = mset [0..<length readings]"
    by (metis add_0 map_fst_enumerate mset_map)
  finally have part: "mset (map fst fresh) + mset (map fst ?d0) = mset [0..<length readings]"
    by (simp add: a(1) case_prod_unfold comp_def)
  show thesis
  proof (rule that [of s])
    show "s \<noteq> []" using a(5) ss by auto
    show "comparable (map snd s) \<longrightarrow> sorted_wrt (\<lambda>x y. rate_le (snd x) (snd y)) s"
      using sort_readings_sorted [of kept] ss by (simp add: s_def comparable_def)
    show "distinct (map group_of s)"
      using inv ms by (metis mset_eq_imp_distinct_iff mset_map)
    show "mset (ap_used p @ map fst (ap_discarded p)) = mset [0..<length readings]"
      using a(6,9) inv part ms by (simp add: s_def [symmetric] Let_def)
    show "pp_min_sources policy \<le> length s"
      using a(4) u32_try_from_le [of "length kept"] by (simp add: s_def)
    show "\<forall>j<length readings. reading_fresh policy now (readings ! j) \<longrightarrow>
        pr_provider_group (readings ! j) \<in> set (map group_of s)"
    proof (intro allI impI)
      fix j assume "j < length readings" "reading_fresh policy now (readings ! j)"
      then have "(j, readings ! j) \<in> set fresh" by (simp add: fr)
      then have "pr_provider_group (readings ! j) \<in> set (map group_of fresh)" by force
      with inv ss show "pr_provider_group (readings ! j) \<in> set (map group_of s)" by simp
    qed
    show "\<forall>k\<in>set s. \<forall>j<length readings. reading_fresh policy now (readings ! j) \<longrightarrow>
        pr_provider_group (readings ! j) = group_of k \<longrightarrow> pr_observed_at (readings ! j) \<le> time_of k"
      using inv ss fr by (metis snd_conv)
    show "\<forall>k\<in>set s. reading_fresh policy now (snd k)"
      using inv ss fr by (metis prod.collapse subsetD)
    show "\<forall>(i, r)\<in>set s. i < length readings \<and> r = readings ! i"
      using inv ss fr by blast
  qed (use a in \<open>auto simp: s_def Let_def\<close>)
qed

text \<open>C25: A returned rate rests on independent and fresh evidence. When \<open>aggregate\<close>
  succeeds, the policy asked for at least two sources and at least that many indices are
  used; the used readings are fresh, belong to pairwise different provider groups, are
  each the newest fresh reading of their group, and every group with a fresh reading is
  among them; every submitted reading is used or discarded exactly once; and the
  reported spread is within the policy's ceiling.\<close>

theorem aggregate_sound:
  assumes "checked_time add_secs" "aggregate add_secs readings policy now = Inr p"
  shows "2 \<le> pp_min_sources policy \<and> pp_min_sources policy \<le> length (ap_used p) \<and>
    (\<forall>i\<in>set (ap_used p). i < length readings \<and> reading_fresh policy now (readings ! i)) \<and>
    distinct (map (\<lambda>i. pr_provider_group (readings ! i)) (ap_used p)) \<and>
    (\<forall>j<length readings. reading_fresh policy now (readings ! j) \<longrightarrow>
       (\<exists>i\<in>set (ap_used p). pr_provider_group (readings ! i) = pr_provider_group (readings ! j) \<and>
          pr_observed_at (readings ! j) \<le> pr_observed_at (readings ! i))) \<and>
    mset (ap_used p @ map fst (ap_discarded p)) = mset [0..<length readings] \<and>
    ap_deviation_bps p \<le> pp_max_deviation_bps policy"
proof -
  obtain s where s: "ap_used p = map fst s" "\<forall>(i, r)\<in>set s. i < length readings \<and> r = readings ! i"
    "distinct (map group_of s)"
    "\<forall>k\<in>set s. reading_fresh policy now (snd k)"
    "\<forall>k\<in>set s. \<forall>j<length readings. reading_fresh policy now (readings ! j) \<longrightarrow>
       pr_provider_group (readings ! j) = group_of k \<longrightarrow> pr_observed_at (readings ! j) \<le> time_of k"
    "\<forall>j<length readings. reading_fresh policy now (readings ! j) \<longrightarrow>
       pr_provider_group (readings ! j) \<in> set (map group_of s)"
    "mset (ap_used p @ map fst (ap_discarded p)) = mset [0..<length readings]"
    "pp_min_sources policy \<le> length s"
    "2 \<le> pp_min_sources policy" "ap_deviation_bps p \<le> pp_max_deviation_bps policy"
    by (rule aggregate_groups [OF assms])
  have at: "snd k = readings ! fst k" "fst k < length readings" if "k \<in> set s" for k
    using s(2) that by auto
  have "map (\<lambda>i. pr_provider_group (readings ! i)) (ap_used p) = map group_of s"
    using at by (simp add: s(1))
  with s(3) have "distinct (map (\<lambda>i. pr_provider_group (readings ! i)) (ap_used p))"
    by (simp only:)
  moreover have "\<forall>i\<in>set (ap_used p). i < length readings \<and> reading_fresh policy now (readings ! i)"
    using s(1,4) at by auto
  moreover have "pp_min_sources policy \<le> length (ap_used p)" using s(1,8) by simp
  moreover have "\<exists>i\<in>set (ap_used p). pr_provider_group (readings ! i) = pr_provider_group (readings ! j) \<and>
          pr_observed_at (readings ! j) \<le> pr_observed_at (readings ! i)"
    if "j < length readings" "reading_fresh policy now (readings ! j)" for j
  proof -
    from s(6) that obtain k where k: "k \<in> set s" "pr_provider_group (readings ! j) = group_of k" by auto
    with s(5) that have "pr_observed_at (readings ! j) \<le> time_of k" by blast
    with k at [OF k(1)] show ?thesis by (auto simp: s(1))
  qed
  ultimately show ?thesis using s(7,9,10) by blast
qed


definition sample_reading :: "string \<Rightarrow> u256 \<Rightarrow> u256 \<Rightarrow> price_reading" where
  "sample_reading g n d =
     \<lparr> pr_source_key = g, pr_provider_group = g, pr_rate_numerator = n,
       pr_rate_denominator = d, pr_observed_at = 0 \<rparr>"

definition sample_policy :: price_policy where
  "sample_policy = \<lparr> pp_min_sources = 2, pp_max_age_seconds = 60, pp_max_deviation_bps = 200 \<rparr>"

definition sample_readings :: "price_reading list" where
  "sample_readings =
     [sample_reading ''a'' 101 1, sample_reading ''b'' 100 1, sample_reading ''c'' 102 1]"

lemma sample_aggregate:
  "aggregate ref_add_secs sample_readings sample_policy 5 =
     Inr \<lparr> ap_rate_numerator = 101, ap_rate_denominator = 1, ap_group_count = 3,
           ap_deviation_bps = 200, ap_used = [1, 0, 2], ap_discarded = [] \<rparr>"
  by (simp add: aggregate_def sample_readings_def sample_reading_def sample_policy_def reading_verdict_def
      ref_add_secs_def i64_sat_add_def i64_sat_def i64_min_def i64_max_def nanos_per_sec_def
      instant_min_def instant_max_def u32_try_from_def u32_max_def sort_by_def checked_mul_def
      word_less_nat_alt get_def deviation_bps_cases rate_num_def rate_den_def median_def)

theorem aggregate_sound_witness:
  "reading_fresh sample_policy 5 (sample_readings ! 0) \<and> reading_fresh sample_policy 5 (sample_readings ! 1) \<and>
   mset [1, 0, 2 :: nat] = mset [0..<length sample_readings]"
  using aggregate_sound [OF ref_time.checked_time_axioms sample_aggregate] by simp

text \<open>C26: The divergence check bounds every used rate, provided no cross product of two
  used readings overflows 256 bits: any two used rates \<open>x\<close> and \<open>y\<close> satisfy
  \<open>y \<le> x * (1 + deviation_bps / 10000)\<close>, and the returned rate is positive and lies
  within the spread of the used rates, hence within \<open>deviation_bps\<close> of each.\<close>

theorem aggregate_rate_bound:
  assumes "checked_time add_secs" "aggregate add_secs readings policy now = Inr p"
    and "comparable (map (\<lambda>i. readings ! i) (ap_used p))"
    and "i \<in> set (ap_used p)" "j \<in> set (ap_used p)"
  defines "x \<equiv> readings ! i" and "y \<equiv> readings ! j"
  shows "10000 * (rate_num y * rate_den x) \<le> (10000 + ap_deviation_bps p) * (rate_num x * rate_den y) \<and>
    10000 * (unat (ap_rate_numerator p) * rate_den x) \<le>
      (10000 + ap_deviation_bps p) * (rate_num x * unat (ap_rate_denominator p)) \<and>
    10000 * (rate_num x * unat (ap_rate_denominator p)) \<le>
      (10000 + ap_deviation_bps p) * (unat (ap_rate_numerator p) * rate_den x) \<and>
    ap_rate_numerator p \<noteq> 0 \<and> ap_rate_denominator p \<noteq> 0"
proof -
  obtain s where s: "ap_used p = map fst s" "\<forall>(i, r)\<in>set s. i < length readings \<and> r = readings ! i"
    "deviation_bps (snd (hd s)) (snd (last s)) = Inr (ap_deviation_bps p)" "s \<noteq> []"
    "median s = Inr (ap_rate_numerator p, ap_rate_denominator p)"
    "comparable (map snd s) \<longrightarrow> sorted_wrt (\<lambda>x y. rate_le (snd x) (snd y)) s"
    by (rule aggregate_groups [OF assms(1,2)])
  have at: "snd k = readings ! fst k" if "k \<in> set s" for k
    using s(2) that by auto
  have "map (\<lambda>i. readings ! i) (ap_used p) = map snd s" using at by (simp add: s(1))
  with assms(3) have cmp: "comparable (map snd s)" by simp
  with s(6) have srt: "sorted_wrt (\<lambda>x y. rate_le (snd x) (snd y)) s" by simp
  define lo hi where "lo = snd (hd s)" "hi = snd (last s)"
  have ok: "reading_ok (snd k)" if "k \<in> set s" for k using cmp that by (simp add: comparable_def)
  have ends: "rate_le lo (snd k) \<and> rate_le (snd k) hi" if "k \<in> set s" for k
    using sorted_wrt_ends [OF srt that] by (simp add: lo_hi_def rate_le_def)
  have okl: "reading_ok lo" "reading_ok hi" using ok s(4) by (simp_all add: lo_hi_def)
  have spread: "10000 * (rate_num hi * rate_den lo) \<le> (10000 + ap_deviation_bps p) * (rate_num lo * rate_den hi)"
    using s(3) okl deviation_bound [of lo hi] by (simp add: lo_hi_def)
  from assms(4) obtain kx where kx: "kx \<in> set s" "x = snd kx" using at by (auto simp: s(1) x_def)
  from assms(5) obtain ky where ky: "ky \<in> set s" "y = snd ky" using at by (auto simp: s(1) y_def)
  have up: "10000 * (a * rate_den lo) \<le> (10000 + ap_deviation_bps p) * (rate_num lo * b)"
    if "a * rate_den hi \<le> rate_num hi * b" for a b
    using frac_trans [OF that spread] okl by (simp add: reading_ok_pos)
  have wide: "10000 * (a * d) \<le> (10000 + ap_deviation_bps p) * (c * b)"
    if "a * rate_den hi \<le> rate_num hi * b" "rate_num lo * d \<le> c * rate_den lo" for a b c d
  proof -
    have "(10000 + ap_deviation_bps p) * (rate_num lo * d) \<le> (10000 + ap_deviation_bps p) * (c * rate_den lo)"
      using that(2) by (rule mult_le_mono2)
    from up [OF that(1)] have u: "10000 * a * rate_den lo \<le> (10000 + ap_deviation_bps p) * b * rate_num lo"
      by (simp add: ac_simps)
    have "10000 * (a * d) * rate_den lo = 10000 * a * rate_den lo * d" by (simp add: ac_simps)
    also have "\<dots> \<le> (10000 + ap_deviation_bps p) * b * rate_num lo * d" using u by (rule mult_le_mono1)
    also have "\<dots> = (10000 + ap_deviation_bps p) * b * (rate_num lo * d)" by (simp add: ac_simps)
    also have "\<dots> \<le> (10000 + ap_deviation_bps p) * b * (c * rate_den lo)" using that(2) by (rule mult_le_mono2)
    also have "\<dots> = (10000 + ap_deviation_bps p) * (c * b) * rate_den lo" by (simp add: ac_simps)
    finally show ?thesis using okl by (simp add: reading_ok_pos)
  qed
  note med = median_between [OF s(5), of lo hi]
  have m: "rate_num lo * unat (ap_rate_denominator p) \<le> unat (ap_rate_numerator p) * rate_den lo"
    "unat (ap_rate_numerator p) * rate_den hi \<le> rate_num hi * unat (ap_rate_denominator p)"
    "ap_rate_numerator p \<noteq> 0" "ap_rate_denominator p \<noteq> 0"
    using med ok ends by blast+
  have ex: "rate_num lo * rate_den x \<le> rate_num x * rate_den lo" "rate_num x * rate_den hi \<le> rate_num hi * rate_den x"
    using ends [OF kx(1)] by (simp_all add: kx(2) rate_le_def)
  have ey: "rate_num y * rate_den hi \<le> rate_num hi * rate_den y"
    using ends [OF ky(1)] by (simp add: ky(2) rate_le_def)
  show ?thesis
    using wide [OF ey ex(1)] wide [OF m(2) ex(1)] wide [OF ex(2) m(1)] m(3,4) by blast
qed

theorem aggregate_rate_bound_witness:
  "10000 * (unat (101 :: u256) * 1) \<le> (10000 + 200) * (unat (100 :: u256) * 1)"
proof -
  have "comparable (map (\<lambda>i. sample_readings ! i) [1, 0, 2])"
    by (simp add: comparable_def reading_ok_def rate_num_def rate_den_def sample_reading_def sample_readings_def)
  with aggregate_rate_bound [OF ref_time.checked_time_axioms sample_aggregate, of 1 0]
  show ?thesis by (simp add: rate_num_def rate_den_def sample_reading_def sample_readings_def)
qed


end
