(* ===== verification/Chain.thy ===== *)
theory Chain
  imports Money
begin

text \<open>
  Chain identities of \<open>crates/gateway-domain/src/chain.rs\<close>: address keys, transaction
  hashes, memos, the enumerations stored as text, one source's reading of a transfer
  and its semantic hash, and the lifecycle of a canonical transfer.

  SHA-256 is a library outside the repository: \<open>semantic_hash\<close> takes it as a
  parameter. The lemmas show that the hashed bytes determine every field that is part
  of the claim, that the stored text of an enumeration reads back, that a transfer
  never moves backwards, and how far the normalisation of a transaction hash is stable.
\<close>

section \<open>Bytes\<close>

definition str_bytes :: "string \<Rightarrow> byte list" where
  "str_bytes s = map (\<lambda>c. of_nat (of_char c)) s"

text \<open>\<open>to_be_bytes\<close> of an integer of \<open>8 * n\<close> bits.\<close>

definition be_bytes :: "nat \<Rightarrow> 'w::len word \<Rightarrow> byte list" where
  "be_bytes n w = map (\<lambda>i. ucast (drop_bit (8 * i) w)) (rev [0..<n])"

definition hex_digit :: "byte \<Rightarrow> char" where
  "hex_digit nibble =
     (let n = unat (and nibble 15)
      in if n < 10 then char_of (48 + n) else char_of (87 + n))"

section \<open>Data\<close>

definition MAX_ADDRESS_KEY_BYTES :: nat where "MAX_ADDRESS_KEY_BYTES = 64"
definition MAX_TX_HASH_CHARS :: nat where "MAX_TX_HASH_CHARS = 200"
definition MAX_MEMO_CHARS :: nat where "MAX_MEMO_CHARS = 200"

datatype chain_error =
    InvalidAddressKey
  | InvalidTxHash
  | InvalidMemo
  | UnknownChainEnvironment string
  | UnknownObservationKind string
  | UnknownExecutionStatus string
  | UnknownSourceFinality string
  | UnknownTransferState string

datatype chain_environment = Testnet | Mainnet

definition chain_environment_as_str :: "chain_environment \<Rightarrow> string" where
  "chain_environment_as_str e = (case e of Testnet \<Rightarrow> ''testnet'' | Mainnet \<Rightarrow> ''mainnet'')"

definition chain_environment_from_str :: "string \<Rightarrow> chain_error + chain_environment" where
  "chain_environment_from_str value =
     (if value = ''testnet'' then Inr Testnet
      else if value = ''mainnet'' then Inr Mainnet
      else Inl (UnknownChainEnvironment value))"

datatype address_key = AddressKey (address_bytes: "byte list")

definition address_key_new :: "byte list \<Rightarrow> chain_error + address_key" where
  "address_key_new bytes =
     (if bytes = [] \<or> length bytes > MAX_ADDRESS_KEY_BYTES then Inl InvalidAddressKey
      else Inr (AddressKey bytes))"

definition bytes_to_hex :: "byte list \<Rightarrow> string" where
  "bytes_to_hex bytes =
     concat (map (\<lambda>byte. [hex_digit (drop_bit 4 byte), hex_digit (and byte 15)]) bytes)"

definition address_to_hex :: "address_key \<Rightarrow> string" where
  "address_to_hex a = bytes_to_hex (address_bytes a)"

datatype tx_hash = TxHash (tx_hash_as_str: string)

definition tx_hash_new :: "string \<Rightarrow> chain_error + tx_hash" where
  "tx_hash_new value =
     (let trimmed = str_trim value;
          trimmed = (case strip_prefix ''0x'' trimmed of Some rest \<Rightarrow> rest | None \<Rightarrow> trimmed);
          normalized = to_ascii_lowercase trimmed;
          valid = (normalized \<noteq> [] \<and> length normalized \<le> MAX_TX_HASH_CHARS \<and>
            list_all (\<lambda>byte. is_ascii_alphanumeric byte \<or> byte = CHR ''-'' \<or> byte = CHR ''_'') normalized)
      in if \<not> valid then Inl InvalidTxHash else Inr (TxHash normalized))"

datatype memo = Memo (memo_as_str: string)

definition memo_new :: "string \<Rightarrow> chain_error + memo" where
  "memo_new value =
     (let trimmed = str_trim value
      in if trimmed = [] \<or> char_count trimmed > MAX_MEMO_CHARS then Inl InvalidMemo
         else Inr (Memo trimmed))"

datatype observation_kind = FastDetect | CursorScan | TargetedLookup

definition observation_kind_as_str :: "observation_kind \<Rightarrow> string" where
  "observation_kind_as_str k =
     (case k of FastDetect \<Rightarrow> ''fast_detect'' | CursorScan \<Rightarrow> ''cursor_scan''
      | TargetedLookup \<Rightarrow> ''targeted_lookup'')"

definition observation_kind_from_str :: "string \<Rightarrow> chain_error + observation_kind" where
  "observation_kind_from_str value =
     (if value = ''fast_detect'' then Inr FastDetect
      else if value = ''cursor_scan'' then Inr CursorScan
      else if value = ''targeted_lookup'' then Inr TargetedLookup
      else Inl (UnknownObservationKind value))"

datatype execution_status = ES_Success | ES_Failed

definition execution_status_as_str :: "execution_status \<Rightarrow> string" where
  "execution_status_as_str s = (case s of ES_Success \<Rightarrow> ''success'' | ES_Failed \<Rightarrow> ''failed'')"

definition execution_status_from_str :: "string \<Rightarrow> chain_error + execution_status" where
  "execution_status_from_str value =
     (if value = ''success'' then Inr ES_Success
      else if value = ''failed'' then Inr ES_Failed
      else Inl (UnknownExecutionStatus value))"

datatype source_finality = SF_Seen | SF_Confirmed | SF_Finalized

definition source_finality_as_str :: "source_finality \<Rightarrow> string" where
  "source_finality_as_str f =
     (case f of SF_Seen \<Rightarrow> ''seen'' | SF_Confirmed \<Rightarrow> ''confirmed'' | SF_Finalized \<Rightarrow> ''finalized'')"

definition source_finality_from_str :: "string \<Rightarrow> chain_error + source_finality" where
  "source_finality_from_str value =
     (if value = ''seen'' then Inr SF_Seen
      else if value = ''confirmed'' then Inr SF_Confirmed
      else if value = ''finalized'' then Inr SF_Finalized
      else Inl (UnknownSourceFinality value))"

text \<open>The derived order of \<open>SourceFinality\<close>.\<close>

instantiation source_finality :: linorder
begin

fun finality_rank :: "source_finality \<Rightarrow> nat" where
  "finality_rank SF_Seen = 0"
| "finality_rank SF_Confirmed = 1"
| "finality_rank SF_Finalized = 2"

definition less_eq_source_finality :: "source_finality \<Rightarrow> source_finality \<Rightarrow> bool" where
  "less_eq_source_finality a b \<longleftrightarrow> finality_rank a \<le> finality_rank b"

definition less_source_finality :: "source_finality \<Rightarrow> source_finality \<Rightarrow> bool" where
  "less_source_finality a b \<longleftrightarrow> finality_rank a < finality_rank b"

instance
proof
  fix a b c :: source_finality
  show "a < b \<longleftrightarrow> a \<le> b \<and> \<not> b \<le> a" "a \<le> a" "a \<le> b \<or> b \<le> a"
    by (auto simp: less_eq_source_finality_def less_source_finality_def)
  show "a \<le> b \<Longrightarrow> b \<le> c \<Longrightarrow> a \<le> c"
    by (simp add: less_eq_source_finality_def)
  show "a \<le> b \<Longrightarrow> b \<le> a \<Longrightarrow> a = b"
    by (cases a; cases b) (simp_all add: less_eq_source_finality_def)
qed

end

record observed_transfer =
  ot_chain :: string
  ot_network :: string
  ot_chain_environment :: chain_environment
  ot_tx_hash :: tx_hash
  ot_event_index :: "32 word"
  ot_block_number :: "int option"
  ot_block_hash :: "string option"
  ot_parent_hash :: "string option"
  ot_block_time :: "instant option"
  ot_token_key :: address_key
  ot_token_display :: string
  ot_from_address :: address_key
  ot_from_address_text :: string
  ot_to_address :: address_key
  ot_to_address_text :: string
  ot_amount_raw :: raw_amount
  ot_decimals :: int
  ot_memo :: "memo option"
  ot_execution_status :: execution_status
  ot_source_finality :: source_finality
  ot_source_head :: "int option"
  ot_evidence_sha256 :: string
  ot_evidence_uri :: "string option"

section \<open>The semantic hash\<close>

definition hash_field :: "byte list \<Rightarrow> byte list" where
  "hash_field bytes = be_bytes 4 (of_nat (u32_try_from (length bytes)) :: 32 word) @ bytes"

definition semantic_fields ::
  "(u256 \<Rightarrow> string) \<Rightarrow> observed_transfer \<Rightarrow> uuid \<Rightarrow> observation_kind \<Rightarrow> byte list list" where
  "semantic_fields display_u256 t source_id kind =
     [be_bytes 16 source_id,
      str_bytes (ot_chain t),
      str_bytes (ot_network t),
      str_bytes (chain_environment_as_str (ot_chain_environment t)),
      str_bytes (observation_kind_as_str kind),
      str_bytes (tx_hash_as_str (ot_tx_hash t)),
      be_bytes 4 (ot_event_index t),
      str_bytes (case ot_block_hash t of Some h \<Rightarrow> h | None \<Rightarrow> ''''),
      str_bytes (execution_status_as_str (ot_execution_status t)),
      str_bytes (source_finality_as_str (ot_source_finality t)),
      address_bytes (ot_token_key t),
      address_bytes (ot_to_address t),
      str_bytes (display_u256 (ot_amount_raw t)),
      str_bytes (case ot_memo t of Some m \<Rightarrow> memo_as_str m | None \<Rightarrow> '''')] @
     (if kind = TargetedLookup
      then [be_bytes 8 (word_of_int (case ot_source_head t of Some h \<Rightarrow> h | None \<Rightarrow> - 1) :: 64 word)]
      else [])"

definition semantic_hash ::
  "(byte list \<Rightarrow> byte list) \<Rightarrow> (u256 \<Rightarrow> string) \<Rightarrow> observed_transfer \<Rightarrow> uuid \<Rightarrow> observation_kind
     \<Rightarrow> byte list" where
  "semantic_hash sha256 display_u256 t source_id kind =
     sha256 (concat (map hash_field (semantic_fields display_u256 t source_id kind)))"

section \<open>The lifecycle of a canonical transfer\<close>

datatype transfer_state = TS_Observed | TS_Canonical | TS_Confirmed | TS_Finalized | TS_Invalidated

definition transfer_state_as_str :: "transfer_state \<Rightarrow> string" where
  "transfer_state_as_str s =
     (case s of TS_Observed \<Rightarrow> ''observed'' | TS_Canonical \<Rightarrow> ''canonical''
      | TS_Confirmed \<Rightarrow> ''confirmed'' | TS_Finalized \<Rightarrow> ''finalized''
      | TS_Invalidated \<Rightarrow> ''invalidated'')"

definition transfer_state_from_str :: "string \<Rightarrow> chain_error + transfer_state" where
  "transfer_state_from_str value =
     (if value = ''observed'' then Inr TS_Observed
      else if value = ''canonical'' then Inr TS_Canonical
      else if value = ''confirmed'' then Inr TS_Confirmed
      else if value = ''finalized'' then Inr TS_Finalized
      else if value = ''invalidated'' then Inr TS_Invalidated
      else Inl (UnknownTransferState value))"

fun can_transition_to :: "transfer_state \<Rightarrow> transfer_state \<Rightarrow> bool" where
  "can_transition_to TS_Observed next = (next = TS_Canonical \<or> next = TS_Invalidated)"
| "can_transition_to TS_Canonical next = (next = TS_Confirmed \<or> next = TS_Invalidated)"
| "can_transition_to TS_Confirmed next = (next = TS_Finalized \<or> next = TS_Invalidated)"
| "can_transition_to TS_Finalized next = (next = TS_Invalidated)"
| "can_transition_to TS_Invalidated next = False"

section \<open>Lemmas\<close>

lemma str_bytes_inj: "str_bytes s = str_bytes t \<longleftrightarrow> s = t"
proof -
  have "inj (\<lambda>c :: char. of_nat (of_char c) :: byte)"
  proof (rule injI)
    fix c d :: char
    assume "(of_nat (of_char c) :: byte) = of_nat (of_char d)"
    moreover have "(of_char x :: nat) < 2 ^ 8" for x :: char
      using of_char_of [of "of_char x :: nat"] by simp
    ultimately have "(of_char c :: nat) = of_char d"
      by (simp add: word_unat_eq_iff unsigned_of_nat take_bit_nat_eq_self)
    then show "c = d" by simp
  qed
  then show ?thesis by (simp add: str_bytes_def inj_map_eq_map)
qed

lemma length_str_bytes [simp]: "length (str_bytes s) = length s"
  by (simp add: str_bytes_def)

lemma length_be_bytes [simp]: "length (be_bytes n w) = n"
  by (simp add: be_bytes_def)

lemma be_bytes_inj:
  fixes v w :: "'w::len word"
  assumes "be_bytes n v = be_bytes n w" "LENGTH('w) \<le> 8 * n"
  shows "v = w"
proof (rule bit_eqI)
  fix k assume k: "possible_bit TYPE('w word) k"
  then have kl: "k < LENGTH('w)" by simp
  let ?i = "k div 8"
  have i: "?i < n" using assms(2) kl by linarith
  have "(ucast (drop_bit (8 * ?i) v) :: byte) = ucast (drop_bit (8 * ?i) w)"
    using assms(1) i by (auto simp: be_bytes_def map_eq_conv)
  then have "bit (ucast (drop_bit (8 * ?i) v) :: byte) (k mod 8) =
      bit (ucast (drop_bit (8 * ?i) w) :: byte) (k mod 8)" by simp
  then show "bit v k = bit w k"
    by (simp add: bit_simps)
qed

lemma hex_digit_inj:
  assumes "hex_digit a = hex_digit b"
  shows "and a 15 = and b 15"
proof -
  have lt: "unat (and x 15) < 16" for x :: byte
  proof -
    have "and x 15 = take_bit 4 x" by (simp add: take_bit_eq_mask mask_eq_exp_minus_1)
    then show ?thesis by (simp add: unsigned_take_bit_eq take_bit_nat_less_exp [of 4, simplified])
  qed
  have of: "(of_char (hex_digit x) :: nat) =
      (if unat (and x 15) < 10 then 48 + unat (and x 15) else 87 + unat (and x 15))" for x
    using lt [of x] by (simp add: hex_digit_def Let_def)
  have "unat (and a 15) = unat (and b 15)"
    using assms of [of a] of [of b] by (auto split: if_splits)
  then show ?thesis by (simp add: word_unat_eq_iff)
qed

lemma nibbles_inj:
  fixes a b :: byte
  assumes "and (drop_bit 4 a) 15 = and (drop_bit 4 b) 15" "and a 15 = and b 15"
  shows "a = b"
proof (rule bit_eqI)
  fix n assume "possible_bit TYPE(8 word) n"
  then have n: "n < 8" by simp
  have m: "and x 15 = take_bit 4 x" for x :: byte
    by (simp add: take_bit_eq_mask mask_eq_exp_minus_1)
  show "bit a n = bit b n"
  proof (cases "n < 4")
    case True
    have "bit (take_bit 4 a) n = bit (take_bit 4 b) n" using assms(2) by (simp only: m)
    with True show ?thesis by (simp add: bit_take_bit_iff)
  next
    case False
    have "bit (take_bit 4 (drop_bit 4 a)) (n - 4) = bit (take_bit 4 (drop_bit 4 b)) (n - 4)"
      using assms(1) by (simp only: m)
    moreover have "n - 4 < 4" "n = 4 + (n - 4)" using False n by linarith+
    ultimately show ?thesis by (simp add: bit_take_bit_iff bit_drop_bit_eq)
  qed
qed

lemma bytes_to_hex_inj: "bytes_to_hex xs = bytes_to_hex ys \<longleftrightarrow> xs = ys"
proof (induction xs arbitrary: ys)
  case Nil
  then show ?case by (cases ys) (auto simp: bytes_to_hex_def)
next
  case (Cons x xs)
  show ?case
  proof (cases ys)
    case (Cons y ys')
    have "hex_digit (drop_bit 4 x) = hex_digit (drop_bit 4 y) \<and> hex_digit (and x 15) = hex_digit (and y 15) \<longleftrightarrow> x = y"
      using hex_digit_inj [of "drop_bit 4 x" "drop_bit 4 y"] hex_digit_inj [of "and x 15" "and y 15"]
        nibbles_inj [of x y] by (auto simp: and.assoc)
    with Cons.IH [of ys'] show ?thesis
      by (auto simp: Cons bytes_to_hex_def)
  qed (simp add: bytes_to_hex_def)
qed

lemma length_bytes_to_hex [simp]: "length (bytes_to_hex xs) = 2 * length xs"
  by (induction xs) (simp_all add: bytes_to_hex_def)

text \<open>Fields framed by a fixed-width prefix that determines their length determine the list.\<close>

lemma framed_inj:
  assumes k: "\<And>b. length (pre b) = k" "0 < k"
    and pre: "\<And>x y. x \<in> set xs \<Longrightarrow> y \<in> set ys \<Longrightarrow> pre x = pre y \<Longrightarrow> length x = length y"
    and eq: "concat (map (\<lambda>b. pre b @ b) xs) = concat (map (\<lambda>b. pre b @ b) ys)"
  shows "xs = ys"
  using pre eq
proof (induction xs arbitrary: ys)
  case Nil
  have "pre b \<noteq> []" for b using k(1) [of b] k(2) by auto
  with Nil show ?case by (cases ys) auto
next
  case (Cons x xs)
  have ne: "pre b \<noteq> []" for b using k(1) [of b] k(2) by auto
  with Cons.prems(2) obtain y ys' where ys: "ys = y # ys'" by (cases ys) auto
  have e: "pre x @ x @ concat (map (\<lambda>b. pre b @ b) xs) = pre y @ y @ concat (map (\<lambda>b. pre b @ b) ys')"
    using Cons.prems(2) by (simp add: ys)
  then have p: "pre x = pre y" and r: "x @ concat (map (\<lambda>b. pre b @ b) xs) = y @ concat (map (\<lambda>b. pre b @ b) ys')"
    by (simp_all add: append_eq_append_conv k(1))
  have "length x = length y" using Cons.prems(1) [of x y] p by (simp add: ys)
  with r have "x = y" "concat (map (\<lambda>b. pre b @ b) xs) = concat (map (\<lambda>b. pre b @ b) ys')" by auto
  moreover have "xs = ys'" by (rule Cons.IH) (use Cons.prems(1) ys calculation(2) in auto)
  ultimately show ?case by (simp add: ys)
qed

lemma length_word_inj:
  assumes "be_bytes n (of_nat k :: 'w::len word) = be_bytes n (of_nat l :: 'w word)"
    and "LENGTH('w) \<le> 8 * n" "k < 2 ^ LENGTH('w)" "l < 2 ^ LENGTH('w)"
  shows "k = l"
  using be_bytes_inj [OF assms(1,2)] assms(3,4)
  by (simp add: word_unat_eq_iff unsigned_of_nat take_bit_nat_eq_self)

text \<open>Length-prefixed fields, each short enough for its 32-bit length, determine the list.\<close>

lemma hash_fields_inj:
  assumes "list_all (\<lambda>b. length b \<le> u32_max) xs" "list_all (\<lambda>b. length b \<le> u32_max) ys"
    and "concat (map hash_field xs) = concat (map hash_field ys)"
  shows "xs = ys"
proof (rule framed_inj [where pre = "\<lambda>b. be_bytes 4 (of_nat (u32_try_from (length b)) :: 32 word)" and k = 4])
  fix x y
  assume "x \<in> set xs" "y \<in> set ys"
    and eq: "be_bytes 4 (of_nat (u32_try_from (length x)) :: 32 word) = be_bytes 4 (of_nat (u32_try_from (length y)) :: 32 word)"
  with assms(1,2) have "length x \<le> u32_max" "length y \<le> u32_max" by (auto simp: list_all_iff)
  with length_word_inj [OF eq] show "length x = length y" by (simp add: u32_try_from_eq u32_max_def)
qed (use assms(3) in \<open>simp_all add: hash_field_def [abs_def]\<close>)

text \<open>The same with the 64-bit length of \<open>value.len() as u64\<close>.\<close>

definition framed64 :: "byte list \<Rightarrow> byte list" where
  "framed64 bytes = be_bytes 8 (of_nat (length bytes) :: 64 word) @ bytes"

lemma framed64_inj:
  assumes "list_all (\<lambda>b. length b < 2 ^ 64) xs" "list_all (\<lambda>b. length b < 2 ^ 64) ys"
    and "concat (map framed64 xs) = concat (map framed64 ys)"
  shows "xs = ys"
proof (rule framed_inj [where pre = "\<lambda>b. be_bytes 8 (of_nat (length b) :: 64 word)" and k = 8])
  fix x y
  assume "x \<in> set xs" "y \<in> set ys"
    and eq: "be_bytes 8 (of_nat (length x) :: 64 word) = be_bytes 8 (of_nat (length y) :: 64 word)"
  with assms(1,2) have "length x < 2 ^ 64" "length y < 2 ^ 64" by (auto simp: list_all_iff)
  with length_word_inj [OF eq] show "length x = length y" by simp
qed (use assms(3) in \<open>simp_all add: framed64_def [abs_def]\<close>)

lemma enum_str_inj [simp]:
  "chain_environment_as_str e = chain_environment_as_str e' \<longleftrightarrow> e = e'"
  "observation_kind_as_str k = observation_kind_as_str k' \<longleftrightarrow> k = k'"
  "execution_status_as_str x = execution_status_as_str x' \<longleftrightarrow> x = x'"
  "source_finality_as_str f = source_finality_as_str f' \<longleftrightarrow> f = f'"
  by (simp_all add: chain_environment_as_str_def observation_kind_as_str_def
      execution_status_as_str_def source_finality_as_str_def
      split: chain_environment.split observation_kind.split execution_status.split source_finality.split)

lemma enum_str_length:
  "length (chain_environment_as_str e) \<le> 20" "length (observation_kind_as_str k) \<le> 20"
  "length (execution_status_as_str x) \<le> 20" "length (source_finality_as_str f) \<le> 20"
  by (simp_all add: chain_environment_as_str_def observation_kind_as_str_def
      execution_status_as_str_def source_finality_as_str_def
      split: chain_environment.split observation_kind.split execution_status.split source_finality.split)

text \<open>The stored text of every chain enumeration reads back to the value it was
  written from, and no other text is accepted for it.\<close>

theorem chain_enum_text_round_trip:
  "(chain_environment_from_str v = Inr e \<longleftrightarrow> v = chain_environment_as_str e) \<and>
   (observation_kind_from_str v = Inr k \<longleftrightarrow> v = observation_kind_as_str k) \<and>
   (execution_status_from_str v = Inr x \<longleftrightarrow> v = execution_status_as_str x) \<and>
   (source_finality_from_str v = Inr f \<longleftrightarrow> v = source_finality_as_str f) \<and>
   (transfer_state_from_str v = Inr s \<longleftrightarrow> v = transfer_state_as_str s)"
proof (intro conjI)
  show "chain_environment_from_str v = Inr e \<longleftrightarrow> v = chain_environment_as_str e"
    by (cases e) (auto simp: chain_environment_from_str_def chain_environment_as_str_def)
  show "observation_kind_from_str v = Inr k \<longleftrightarrow> v = observation_kind_as_str k"
    by (cases k) (auto simp: observation_kind_from_str_def observation_kind_as_str_def)
  show "execution_status_from_str v = Inr x \<longleftrightarrow> v = execution_status_as_str x"
    by (cases x) (auto simp: execution_status_from_str_def execution_status_as_str_def)
  show "source_finality_from_str v = Inr f \<longleftrightarrow> v = source_finality_as_str f"
    by (cases f) (auto simp: source_finality_from_str_def source_finality_as_str_def)
  show "transfer_state_from_str v = Inr s \<longleftrightarrow> v = transfer_state_as_str s"
    by (cases s) (auto simp: transfer_state_from_str_def transfer_state_as_str_def)
qed

text \<open>What a stored reading claims, as far as its hash is concerned.\<close>

definition claim_identity where
  "claim_identity t source_id kind =
     ((source_id, kind, ot_chain t, ot_network t, ot_chain_environment t),
      (ot_tx_hash t, ot_event_index t, case ot_block_hash t of Some h \<Rightarrow> h | None \<Rightarrow> []),
      (ot_execution_status t, ot_source_finality t, ot_token_key t, ot_to_address t),
      (ot_amount_raw t, ot_memo t),
      (if kind = TargetedLookup
       then Some (case ot_source_head t of Some h \<Rightarrow> h | None \<Rightarrow> - 1) else None))"

text \<open>Texts shorter than 4 GiB, a memo as \<open>Memo::new\<close> makes it, a head in \<open>i64\<close>.\<close>

definition reading_wf :: "observed_transfer \<Rightarrow> bool" where
  "reading_wf t \<longleftrightarrow>
     length (ot_chain t) \<le> u32_max \<and> length (ot_network t) \<le> u32_max \<and>
     length (tx_hash_as_str (ot_tx_hash t)) \<le> u32_max \<and>
     (\<forall>h. ot_block_hash t = Some h \<longrightarrow> length h \<le> u32_max) \<and>
     length (address_bytes (ot_token_key t)) \<le> u32_max \<and>
     length (address_bytes (ot_to_address t)) \<le> u32_max \<and>
     (\<forall>m. ot_memo t = Some m \<longrightarrow> memo_as_str m \<noteq> [] \<and> length (memo_as_str m) \<le> u32_max) \<and>
     (\<forall>h. ot_source_head t = Some h \<longrightarrow> i64_ok h)"

lemma word_of_int_i64_inj:
  assumes "i64_ok a" "i64_ok b" "(word_of_int a :: 64 word) = word_of_int b"
  shows "a = b"
proof -
  have "sint (word_of_int x :: 64 word) = x" if "i64_ok x" for x
    using that by (simp add: i64_ok_def i64_min_def i64_max_def int_word_sint)
  with assms show ?thesis by metis
qed

lemma length_nat_str_le: "n < 10 ^ k \<Longrightarrow> 0 < k \<Longrightarrow> length (nat_str n) \<le> k"
proof (induction n arbitrary: k rule: nat_str.induct)
  case (1 n)
  show ?case
  proof (cases "n < 10")
    case True
    with 1 show ?thesis by (subst nat_str.simps) simp
  next
    case False
    obtain j where j: "k = Suc j" using "1.prems"(2) by (cases k) auto
    with "1.prems"(1) False have "n div 10 < 10 ^ j" "0 < j"
      by (auto simp: div_less_iff_less_mult mult.commute intro: Nat.gr0I)
    from "1.IH" [OF False this] False j show ?thesis
      by (subst nat_str.simps) auto
  qed
qed

lemma semantic_fields_short:
  assumes "reading_wf t" "u256_text display_u256 u256_from_str"
  shows "list_all (\<lambda>b. length b \<le> u32_max) (semantic_fields display_u256 t source_id kind)"
proof -
  have "unat (ot_amount_raw t) < 10 ^ 78"
    using unsigned_less [of "ot_amount_raw t", where ?'a = nat] by simp
  then have "length (nat_str (unat (ot_amount_raw t))) \<le> 78"
    by (rule length_nat_str_le) simp
  then show ?thesis
    using assms(1) enum_str_length [THEN order_trans, of u32_max]
    by (simp add: semantic_fields_def reading_wf_def u256_text.display_decimal [OF assms(2)]
        u32_max_def split: option.split)
qed

lemma semantic_fields_identity:
  assumes "reading_wf t" "reading_wf u" "u256_text display_u256 u256_from_str"
  shows "semantic_fields display_u256 t s k = semantic_fields display_u256 u s' k' \<longleftrightarrow>
    claim_identity t s k = claim_identity u s' k'"
proof
  assume eq: "semantic_fields display_u256 t s k = semantic_fields display_u256 u s' k'"
  then have k: "k = k'"
    by (simp add: semantic_fields_def str_bytes_inj)
  have "ot_memo t = ot_memo u"
    using eq assms(1,2) by (cases "ot_memo t"; cases "ot_memo u")
      (auto simp: semantic_fields_def str_bytes_inj reading_wf_def memo.expand)
  moreover have "s = s'" "ot_event_index t = ot_event_index u"
    using eq by (auto simp: semantic_fields_def intro: be_bytes_inj [of 16] be_bytes_inj [of 4])
  moreover have "(case ot_source_head t of Some h \<Rightarrow> h | None \<Rightarrow> - 1) =
      (case ot_source_head u of Some h \<Rightarrow> h | None \<Rightarrow> - 1)" if "k = TargetedLookup"
  proof (rule word_of_int_i64_inj)
    show "i64_ok (case ot_source_head t of Some h \<Rightarrow> h | None \<Rightarrow> - 1)"
      "i64_ok (case ot_source_head u of Some h \<Rightarrow> h | None \<Rightarrow> - 1)"
      using assms(1,2) by (auto simp: reading_wf_def i64_ok_def i64_min_def i64_max_def split: option.splits)
    show "(word_of_int (case ot_source_head t of Some h \<Rightarrow> h | None \<Rightarrow> - 1) :: 64 word) =
        word_of_int (case ot_source_head u of Some h \<Rightarrow> h | None \<Rightarrow> - 1)"
      using eq k that by (intro be_bytes_inj [of 8]) (simp_all add: semantic_fields_def)
  qed
  moreover have "nat_str (unat (ot_amount_raw t)) = nat_str (unat (ot_amount_raw u))"
    using eq by (simp add: semantic_fields_def str_bytes_inj u256_text.display_decimal [OF assms(3)])
  then have "ot_amount_raw t = ot_amount_raw u"
    by (metis dec_val_nat_str word_unat_eq_iff)
  ultimately show "claim_identity t s k = claim_identity u s' k'"
    using eq k by (simp add: semantic_fields_def str_bytes_inj claim_identity_def
        tx_hash.expand address_key.expand)
next
  assume "claim_identity t s k = claim_identity u s' k'"
  then show "semantic_fields display_u256 t s k = semantic_fields display_u256 u s' k'"
    by (simp add: claim_identity_def semantic_fields_def split: if_splits)
qed

text \<open>C32: Two stored readings share a semantic hash exactly when they make the same
  claim: same source, lane, chain, network, environment, transaction, event, block hash,
  status, finality, token, recipient, amount and memo, and for the verifier's own lookup
  the same head. Anything else would be a collision of SHA-256 itself, which the
  statement then exhibits.\<close>

theorem semantic_hash_identity:
  assumes "u256_text display_u256 u256_from_str" "reading_wf t" "reading_wf u"
  shows "(claim_identity t s k = claim_identity u s' k' \<longrightarrow>
      semantic_hash sha256 display_u256 t s k = semantic_hash sha256 display_u256 u s' k') \<and>
    (semantic_hash sha256 display_u256 t s k = semantic_hash sha256 display_u256 u s' k' \<longrightarrow>
      claim_identity t s k = claim_identity u s' k' \<or> (\<exists>a b. a \<noteq> b \<and> sha256 a = sha256 b))"
proof -
  have "concat (map hash_field (semantic_fields display_u256 t s k)) =
      concat (map hash_field (semantic_fields display_u256 u s' k')) \<longleftrightarrow>
      claim_identity t s k = claim_identity u s' k'"
    using hash_fields_inj semantic_fields_identity [OF assms(2,3,1)]
      semantic_fields_short [OF assms(2,1)] semantic_fields_short [OF assms(3,1)] by metis
  then show ?thesis by (auto simp: semantic_hash_def)
qed

definition sample_transfer :: "source_finality \<Rightarrow> observed_transfer" where
  "sample_transfer f =
     \<lparr> ot_chain = ''tron'', ot_network = ''main'', ot_chain_environment = Mainnet,
       ot_tx_hash = TxHash ''ab'', ot_event_index = 0, ot_block_number = Some 1,
       ot_block_hash = Some ''b1'', ot_parent_hash = None, ot_block_time = None,
       ot_token_key = AddressKey [1], ot_token_display = [], ot_from_address = AddressKey [2],
       ot_from_address_text = [], ot_to_address = AddressKey [3], ot_to_address_text = [],
       ot_amount_raw = 7, ot_decimals = 6, ot_memo = None, ot_execution_status = ES_Success,
       ot_source_finality = f, ot_source_head = Some 9, ot_evidence_sha256 = [],
       ot_evidence_uri = None \<rparr>"

theorem semantic_hash_identity_witness:
  "semantic_hash (\<lambda>b. b) ref_display_u256 (sample_transfer SF_Seen) 1 CursorScan \<noteq>
   semantic_hash (\<lambda>b. b) ref_display_u256 (sample_transfer SF_Finalized) 1 CursorScan"
proof -
  have "reading_wf (sample_transfer f)" for f
    by (simp add: reading_wf_def sample_transfer_def u32_max_def i64_ok_def i64_min_def i64_max_def)
  from semantic_hash_identity [OF ref_text.u256_text_axioms this this,
      of SF_Seen 1 CursorScan SF_Finalized 1 CursorScan "\<lambda>b. b"]
  show ?thesis by (simp add: claim_identity_def sample_transfer_def)
qed

text \<open>Rank of a transfer state along its lifecycle.\<close>

fun state_rank :: "transfer_state \<Rightarrow> nat" where
  "state_rank TS_Observed = 0"
| "state_rank TS_Canonical = 1"
| "state_rank TS_Confirmed = 2"
| "state_rank TS_Finalized = 3"
| "state_rank TS_Invalidated = 4"

lemma state_rank_inj: "state_rank m = state_rank s \<Longrightarrow> m = s"
  by (cases m; cases s) auto

lemma can_transition_rank: "can_transition_to s t \<Longrightarrow> state_rank s < state_rank t"
  by (cases s) auto

lemma can_transition_rank_succ: "can_transition_to s t \<Longrightarrow> t \<noteq> TS_Invalidated \<Longrightarrow> state_rank t = Suc (state_rank s)"
  by (cases s) auto



section \<open>Normal forms\<close>

lemma ws_prefix_printable:
  assumes "32 < (of_char c :: nat)" "(of_char c :: nat) < 128"
  shows "ws_prefix whitespace_chars (c # cs) = 0" "ws_prefix (map rev whitespace_chars) (c # cs) = 0"
proof -
  have ne: "c \<noteq> char_of n" if "n \<le> 32 \<or> 128 \<le> n" "n < 256" for n :: nat
    using assms that by (auto simp: of_char_of)
  show "ws_prefix whitespace_chars (c # cs) = 0" "ws_prefix (map rev whitespace_chars) (c # cs) = 0"
    by (simp_all add: ws_prefix_def whitespace_chars_def ne ne [symmetric] eq_commute [of "char_of _"])
qed

lemma str_trim_printable:
  assumes "list_all (\<lambda>c. 32 < (of_char c :: nat) \<and> (of_char c :: nat) < 128) s"
  shows "str_trim s = s"
proof (cases s)
  case Nil
  then show ?thesis by (simp add: str_trim_def strip_ws.simps)
next
  case (Cons c cs)
  have f: "strip_ws whitespace_chars s = s"
    using assms Cons ws_prefix_printable(1) by (subst strip_ws.simps) auto
  obtain d ds where d: "rev s = d # ds" using Cons by (cases "rev s") auto
  then have "d \<in> set s" by (metis list.set_intros(1) set_rev)
  with assms have "32 < (of_char d :: nat) \<and> (of_char d :: nat) < 128" by (auto simp: list_all_iff)
  then have "strip_ws (map rev whitespace_chars) (rev s) = rev s"
    using ws_prefix_printable(2) d by (subst strip_ws.simps) auto
  with f show ?thesis by (simp add: str_trim_def)
qed

definition tx_char :: "char \<Rightarrow> bool" where
  "tx_char c \<longleftrightarrow> (is_ascii_alphanumeric c \<or> c = CHR ''-'' \<or> c = CHR ''_'') \<and> \<not> is_ascii_uppercase c"

lemma tx_char_printable: "tx_char c \<Longrightarrow> 32 < (of_char c :: nat) \<and> (of_char c :: nat) < 128"
  by (auto simp: tx_char_def is_ascii_alphanumeric_def is_ascii_digit_def is_ascii_uppercase_def
      is_ascii_lowercase_def)

lemma to_lower_fixed: "list_all tx_char s \<Longrightarrow> to_ascii_lowercase s = s"
  by (auto simp: to_ascii_lowercase_def tx_char_def char_to_lower_def list_all_iff intro: map_idI)

lemma tx_hash_new_chars:
  assumes "tx_hash_new v = Inr h"
  shows "tx_hash_as_str h \<noteq> []" "length (tx_hash_as_str h) \<le> 200" "list_all tx_char (tx_hash_as_str h)"
proof -
  from assms obtain w where w: "tx_hash_as_str h = to_ascii_lowercase w"
    "to_ascii_lowercase w \<noteq> []" "length (to_ascii_lowercase w) \<le> 200"
    "list_all (\<lambda>c. is_ascii_alphanumeric c \<or> c = CHR ''-'' \<or> c = CHR ''_'') (to_ascii_lowercase w)"
    by (auto simp: tx_hash_new_def Let_def MAX_TX_HASH_CHARS_def split: if_splits)
  moreover have "list_all (\<lambda>c. \<not> is_ascii_uppercase c) (to_ascii_lowercase w)"
    by (simp add: to_ascii_lowercase_def list_all_iff char_to_lower_not_upper)
  ultimately show "tx_hash_as_str h \<noteq> []" "length (tx_hash_as_str h) \<le> 200" "list_all tx_char (tx_hash_as_str h)"
    by (auto simp: list_all_iff tx_char_def)
qed

lemma tx_hash_new_fixed:
  assumes "list_all tx_char s" "s \<noteq> []" "length s \<le> 200" "take 2 s \<noteq> ''0x''"
  shows "tx_hash_new s = Inr (TxHash s)"
proof -
  have "str_trim s = s"
    using assms(1) tx_char_printable by (intro str_trim_printable) (auto simp: list_all_iff)
  moreover have "list_all (\<lambda>c. is_ascii_alphanumeric c \<or> c = CHR ''-'' \<or> c = CHR ''_'') s"
    using assms(1) by (auto simp: list_all_iff tx_char_def)
  ultimately show ?thesis
    using assms by (simp add: tx_hash_new_def strip_prefix_def to_lower_fixed MAX_TX_HASH_CHARS_def
        numeral_2_eq_2)
qed

text \<open>A transaction hash is stored in a normal form of one to 200 lower-case
  letters, digits, hyphens and underscores, and reading the stored form gives the same
  hash again exactly when it does not start with \<open>0x\<close>.\<close>

theorem tx_hash_normal_form:
  assumes "tx_hash_new v = Inr h"
  shows "tx_hash_as_str h \<noteq> [] \<and> length (tx_hash_as_str h) \<le> 200 \<and>
    list_all tx_char (tx_hash_as_str h) \<and>
    (tx_hash_new (tx_hash_as_str h) = Inr h \<longleftrightarrow> take 2 (tx_hash_as_str h) \<noteq> ''0x'')"
proof -
  let ?s = "tx_hash_as_str h"
  note c = tx_hash_new_chars [OF assms]
  have "tx_hash_new ?s \<noteq> Inr h" if "take 2 ?s = ''0x''"
  proof
    assume a: "tx_hash_new ?s = Inr h"
    have "str_trim ?s = ?s"
      using c(3) tx_char_printable by (intro str_trim_printable) (auto simp: list_all_iff)
    with a that have "h = TxHash (to_ascii_lowercase (drop 2 ?s))"
      by (auto simp: tx_hash_new_def strip_prefix_def Let_def numeral_2_eq_2 split: if_splits)
    then have "?s = to_ascii_lowercase (drop 2 ?s)" by (metis tx_hash.sel)
    then have "length ?s = length ?s - 2" by (metis length_drop length_map to_ascii_lowercase_def)
    with c(1) show False by (cases ?s) auto
  qed
  moreover have "tx_hash_new ?s = Inr h" if "take 2 ?s \<noteq> ''0x''"
    using tx_hash_new_fixed [OF c(3,1,2) that] by simp
  ultimately show ?thesis using c by blast
qed

theorem tx_hash_normal_form_witness:
  "tx_hash_as_str (TxHash ''ab'') \<noteq> [] \<and> tx_hash_new ''ab'' = Inr (TxHash ''ab'')"
proof -
  have "tx_hash_new ''ab'' = Inr (TxHash ''ab'')"
    by (rule tx_hash_new_fixed) (simp_all add: tx_char_def is_ascii_alphanumeric_def is_ascii_digit_def
        is_ascii_uppercase_def is_ascii_lowercase_def)
  from tx_hash_normal_form [OF this] show ?thesis by simp
qed

text \<open>The \<open>0x\<close> prefix is removed before the text is lower-cased, so the upper-case
  spelling \<open>0X\<close> survives: \<open>0XAB\<close> and \<open>0xAB\<close>, two spellings of one identifier, become
  different hashes, and the hash of the first, read back from its own text, turns into
  the second.\<close>

theorem tx_hash_upper_prefix:
  "tx_hash_new ''0XAB'' = Inr (TxHash ''0xab'') \<and> tx_hash_new ''0xAB'' = Inr (TxHash ''ab'') \<and>
   tx_hash_new ''0xab'' = Inr (TxHash ''ab'')"
proof -
  have trim: "str_trim ''0XAB'' = ''0XAB''" "str_trim ''0xAB'' = ''0xAB''" "str_trim ''0xab'' = ''0xab''"
    by (simp_all add: str_trim_printable)
  show ?thesis
    by (simp add: tx_hash_new_def trim strip_prefix_def to_ascii_lowercase_def char_to_lower_def
        is_ascii_alphanumeric_def is_ascii_digit_def is_ascii_uppercase_def is_ascii_lowercase_def
        MAX_TX_HASH_CHARS_def char_of_eq_iff)
qed

section \<open>Text of identifiers\<close>

locale uuid_text =
  fixes display_uuid :: "uuid \<Rightarrow> string"
  assumes display_uuid_inj: "display_uuid a = display_uuid b \<longleftrightarrow> a = b"
    and display_uuid_length: "length (display_uuid a) = 36"
begin

lemma display_not_unknown [simp]: "display_uuid a \<noteq> ''unknown''" "''unknown'' \<noteq> display_uuid a"
proof -
  have "length (display_uuid a) \<noteq> length ''unknown''" by (simp add: display_uuid_length)
  then show "display_uuid a \<noteq> ''unknown''" "''unknown'' \<noteq> display_uuid a" by metis+
qed

end

text \<open>The hyphenated form: eight, four, four, four and twelve hexadecimal digits.\<close>

definition ref_display_uuid :: "uuid \<Rightarrow> string" where
  "ref_display_uuid u =
     (let h = bytes_to_hex (be_bytes 16 u)
      in take 8 h @ ''-'' @ take 4 (drop 8 h) @ ''-'' @ take 4 (drop 12 h) @ ''-'' @
         take 4 (drop 16 h) @ ''-'' @ drop 20 h)"

interpretation ref_uuid: uuid_text ref_display_uuid
proof
  fix a b :: uuid
  have split: "xs = take 8 xs @ take 4 (drop 8 xs) @ take 4 (drop 12 xs) @ take 4 (drop 16 xs) @ drop 20 xs"
    for xs :: string
    using append_take_drop_id [of 8 xs] append_take_drop_id [of 4 "drop 8 xs"]
      append_take_drop_id [of 4 "drop 12 xs"] append_take_drop_id [of 4 "drop 16 xs"] by simp
  show "ref_display_uuid a = ref_display_uuid b \<longleftrightarrow> a = b"
  proof
    let ?h = "\<lambda>u. bytes_to_hex (be_bytes 16 u)"
    assume "ref_display_uuid a = ref_display_uuid b"
    then have "take 8 (?h a) = take 8 (?h b) \<and> take 4 (drop 8 (?h a)) = take 4 (drop 8 (?h b)) \<and>
        take 4 (drop 12 (?h a)) = take 4 (drop 12 (?h b)) \<and>
        take 4 (drop 16 (?h a)) = take 4 (drop 16 (?h b)) \<and> drop 20 (?h a) = drop 20 (?h b)"
      by (simp add: ref_display_uuid_def Let_def append_eq_append_conv)
    then have "?h a = ?h b" using split [of "?h a"] split [of "?h b"] by metis
    then have "be_bytes 16 a = be_bytes 16 b" by (simp only: bytes_to_hex_inj)
    then show "a = b" by (rule be_bytes_inj) simp
  qed simp
  show "length (ref_display_uuid a) = 36"
    by (simp add: ref_display_uuid_def Let_def)
qed

end
