(* ===== verification/Verification.thy ===== *)
theory Verification
  imports Chain
begin

text \<open>
  The verifier of \<open>crates/gateway-domain/src/verification.rs\<close>: it decides what a group
  of stored readings about one chain event proves.

  The lemmas show what a verified transfer rests on (agreement of every accepted reading
  in the compared fields, an own re-read, enough independent provider groups, fresh
  evidence), when a transfer counts as final, that readings written under a foreign
  principal influence nothing, and which fields the comparison leaves out.

  The textual form of a \<open>Uuid\<close> is produced by a library outside the repository: it is
  the parameter \<open>display_uuid\<close>, and the locale \<open>uuid_text\<close> states what is relied on.
\<close>

section \<open>Data\<close>

record finality_policy =
  fp_id :: uuid
  fp_version :: string
  fp_min_confirmations :: int
  fp_required_source_finality :: source_finality
  fp_min_independent_groups :: nat
  fp_max_evidence_age_seconds :: int
  fp_observed_at :: instant

record evidence_reading =
  er_observation_id :: uuid
  er_source_id :: uuid
  er_provider_group :: string
  er_source_kind :: string
  er_source_principal :: string
  er_declared_principal :: string
  er_kind :: observation_kind
  er_asset_id :: "uuid option"
  er_collector_address_id :: "uuid option"
  er_transfer :: observed_transfer
  er_observed_at :: instant

datatype discard_reason = ImpersonatedSource

definition discard_reason_as_str :: "discard_reason \<Rightarrow> string" where
  "discard_reason_as_str r = (case r of ImpersonatedSource \<Rightarrow> ''impersonated_source'')"

type_synonym discarded_reading = "uuid \<times> discard_reason"

datatype attestation_role = Detection | Reverify | Finality | Canonicality

definition attestation_role_as_str :: "attestation_role \<Rightarrow> string" where
  "attestation_role_as_str r =
     (case r of Detection \<Rightarrow> ''detection'' | Reverify \<Rightarrow> ''reverify'' | Finality \<Rightarrow> ''finality''
      | Canonicality \<Rightarrow> ''canonicality'')"

record canonical_transfer =
  ct_asset_id :: uuid
  ct_collector_address_id :: uuid
  ct_chain :: string
  ct_network :: string
  ct_chain_environment :: chain_environment
  ct_tx_hash :: tx_hash
  ct_event_index :: "32 word"
  ct_block_number :: int
  ct_block_hash :: string
  ct_block_time :: instant
  ct_token_key :: address_key
  ct_from_address :: address_key
  ct_from_address_text :: string
  ct_to_address :: address_key
  ct_to_address_text :: string
  ct_amount_raw :: raw_amount
  ct_decimals :: int
  ct_memo :: "memo option"

record verified_transfer =
  vt_transfer :: canonical_transfer
  vt_attestations :: "(uuid \<times> attestation_role) list"
  vt_independent_groups :: nat
  vt_had_own_node :: bool
  vt_state :: transfer_state
  vt_confirmations :: int
  vt_policy_version :: string
  vt_discarded :: "discarded_reading list"

datatype conflict_field =
  CF_AmountRaw | CF_Recipient | CF_TokenKey | CF_BlockHash | CF_BlockNumber
  | CF_ExecutionStatus | CF_Memo | CF_Asset

definition conflict_field_as_str :: "conflict_field \<Rightarrow> string" where
  "conflict_field_as_str f =
     (case f of CF_AmountRaw \<Rightarrow> ''amount_raw'' | CF_Recipient \<Rightarrow> ''to_address_key''
      | CF_TokenKey \<Rightarrow> ''token_key'' | CF_BlockHash \<Rightarrow> ''block_hash''
      | CF_BlockNumber \<Rightarrow> ''block_number'' | CF_ExecutionStatus \<Rightarrow> ''execution_status''
      | CF_Memo \<Rightarrow> ''memo'' | CF_Asset \<Rightarrow> ''asset_id'')"

type_synonym field_conflict = "conflict_field \<times> (uuid \<times> string) list"

datatype insufficient_reason =
    NoEvidence
  | NoIndependentReread
  | NotEnoughIndependentGroups nat nat
  | StaleEvidence
  | MissingBlockIdentity

definition insufficient_reason_as_str :: "insufficient_reason \<Rightarrow> string" where
  "insufficient_reason_as_str r =
     (case r of NoEvidence \<Rightarrow> ''no_evidence'' | NoIndependentReread \<Rightarrow> ''no_independent_reread''
      | NotEnoughIndependentGroups _ _ \<Rightarrow> ''not_enough_independent_groups''
      | StaleEvidence \<Rightarrow> ''stale_evidence'' | MissingBlockIdentity \<Rightarrow> ''missing_block_identity'')"

datatype rejection_reason = UnsupportedAsset | FailedExecution | ForeignRecipient

definition rejection_reason_as_str :: "rejection_reason \<Rightarrow> string" where
  "rejection_reason_as_str r =
     (case r of UnsupportedAsset \<Rightarrow> ''unsupported_asset'' | FailedExecution \<Rightarrow> ''failed_execution''
      | ForeignRecipient \<Rightarrow> ''foreign_recipient'')"

datatype verdict =
    Verified verified_transfer
  | Conflicted "field_conflict list" "discarded_reading list"
  | Insufficient insufficient_reason "discarded_reading list"
  | Rejected rejection_reason "discarded_reading list"

datatype verification_error = MixedEvents | PolicyOutOfRange

section \<open>Operations\<close>

definition event_identity ::
  "evidence_reading \<Rightarrow> string \<times> string \<times> chain_environment \<times> string \<times> 32 word" where
  "event_identity r =
     (ot_chain (er_transfer r), ot_network (er_transfer r), ot_chain_environment (er_transfer r),
      tx_hash_as_str (ot_tx_hash (er_transfer r)), ot_event_index (er_transfer r))"

fun one_event_loop where
  "one_event_loop identity [] = Inr ()"
| "one_event_loop identity (reading # readings) =
     (let current = event_identity reading
      in case identity of
           None \<Rightarrow> one_event_loop (Some current) readings
         | Some first \<Rightarrow> if first = current then one_event_loop (Some first) readings
                         else Inl MixedEvents)"

definition ensure_one_event :: "evidence_reading list \<Rightarrow> verification_error + unit" where
  "ensure_one_event readings = one_event_loop None readings"

definition COMPARED_FIELDS ::
  "(u256 \<Rightarrow> string) \<Rightarrow> (uuid \<Rightarrow> string) \<Rightarrow> (conflict_field \<times> (evidence_reading \<Rightarrow> string option)) list" where
  "COMPARED_FIELDS display_u256 display_uuid =
     [(CF_AmountRaw, \<lambda>r. Some (display_u256 (ot_amount_raw (er_transfer r)))),
      (CF_Recipient, \<lambda>r. Some (address_to_hex (ot_to_address (er_transfer r)))),
      (CF_TokenKey, \<lambda>r. Some (address_to_hex (ot_token_key (er_transfer r)))),
      (CF_ExecutionStatus, \<lambda>r. Some (execution_status_as_str (ot_execution_status (er_transfer r)))),
      (CF_Memo, \<lambda>r. Some (case ot_memo (er_transfer r) of None \<Rightarrow> [] | Some memo \<Rightarrow> memo_as_str memo)),
      (CF_Asset, \<lambda>r. Some (case er_asset_id r of None \<Rightarrow> ''unknown'' | Some asset \<Rightarrow> display_uuid asset)),
      (CF_BlockHash, \<lambda>r. ot_block_hash (er_transfer r)),
      (CF_BlockNumber, \<lambda>r. map_option int_str (ot_block_number (er_transfer r)))]"

definition field_items ::
  "(evidence_reading \<Rightarrow> string option) \<Rightarrow> evidence_reading list \<Rightarrow> (uuid \<times> string) list" where
  "field_items read readings =
     List.map_filter (\<lambda>r. map_option (\<lambda>value. (er_observation_id r, value)) (read r)) readings"

definition find_conflicts ::
  "(u256 \<Rightarrow> string) \<Rightarrow> (uuid \<Rightarrow> string) \<Rightarrow> evidence_reading list \<Rightarrow> field_conflict list" where
  "find_conflicts display_u256 display_uuid readings =
     List.map_filter (\<lambda>(field, read).
         let items = field_items read readings
         in if length (remdups (map snd items)) > 1 then Some (field, items) else None)
       (COMPARED_FIELDS display_u256 display_uuid)"

definition rejection :: "evidence_reading list \<Rightarrow> rejection_reason option" where
  "rejection readings =
     (if list_ex (\<lambda>r. ot_execution_status (er_transfer r) = ES_Failed) readings then Some FailedExecution
      else if list_ex (\<lambda>r. er_asset_id r = None) readings then Some UnsupportedAsset
      else if list_ex (\<lambda>r. er_collector_address_id r = None) readings then Some ForeignRecipient
      else None)"

definition independent_groups :: "evidence_reading list \<Rightarrow> nat" where
  "independent_groups readings = u32_try_from (length (remdups (map er_provider_group readings)))"

definition insufficiency ::
  "(instant \<Rightarrow> int \<Rightarrow> instant option) \<Rightarrow> evidence_reading list \<Rightarrow> nat \<Rightarrow> finality_policy \<Rightarrow> instant
     \<Rightarrow> verification_error + insufficient_reason option" where
  "insufficiency add_secs readings groups policy now =
     (if \<not> list_ex (\<lambda>r. er_kind r = TargetedLookup) readings then Inr (Some NoIndependentReread)
      else if groups < fp_min_independent_groups policy
      then Inr (Some (NotEnoughIndependentGroups groups (fp_min_independent_groups policy)))
      else let newest = (case iter_max (map er_observed_at readings) of Some t \<Rightarrow> t | None \<Rightarrow> 0)
           in bind_result (ok_or PolicyOutOfRange (add_secs newest (fp_max_evidence_age_seconds policy))) (\<lambda>deadline.
              if deadline < now then Inr (Some StaleEvidence) else Inr None))"

definition kind_preference :: "observation_kind \<Rightarrow> nat" where
  "kind_preference k = (case k of TargetedLookup \<Rightarrow> 2 | CursorScan \<Rightarrow> 1 | FastDetect \<Rightarrow> 0)"

definition canonical_transfer_of :: "evidence_reading list \<Rightarrow> canonical_transfer option" where
  "canonical_transfer_of readings =
     Option.bind (max_by_key (\<lambda>r. kind_preference (er_kind r))
       (filter (\<lambda>r. ot_block_number (er_transfer r) \<noteq> None \<and> ot_block_hash (er_transfer r) \<noteq> None \<and>
          ot_block_time (er_transfer r) \<noteq> None) readings)) (\<lambda>complete.
     let t = er_transfer complete
     in Option.bind (er_asset_id complete) (\<lambda>asset.
        Option.bind (er_collector_address_id complete) (\<lambda>collector.
        Option.bind (ot_block_number t) (\<lambda>number.
        Option.bind (ot_block_hash t) (\<lambda>hash.
        Option.bind (ot_block_time t) (\<lambda>time.
        Some \<lparr> ct_asset_id = asset, ct_collector_address_id = collector,
               ct_chain = ot_chain t, ct_network = ot_network t,
               ct_chain_environment = ot_chain_environment t, ct_tx_hash = ot_tx_hash t,
               ct_event_index = ot_event_index t, ct_block_number = number, ct_block_hash = hash,
               ct_block_time = time, ct_token_key = ot_token_key t,
               ct_from_address = ot_from_address t, ct_from_address_text = ot_from_address_text t,
               ct_to_address = ot_to_address t, ct_to_address_text = ot_to_address_text t,
               ct_amount_raw = ot_amount_raw t, ct_decimals = ot_decimals t, ct_memo = ot_memo t \<rparr>))))))"

definition confirmations :: "evidence_reading list \<Rightarrow> int \<Rightarrow> int" where
  "confirmations readings block_number =
     max (case iter_max (map (\<lambda>head. i64_sat_sub head block_number)
            (List.map_filter (\<lambda>r. ot_source_head (er_transfer r)) readings)) of
            Some depth \<Rightarrow> depth | None \<Rightarrow> 0) 0"

definition attestation_role_of :: "evidence_reading \<Rightarrow> attestation_role" where
  "attestation_role_of reading =
     (if er_kind reading = TargetedLookup then Reverify
      else if ot_source_finality (er_transfer reading) = SF_Finalized then Finality
      else Detection)"

definition attestation_roles :: "evidence_reading list \<Rightarrow> (uuid \<times> attestation_role) list" where
  "attestation_roles readings =
     foldl (\<lambda>roles reading. btree_insert (er_observation_id reading) (attestation_role_of reading) roles)
       [] readings"

definition decided_state :: "finality_policy \<Rightarrow> source_finality \<Rightarrow> int \<Rightarrow> transfer_state" where
  "decided_state policy best_claim depth =
     (if best_claim \<ge> fp_required_source_finality policy \<and> depth \<ge> fp_min_confirmations policy
      then TS_Finalized
      else if best_claim \<ge> SF_Confirmed then TS_Confirmed
      else TS_Canonical)"

definition honest :: "evidence_reading \<Rightarrow> bool" where
  "honest reading \<longleftrightarrow> er_source_principal reading = er_declared_principal reading"

text \<open>The rest of \<open>verify\<close>, once the impersonated readings are set aside.\<close>

definition verify_accepted ::
  "(instant \<Rightarrow> int \<Rightarrow> instant option) \<Rightarrow> (u256 \<Rightarrow> string) \<Rightarrow> (uuid \<Rightarrow> string)
     \<Rightarrow> evidence_reading list \<Rightarrow> discarded_reading list \<Rightarrow> finality_policy \<Rightarrow> instant
     \<Rightarrow> verification_error + verdict" where
  "verify_accepted add_secs display_u256 display_uuid accepted discarded policy now =
     (if accepted = [] then Inr (Insufficient NoEvidence discarded)
      else let conflicts = find_conflicts display_u256 display_uuid accepted
      in if conflicts \<noteq> [] then Inr (Conflicted conflicts discarded)
      else case rejection accepted of
        Some reason \<Rightarrow> Inr (Rejected reason discarded)
      | None \<Rightarrow>
          let groups = independent_groups accepted
          in bind_result (insufficiency add_secs accepted groups policy now) (\<lambda>insufficient.
             case insufficient of
               Some reason \<Rightarrow> Inr (Insufficient reason discarded)
             | None \<Rightarrow>
                 (case canonical_transfer_of accepted of
                    None \<Rightarrow> Inr (Insufficient MissingBlockIdentity discarded)
                  | Some transfer \<Rightarrow>
                      let depth = confirmations accepted (ct_block_number transfer);
                          best_claim = (case iter_max (map (\<lambda>r. ot_source_finality (er_transfer r)) accepted) of
                             Some f \<Rightarrow> f | None \<Rightarrow> SF_Seen)
                      in Inr (Verified
                           \<lparr> vt_transfer = transfer,
                             vt_attestations = attestation_roles accepted,
                             vt_independent_groups = groups,
                             vt_had_own_node = list_ex (\<lambda>r. er_source_kind r = ''own_node'') accepted,
                             vt_state = decided_state policy best_claim depth,
                             vt_confirmations = depth,
                             vt_policy_version = fp_version policy,
                             vt_discarded = discarded \<rparr>))))"

definition verify ::
  "(instant \<Rightarrow> int \<Rightarrow> instant option) \<Rightarrow> (u256 \<Rightarrow> string) \<Rightarrow> (uuid \<Rightarrow> string)
     \<Rightarrow> evidence_reading list \<Rightarrow> finality_policy \<Rightarrow> instant \<Rightarrow> verification_error + verdict" where
  "verify add_secs display_u256 display_uuid readings policy now =
     bind_result (ensure_one_event readings) (\<lambda>_.
     let discarded = map (\<lambda>r. (er_observation_id r, ImpersonatedSource)) (filter (\<lambda>r. \<not> honest r) readings);
         accepted = filter honest readings
     in verify_accepted add_secs display_u256 display_uuid accepted discarded policy now)"

section \<open>Agreement\<close>

lemma remdups_singleton: "length (remdups xs) \<le> 1 \<longleftrightarrow> (\<forall>x\<in>set xs. \<forall>y\<in>set xs. x = y)"
proof -
  have "length (remdups xs) = card (set xs)" by (simp add: length_remdups_card_conv)
  then show ?thesis by (simp add: card_le_Suc0_iff_eq)
qed

lemma map_filter_empty_iff: "List.map_filter f xs = [] \<longleftrightarrow> (\<forall>x\<in>set xs. f x = None)"
  by (induction xs) (auto simp: List.map_filter_simps split: option.splits)

lemma set_map_filter: "set (List.map_filter f xs) = {y. \<exists>x\<in>set xs. f x = Some y}"
  by (induction xs) (auto simp: List.map_filter_simps split: option.splits)

text \<open>Two readings that both report the field report the same value.\<close>

definition field_agrees :: "(evidence_reading \<Rightarrow> 'a option) \<Rightarrow> evidence_reading list \<Rightarrow> bool" where
  "field_agrees read rs \<longleftrightarrow>
     (\<forall>x\<in>set rs. \<forall>y\<in>set rs. read x \<noteq> None \<longrightarrow> read y \<noteq> None \<longrightarrow> read x = read y)"

lemma field_agreesD:
  "field_agrees read rs \<Longrightarrow> x \<in> set rs \<Longrightarrow> y \<in> set rs \<Longrightarrow> read y = Some v \<Longrightarrow> read x \<in> {None, Some v}"
  unfolding field_agrees_def by (metis insertCI option.distinct(1))

lemma field_items_agree: "length (remdups (map snd (field_items read rs))) \<le> 1 \<longleftrightarrow> field_agrees read rs"
proof -
  have v: "snd ` set (field_items read rs) = {v. \<exists>r\<in>set rs. read r = Some v}"
    by (force simp: field_items_def set_map_filter image_iff)
  have "length (remdups (map snd (field_items read rs))) \<le> 1 \<longleftrightarrow>
      (\<forall>x\<in>set rs. \<forall>y\<in>set rs. \<forall>a b. read x = Some a \<longrightarrow> read y = Some b \<longrightarrow> a = b)"
    unfolding remdups_singleton set_map v by blast
  also have "\<dots> \<longleftrightarrow> field_agrees read rs"
    unfolding field_agrees_def by (intro ball_cong refl) auto
  finally show ?thesis .
qed

text \<open>The readings agree in everything the code compares.\<close>

definition readings_agree :: "evidence_reading list \<Rightarrow> bool" where
  "readings_agree rs \<longleftrightarrow>
     (\<forall>x\<in>set rs. \<forall>y\<in>set rs.
        ot_amount_raw (er_transfer x) = ot_amount_raw (er_transfer y) \<and>
        ot_to_address (er_transfer x) = ot_to_address (er_transfer y) \<and>
        ot_token_key (er_transfer x) = ot_token_key (er_transfer y) \<and>
        ot_execution_status (er_transfer x) = ot_execution_status (er_transfer y) \<and>
        ot_memo (er_transfer x) = ot_memo (er_transfer y) \<and>
        er_asset_id x = er_asset_id y) \<and>
     field_agrees (\<lambda>r. ot_block_hash (er_transfer r)) rs \<and>
     field_agrees (\<lambda>r. ot_block_number (er_transfer r)) rs"

definition memos_wf :: "evidence_reading list \<Rightarrow> bool" where
  "memos_wf rs \<longleftrightarrow> (\<forall>r\<in>set rs. ot_memo (er_transfer r) \<noteq> Some (Memo []))"

lemma find_conflicts_empty_iff:
  assumes "u256_text display_u256 u256_from_str" "uuid_text display_uuid" "memos_wf rs"
  shows "find_conflicts display_u256 display_uuid rs = [] \<longleftrightarrow> readings_agree rs"
proof -
  have some: "field_agrees (\<lambda>r. Some (f r)) rs \<longleftrightarrow> (\<forall>x\<in>set rs. \<forall>y\<in>set rs. f x = f y)" for f :: "_ \<Rightarrow> string"
    by (simp add: field_agrees_def)
  have amount: "display_u256 a = display_u256 b \<longleftrightarrow> a = b" for a b
    by (metis assms(1) u256_text.from_str_display option.inject)
  have addr: "address_to_hex a = address_to_hex b \<longleftrightarrow> a = b" for a b
    by (cases a; cases b) (simp add: address_to_hex_def bytes_to_hex_inj)
  have memo: "(case m of None \<Rightarrow> [] | Some m \<Rightarrow> memo_as_str m) = (case n of None \<Rightarrow> [] | Some m \<Rightarrow> memo_as_str m)
      \<longleftrightarrow> m = n" if "m \<noteq> Some (Memo [])" "n \<noteq> Some (Memo [])" for m n
  proof -
    have "memo_as_str x = [] \<longleftrightarrow> x = Memo []" "[] = memo_as_str x \<longleftrightarrow> x = Memo []"
      "memo_as_str x = memo_as_str y \<longleftrightarrow> x = y" for x y
      by (cases x; cases y; auto)+
    with that show ?thesis by (cases m; cases n) auto
  qed
  have memos: "(\<forall>x\<in>set rs. \<forall>y\<in>set rs.
      (case ot_memo (er_transfer x) of None \<Rightarrow> [] | Some m \<Rightarrow> memo_as_str m) =
      (case ot_memo (er_transfer y) of None \<Rightarrow> [] | Some m \<Rightarrow> memo_as_str m)) \<longleftrightarrow>
      (\<forall>x\<in>set rs. \<forall>y\<in>set rs. ot_memo (er_transfer x) = ot_memo (er_transfer y))"
    using assms(3) by (intro ball_cong refl memo) (auto simp: memos_wf_def)
  have asset: "(case a of None \<Rightarrow> ''unknown'' | Some i \<Rightarrow> display_uuid i) =
      (case b of None \<Rightarrow> ''unknown'' | Some i \<Rightarrow> display_uuid i) \<longleftrightarrow> a = b" for a b
    using assms(2) by (cases a; cases b)
      (simp_all add: uuid_text.display_uuid_inj uuid_text.display_not_unknown)
  have num: "field_agrees (\<lambda>r. map_option int_str (f r)) rs \<longleftrightarrow> field_agrees f rs" for f
  proof -
    have "map_option int_str x = map_option int_str y \<longleftrightarrow> x = y" for x y
      by (cases x; cases y) (simp_all add: int_str_inj)
    then show ?thesis by (simp only: field_agrees_def option.map_disc_iff)
  qed
  have "find_conflicts display_u256 display_uuid rs = [] \<longleftrightarrow>
      (\<forall>(f, read)\<in>set (COMPARED_FIELDS display_u256 display_uuid). field_agrees read rs)"
    unfolding find_conflicts_def map_filter_empty_iff field_items_agree [symmetric]
    by (auto simp: Let_def not_less split: if_splits)
  also have "\<dots> \<longleftrightarrow> readings_agree rs"
    by (simp add: COMPARED_FIELDS_def some amount addr asset num memos readings_agree_def ball_conj_distrib
        conj_ac)
  finally show ?thesis .
qed

section \<open>What a verdict rests on\<close>

lemma one_event_loop_Some:
  "one_event_loop (Some i) rs = Inr () \<longleftrightarrow> (\<forall>r\<in>set rs. event_identity r = i)"
  by (induction rs) (auto simp: Let_def)

lemma ensure_one_event_iff:
  "ensure_one_event rs = Inr u \<longleftrightarrow> (\<forall>x\<in>set rs. \<forall>y\<in>set rs. event_identity x = event_identity y)"
  by (cases rs) (auto simp: ensure_one_event_def Let_def one_event_loop_Some)

lemma insufficiency_NoneE:
  assumes "insufficiency add_secs rs g policy now = Inr None" "checked_time add_secs" "rs \<noteq> []"
  shows "\<exists>r\<in>set rs. er_kind r = TargetedLookup" "fp_min_independent_groups policy \<le> g"
    "\<exists>r\<in>set rs. now \<le> er_observed_at r + fp_max_evidence_age_seconds policy * nanos_per_sec"
proof -
  have m: "iter_max (map er_observed_at rs) = Some (Max (er_observed_at ` set rs))"
    using assms(3) by (simp add: iter_max_eq)
  obtain deadline where d: "add_secs (Max (er_observed_at ` set rs)) (fp_max_evidence_age_seconds policy) = Some deadline"
    "now \<le> deadline" and k: "list_ex (\<lambda>r. er_kind r = TargetedLookup) rs" "fp_min_independent_groups policy \<le> g"
    using assms(1) by (auto simp: insufficiency_def m result_simps not_less split: if_splits)
  show "\<exists>r\<in>set rs. er_kind r = TargetedLookup" "fp_min_independent_groups policy \<le> g"
    using k by (auto simp: list_ex_iff)
  have "Max (er_observed_at ` set rs) \<in> er_observed_at ` set rs"
    using assms(3) by (intro Max_in) auto
  then obtain r where "r \<in> set rs" "er_observed_at r = Max (er_observed_at ` set rs)" by force
  with d checked_time.add_secs_SomeD [OF assms(2) d(1)]
  show "\<exists>r\<in>set rs. now \<le> er_observed_at r + fp_max_evidence_age_seconds policy * nanos_per_sec"
    by (metis d(2))
qed

text \<open>The canonical values are those of the reading.\<close>

definition canonical_from :: "evidence_reading \<Rightarrow> canonical_transfer \<Rightarrow> bool" where
  "canonical_from r c \<longleftrightarrow>
     (let t = er_transfer r in
      er_asset_id r = Some (ct_asset_id c) \<and> er_collector_address_id r = Some (ct_collector_address_id c) \<and>
      ct_chain c = ot_chain t \<and> ct_network c = ot_network t \<and>
      ct_chain_environment c = ot_chain_environment t \<and> ct_tx_hash c = ot_tx_hash t \<and>
      ct_event_index c = ot_event_index t \<and> ot_block_number t = Some (ct_block_number c) \<and>
      ot_block_hash t = Some (ct_block_hash c) \<and> ot_block_time t = Some (ct_block_time c) \<and>
      ct_token_key c = ot_token_key t \<and> ct_from_address c = ot_from_address t \<and>
      ct_to_address c = ot_to_address t \<and> ct_amount_raw c = ot_amount_raw t \<and>
      ct_decimals c = ot_decimals t \<and> ct_memo c = ot_memo t)"

lemma canonical_transfer_ofE:
  assumes "canonical_transfer_of rs = Some c"
  obtains r where "r \<in> set rs" "canonical_from r c"
    "\<forall>s\<in>set rs. ot_block_number (er_transfer s) \<noteq> None \<longrightarrow> ot_block_hash (er_transfer s) \<noteq> None \<longrightarrow>
       ot_block_time (er_transfer s) \<noteq> None \<longrightarrow> kind_preference (er_kind s) \<le> kind_preference (er_kind r)"
proof -
  let ?full = "filter (\<lambda>r. ot_block_number (er_transfer r) \<noteq> None \<and> ot_block_hash (er_transfer r) \<noteq> None \<and>
          ot_block_time (er_transfer r) \<noteq> None) rs"
  from assms obtain r where r: "max_by_key (\<lambda>r. kind_preference (er_kind r)) ?full = Some r"
    by (auto simp: canonical_transfer_of_def bind_eq_Some_conv)
  from r have "r \<in> set ?full" by (rule max_by_key_SomeD(1))
  moreover have "canonical_from r c"
    using assms r by (auto simp: canonical_transfer_of_def canonical_from_def bind_eq_Some_conv Let_def)
  moreover have "kind_preference (er_kind s) \<le> kind_preference (er_kind r)" if "s \<in> set ?full" for s
    using max_by_key_SomeD(2) [OF r that] .
  ultimately show thesis by (intro that [of r]) auto
qed

lemma verify_VerifiedE:
  assumes "verify add_secs display_u256 display_uuid readings policy now = Inr (Verified v)"
  defines "acc \<equiv> filter honest readings"
  obtains "ensure_one_event readings = Inr ()" "acc \<noteq> []"
    "find_conflicts display_u256 display_uuid acc = []" "rejection acc = None"
    "insufficiency add_secs acc (independent_groups acc) policy now = Inr None"
    "canonical_transfer_of acc = Some (vt_transfer v)"
    "vt_confirmations v = confirmations acc (ct_block_number (vt_transfer v))"
    "vt_state v = decided_state policy (Max ((\<lambda>r. ot_source_finality (er_transfer r)) ` set acc)) (vt_confirmations v)"
    "vt_independent_groups v = independent_groups acc"
    "vt_attestations v = attestation_roles acc"
    "vt_had_own_node v \<longleftrightarrow> (\<exists>r\<in>set acc. er_source_kind r = ''own_node'')"
proof -
  have b: "bind_result r f = Inr x \<Longrightarrow> \<exists>a. r = Inr a \<and> f a = Inr x" for r :: "'e + 'a" and f :: "'a \<Rightarrow> 'e + 'b" and x
    by (simp add: result_simps)
  from assms(1) have e: "ensure_one_event readings = Inr ()"
    by (auto simp: verify_def result_simps)
  from assms(1) e have ne: "acc \<noteq> []" and nc: "find_conflicts display_u256 display_uuid acc = []"
    by (auto simp: verify_def verify_accepted_def Let_def acc_def split: if_splits)
  from assms(1) e ne nc have rj: "rejection acc = None"
    by (auto simp: verify_def verify_accepted_def Let_def acc_def [symmetric] split: option.splits)
  from assms(1) e ne nc rj
  have i: "insufficiency add_secs acc (independent_groups acc) policy now = Inr None"
    by (auto simp: verify_def verify_accepted_def Let_def acc_def [symmetric] result_simps split: option.splits)
  from assms(1) e ne nc rj i have c: "canonical_transfer_of acc = Some (vt_transfer v)"
    by (auto simp: verify_def verify_accepted_def Let_def acc_def [symmetric] split: option.splits)
  have m: "iter_max (map (\<lambda>r. ot_source_finality (er_transfer r)) acc) =
      Some (Max ((\<lambda>r. ot_source_finality (er_transfer r)) ` set acc))"
    using ne by (simp add: iter_max_eq)
  from assms(1) e ne nc rj i c m
  have "v = \<lparr> vt_transfer = vt_transfer v, vt_attestations = attestation_roles acc,
      vt_independent_groups = independent_groups acc,
      vt_had_own_node = list_ex (\<lambda>r. er_source_kind r = ''own_node'') acc,
      vt_state = decided_state policy (Max ((\<lambda>r. ot_source_finality (er_transfer r)) ` set acc))
        (confirmations acc (ct_block_number (vt_transfer v))),
      vt_confirmations = confirmations acc (ct_block_number (vt_transfer v)),
      vt_policy_version = fp_version policy, vt_discarded = vt_discarded v \<rparr>"
    by (simp add: verify_def verify_accepted_def Let_def acc_def [symmetric]) (metis verified_transfer.select_convs(1,8))
  then have "vt_confirmations v = confirmations acc (ct_block_number (vt_transfer v))"
    "vt_state v = decided_state policy (Max ((\<lambda>r. ot_source_finality (er_transfer r)) ` set acc))
       (confirmations acc (ct_block_number (vt_transfer v)))"
    "vt_independent_groups v = independent_groups acc" "vt_attestations v = attestation_roles acc"
    "vt_had_own_node v \<longleftrightarrow> list_ex (\<lambda>r. er_source_kind r = ''own_node'') acc"
    by (metis verified_transfer.select_convs)+
  with e ne nc rj i c that show thesis by (simp add: list_ex_iff)
qed

lemma independent_groups_le: "independent_groups rs \<le> card (er_provider_group ` set rs)"
  using u32_try_from_le [of "length (remdups (map er_provider_group rs))"]
  by (simp add: independent_groups_def length_remdups_card_conv)

text \<open>C22: A canonical fact rests on agreeing, fresh and independent evidence. When
  \<open>verify\<close> reports a transfer as verified, some reading counts, the verifier's own lookup
  is among those that do, they come from at least as many provider groups as the policy
  demands, and one of them is no older than the policy allows; every counting reading
  describes the same event, succeeded, names the same asset, recipient, token, amount and
  memo as the canonical transfer, was resolved to a collector address, and reports no
  other block hash or number; and all canonical values come from one counting reading
  with full block identity.\<close>

theorem verify_sound:
  assumes "checked_time add_secs" "u256_text display_u256 u256_from_str" "uuid_text display_uuid"
    and "memos_wf readings"
    and "verify add_secs display_u256 display_uuid readings policy now = Inr (Verified v)"
  defines "acc \<equiv> filter honest readings" and "c \<equiv> vt_transfer v"
  shows "(\<exists>r\<in>set acc. er_kind r = TargetedLookup) \<and>
    fp_min_independent_groups policy \<le> card (er_provider_group ` set acc) \<and>
    (\<exists>r\<in>set acc. now \<le> er_observed_at r + fp_max_evidence_age_seconds policy * nanos_per_sec) \<and>
    (\<exists>r\<in>set acc. canonical_from r c) \<and>
    (\<forall>r\<in>set acc. let t = er_transfer r in
       ot_chain t = ct_chain c \<and> ot_network t = ct_network c \<and>
       ot_chain_environment t = ct_chain_environment c \<and>
       ot_tx_hash t = ct_tx_hash c \<and> ot_event_index t = ct_event_index c \<and>
       ot_execution_status t = ES_Success \<and> er_asset_id r = Some (ct_asset_id c) \<and>
       er_collector_address_id r \<noteq> None \<and> ot_to_address t = ct_to_address c \<and>
       ot_token_key t = ct_token_key c \<and> ot_amount_raw t = ct_amount_raw c \<and> ot_memo t = ct_memo c \<and>
       ot_block_hash t \<in> {None, Some (ct_block_hash c)} \<and>
       ot_block_number t \<in> {None, Some (ct_block_number c)})"
proof -
  have v: "ensure_one_event readings = Inr ()" "acc \<noteq> []"
    "find_conflicts display_u256 display_uuid acc = []" "rejection acc = None"
    "insufficiency add_secs acc (independent_groups acc) policy now = Inr None"
    "canonical_transfer_of acc = Some c"
    by (rule verify_VerifiedE [OF assms(5), folded acc_def c_def]; assumption)+
  note ins = insufficiency_NoneE [OF v(5) assms(1) v(2)]
  obtain r0 where r0: "r0 \<in> set acc" "canonical_from r0 c"
    by (rule canonical_transfer_ofE [OF v(6)])
  have "memos_wf acc" using assms(4) by (simp add: memos_wf_def acc_def)
  with v(3) find_conflicts_empty_iff [OF assms(2,3)] have agree: "readings_agree acc" by blast
  have id: "event_identity x = event_identity r0" if "x \<in> set acc" for x
    using v(1) that r0(1) by (simp add: ensure_one_event_iff acc_def)
  have rej: "ot_execution_status (er_transfer x) \<noteq> ES_Failed" "er_collector_address_id x \<noteq> None"
    if "x \<in> set acc" for x
    using v(4) that by (auto simp: rejection_def list_ex_iff split: if_splits)
  have per: "let t = er_transfer x in
       ot_chain t = ct_chain c \<and> ot_network t = ct_network c \<and>
       ot_chain_environment t = ct_chain_environment c \<and>
       ot_tx_hash t = ct_tx_hash c \<and> ot_event_index t = ct_event_index c \<and>
       ot_execution_status t = ES_Success \<and> er_asset_id x = Some (ct_asset_id c) \<and>
       er_collector_address_id x \<noteq> None \<and> ot_to_address t = ct_to_address c \<and>
       ot_token_key t = ct_token_key c \<and> ot_amount_raw t = ct_amount_raw c \<and> ot_memo t = ct_memo c \<and>
       ot_block_hash t \<in> {None, Some (ct_block_hash c)} \<and>
       ot_block_number t \<in> {None, Some (ct_block_number c)}" if x: "x \<in> set acc" for x
  proof -
    have "ot_execution_status (er_transfer x) = ES_Success"
      using rej(1) [OF x] by (cases "ot_execution_status (er_transfer x)") auto
    moreover have "ot_amount_raw (er_transfer x) = ot_amount_raw (er_transfer r0)"
      "ot_to_address (er_transfer x) = ot_to_address (er_transfer r0)"
      "ot_token_key (er_transfer x) = ot_token_key (er_transfer r0)"
      "ot_memo (er_transfer x) = ot_memo (er_transfer r0)" "er_asset_id x = er_asset_id r0"
      using agree x r0(1) unfolding readings_agree_def by blast+
    moreover have "ot_block_hash (er_transfer x) \<in> {None, Some (ct_block_hash c)}"
      "ot_block_number (er_transfer x) \<in> {None, Some (ct_block_number c)}"
      using agree r0(2) field_agreesD [OF _ x r0(1), of "\<lambda>r. ot_block_hash (er_transfer r)" "ct_block_hash c"]
        field_agreesD [OF _ x r0(1), of "\<lambda>r. ot_block_number (er_transfer r)" "ct_block_number c"]
      unfolding readings_agree_def canonical_from_def Let_def by blast+
    ultimately show ?thesis
      using id [OF x] r0(2) rej(2) [OF x]
      by (simp add: canonical_from_def event_identity_def Let_def tx_hash.expand)
  qed
  have "fp_min_independent_groups policy \<le> card (er_provider_group ` set acc)"
    using ins(2) independent_groups_le [of acc] by linarith
  with ins(1,3) r0 per show ?thesis by blast
qed

definition sample_evidence_reading :: "uuid \<Rightarrow> string \<Rightarrow> observation_kind \<Rightarrow> instant \<Rightarrow> evidence_reading" where
  "sample_evidence_reading n g k at =
     \<lparr> er_observation_id = n, er_source_id = n, er_provider_group = g, er_source_kind = ''api'',
       er_source_principal = g, er_declared_principal = g, er_kind = k, er_asset_id = Some 4,
       er_collector_address_id = Some 7,
       er_transfer = (sample_transfer SF_Finalized)\<lparr> ot_block_time := Some at, ot_source_head := Some 30 \<rparr>,
       er_observed_at = 100 \<rparr>"

definition sample_finality_policy :: finality_policy where
  "sample_finality_policy =
     \<lparr> fp_id = 1, fp_version = ''f1'', fp_min_confirmations = 20,
       fp_required_source_finality = SF_Confirmed, fp_min_independent_groups = 2,
       fp_max_evidence_age_seconds = 60, fp_observed_at = 0 \<rparr>"

lemmas sample_verify_simps =
  verify_def verify_accepted_def ensure_one_event_def event_identity_def honest_def find_conflicts_def field_items_def
  COMPARED_FIELDS_def List.map_filter_simps rejection_def independent_groups_def insufficiency_def
  canonical_transfer_of_def kind_preference_def confirmations_def attestation_roles_def
  attestation_role_of_def decided_state_def sample_evidence_reading_def sample_transfer_def
  sample_finality_policy_def ref_add_secs_def nanos_per_sec_def instant_min_def instant_max_def
  u32_try_from_def u32_max_def i64_sat_sub_def i64_sat_def i64_min_def i64_max_def
  less_eq_source_finality_def less_source_finality_def max_def Let_def

definition sample_verdict :: "instant \<Rightarrow> verified_transfer" where
  "sample_verdict at =
     \<lparr> vt_transfer = \<lparr> ct_asset_id = 4, ct_collector_address_id = 7, ct_chain = ''tron'',
         ct_network = ''main'', ct_chain_environment = Mainnet, ct_tx_hash = TxHash ''ab'',
         ct_event_index = 0, ct_block_number = 1, ct_block_hash = ''b1'', ct_block_time = at,
         ct_token_key = AddressKey [1], ct_from_address = AddressKey [2], ct_from_address_text = [],
         ct_to_address = AddressKey [3], ct_to_address_text = [], ct_amount_raw = 7, ct_decimals = 6,
         ct_memo = None \<rparr>,
       vt_attestations = [(1, Reverify), (2, Reverify)], vt_independent_groups = 2,
       vt_had_own_node = False, vt_state = TS_Finalized, vt_confirmations = 29,
       vt_policy_version = ''f1'', vt_discarded = [] \<rparr>"

lemma sample_verify:
  "verify ref_add_secs ref_display_u256 ref_display_uuid
     [sample_evidence_reading 1 ''a'' TargetedLookup s, sample_evidence_reading 2 ''b'' TargetedLookup t]
     sample_finality_policy 200 = Inr (Verified (sample_verdict t))"
  "verify ref_add_secs ref_display_u256 ref_display_uuid
     [sample_evidence_reading 2 ''b'' TargetedLookup t, sample_evidence_reading 1 ''a'' TargetedLookup s]
     sample_finality_policy 200 = Inr (Verified (sample_verdict s))"
  by (simp_all add: sample_verify_simps sample_verdict_def)

theorem verify_sound_witness:
  "2 \<le> card {''a'', ''b''} \<and> canonical_from (sample_evidence_reading 2 ''b'' TargetedLookup 50) (vt_transfer (sample_verdict 50))"
proof -
  let ?rs = "[sample_evidence_reading 1 ''a'' TargetedLookup 50, sample_evidence_reading 2 ''b'' TargetedLookup 50]"
  have wf: "memos_wf ?rs" "filter honest ?rs = ?rs"
    by (simp_all add: memos_wf_def sample_evidence_reading_def sample_transfer_def honest_def)
  have same: "canonical_from (sample_evidence_reading 1 ''a'' TargetedLookup 50) c \<Longrightarrow>
      canonical_from (sample_evidence_reading 2 ''b'' TargetedLookup 50) c" for c
    by (simp add: canonical_from_def sample_evidence_reading_def)
  have "er_provider_group ` set ?rs = {''a'', ''b''}" "fp_min_independent_groups sample_finality_policy = 2"
    by (auto simp: sample_evidence_reading_def sample_finality_policy_def)
  then show ?thesis
    using verify_sound [OF ref_time.checked_time_axioms ref_text.u256_text_axioms ref_uuid.uuid_text_axioms
      wf(1) sample_verify(1), unfolded wf(2)] same by fastforce
qed


section \<open>Finality\<close>

lemma confirmations_cases:
  "confirmations rs n = 0 \<or>
   (\<exists>r\<in>set rs. \<exists>h. ot_source_head (er_transfer r) = Some h \<and> confirmations rs n = i64_sat_sub h n \<and> 0 < i64_sat_sub h n)"
proof -
  let ?ds = "map (\<lambda>head. i64_sat_sub head n) (List.map_filter (\<lambda>r. ot_source_head (er_transfer r)) rs)"
  show ?thesis
  proof (cases "?ds = []")
    case True
    then show ?thesis by (simp add: confirmations_def)
  next
    case False
    then have c: "confirmations rs n = max (Max (set ?ds)) 0"
      by (simp add: confirmations_def iter_max_eq)
    have "Max (set ?ds) \<in> set ?ds" using False by (intro Max_in) auto
    then obtain r h where "r \<in> set rs" "ot_source_head (er_transfer r) = Some h" "Max (set ?ds) = i64_sat_sub h n"
      by (auto simp: set_map_filter)
    with c show ?thesis by (cases "0 < i64_sat_sub h n") (auto simp: max_def)
  qed
qed

text \<open>C29: A verified transfer is final exactly when some counting source claims at least
  the finality the policy requires and the confirmation depth reaches the policy's
  minimum. The depth is zero or the distance from the block to the head some counting
  reading reported, and a verified transfer is never reported as merely observed or as
  invalidated.\<close>

theorem verify_finality:
  assumes "verify add_secs display_u256 display_uuid readings policy now = Inr (Verified v)"
  defines "acc \<equiv> filter honest readings" and "n \<equiv> ct_block_number (vt_transfer v)"
  shows "(vt_state v = TS_Finalized \<longleftrightarrow>
      (\<exists>r\<in>set acc. fp_required_source_finality policy \<le> ot_source_finality (er_transfer r)) \<and>
      fp_min_confirmations policy \<le> vt_confirmations v) \<and>
    vt_state v \<in> {TS_Canonical, TS_Confirmed, TS_Finalized} \<and>
    (vt_confirmations v = 0 \<or> (\<exists>r\<in>set acc. \<exists>h. ot_source_head (er_transfer r) = Some h \<and>
       vt_confirmations v = i64_sat_sub h n \<and> n < h))"
proof -
  let ?f = "\<lambda>r. ot_source_finality (er_transfer r)"
  have v: "acc \<noteq> []" "vt_confirmations v = confirmations acc n"
    "vt_state v = decided_state policy (Max (?f ` set acc)) (vt_confirmations v)"
    by (rule verify_VerifiedE [OF assms(1), folded acc_def n_def]; assumption)+
  have best: "x \<le> Max (?f ` set acc) \<longleftrightarrow> (\<exists>r\<in>set acc. x \<le> ?f r)" for x
    using v(1) by (subst Max_ge_iff) auto
  have "n < h" if "0 < i64_sat_sub h n" for h
    using that by (auto simp: i64_sat_sub_def i64_sat_def i64_min_def i64_max_def)
  then have "vt_confirmations v = 0 \<or> (\<exists>r\<in>set acc. \<exists>h. ot_source_head (er_transfer r) = Some h \<and>
       vt_confirmations v = i64_sat_sub h n \<and> n < h)"
    using v(2) confirmations_cases [of acc n] by metis
  moreover have "vt_state v \<in> {TS_Canonical, TS_Confirmed, TS_Finalized}"
    by (simp add: v(3) decided_state_def)
  moreover have "vt_state v = TS_Finalized \<longleftrightarrow>
      (\<exists>r\<in>set acc. fp_required_source_finality policy \<le> ?f r) \<and>
      fp_min_confirmations policy \<le> vt_confirmations v"
    by (simp add: v(3) decided_state_def best)
  ultimately show ?thesis by blast
qed

theorem verify_finality_witness:
  "vt_state (sample_verdict 50) = TS_Finalized \<and>
   fp_min_confirmations sample_finality_policy \<le> vt_confirmations (sample_verdict 50)"
  using verify_finality [OF sample_verify(1) [of 50 50]] by (simp add: sample_verdict_def)

section \<open>Impersonation and attestations\<close>

fun verdict_discarded :: "verdict \<Rightarrow> discarded_reading list" where
  "verdict_discarded (Verified v) = vt_discarded v"
| "verdict_discarded (Conflicted _ d) = d"
| "verdict_discarded (Insufficient _ d) = d"
| "verdict_discarded (Rejected _ d) = d"

fun without_discarded :: "verdict \<Rightarrow> verdict" where
  "without_discarded (Verified v) = Verified (v\<lparr> vt_discarded := [] \<rparr>)"
| "without_discarded (Conflicted c _) = Conflicted c []"
| "without_discarded (Insufficient r _) = Insufficient r []"
| "without_discarded (Rejected r _) = Rejected r []"

lemma verify_accepted_discarded:
  assumes "verify_accepted add_secs display_u256 display_uuid acc d policy now = Inr out"
  shows "verdict_discarded out = d \<and>
    verify_accepted add_secs display_u256 display_uuid acc [] policy now = Inr (without_discarded out)"
proof (cases "acc = [] \<or> find_conflicts display_u256 display_uuid acc \<noteq> [] \<or> rejection acc \<noteq> None")
  case True
  with assms show ?thesis by (auto simp: verify_accepted_def Let_def)
next
  case False
  then obtain y where i: "insufficiency add_secs acc (independent_groups acc) policy now = Inr y"
    using assms by (auto simp: verify_accepted_def Let_def result_simps)
  from False assms show ?thesis
    by (cases y; cases "canonical_transfer_of acc") (auto simp: verify_accepted_def Let_def i)
qed

text \<open>C30: A reading written under a principal its source is not registered under
  influences nothing: the verdict is the one of the remaining readings alone, except
  that each such reading is listed as discarded.\<close>

theorem verify_ignores_impersonation:
  assumes "verify add_secs display_u256 display_uuid readings policy now = Inr out"
  shows "\<exists>honest_out. verify add_secs display_u256 display_uuid (filter honest readings) policy now = Inr honest_out \<and>
    without_discarded honest_out = without_discarded out \<and> verdict_discarded honest_out = [] \<and>
    verdict_discarded out = map (\<lambda>r. (er_observation_id r, ImpersonatedSource)) (filter (\<lambda>r. \<not> honest r) readings)"
proof -
  from assms have "ensure_one_event readings = Inr ()" by (auto simp: verify_def result_simps)
  moreover from this have "ensure_one_event (filter honest readings) = Inr ()"
    by (simp add: ensure_one_event_iff)
  moreover have acc: "verify_accepted add_secs display_u256 display_uuid (filter honest readings)
      (map (\<lambda>r. (er_observation_id r, ImpersonatedSource)) (filter (\<lambda>r. \<not> honest r) readings)) policy now = Inr out"
    using assms calculation(1) by (simp add: verify_def Let_def)
  moreover have "verdict_discarded (without_discarded out) = []"
    "without_discarded (without_discarded out) = without_discarded out"
    by (cases out; simp)+
  ultimately show ?thesis
    using verify_accepted_discarded [OF acc] by (simp add: verify_def Let_def)
qed

theorem verify_ignores_impersonation_witness:
  "\<exists>honest_out. verify ref_add_secs ref_display_u256 ref_display_uuid
     (filter honest [(sample_evidence_reading 1 ''a'' TargetedLookup 50)\<lparr> er_source_principal := ''x'' \<rparr>])
     sample_finality_policy 200 = Inr honest_out \<and> verdict_discarded honest_out = []"
proof -
  have "verify ref_add_secs ref_display_u256 ref_display_uuid
     [(sample_evidence_reading 1 ''a'' TargetedLookup 50)\<lparr> er_source_principal := ''x'' \<rparr>]
     sample_finality_policy 200 = Inr (Insufficient NoEvidence [(1, ImpersonatedSource)])"
    by (simp add: sample_verify_simps)
  from verify_ignores_impersonation [OF this] show ?thesis by blast
qed

lemma attestation_fold:
  assumes "btree_ok m"
  shows "btree_ok (foldl (\<lambda>roles r. btree_insert (er_observation_id r) (attestation_role_of r) roles) m rs)
    \<and> map_of (foldl (\<lambda>roles r. btree_insert (er_observation_id r) (attestation_role_of r) roles) m rs) =
      map_of m ++ map_of (rev (map (\<lambda>r. (er_observation_id r, attestation_role_of r)) rs))"
  using assms
proof (induction rs arbitrary: m)
  case (Cons r rs)
  from Cons.IH [OF btree_insert_ok [OF Cons.prems]] show ?case
    by (simp add: btree_insert_map_of [OF Cons.prems] fun_eq_iff map_add_def split: option.splits)
qed simp

text \<open>The attestations of a verified transfer list each counting observation exactly
  once, in increasing order of its identifier, with its role: the verifier's own lookup
  re-verifies, another reading that claims finality attests finality, the rest detect.\<close>

theorem attestation_roles_exact:
  assumes "distinct (map er_observation_id rs)"
  shows "sorted_wrt (<) (map fst (attestation_roles rs)) \<and>
    set (attestation_roles rs) = (\<lambda>r. (er_observation_id r, attestation_role_of r)) ` set rs"
proof -
  let ?a = "attestation_roles rs" and ?l = "map (\<lambda>r. (er_observation_id r, attestation_role_of r)) rs"
  have ok: "btree_ok ?a" and m: "map_of ?a = map_of (rev ?l)"
    using attestation_fold [of "[]" rs] by (simp_all add: attestation_roles_def btree_ok_def)
  have "distinct (map fst ?a)"
    using ok by (simp add: btree_ok_def strict_sorted_iff)
  moreover have "distinct (map fst (rev ?l))" using assms by (simp add: rev_map [symmetric] comp_def)
  ultimately have "set ?a = set (rev ?l)" using m map_of_inject_set by blast
  with ok show ?thesis by (simp add: btree_ok_def)
qed

theorem attestation_roles_exact_witness:
  "set (attestation_roles [sample_evidence_reading 2 ''b'' CursorScan 50, sample_evidence_reading 1 ''a'' TargetedLookup 50])
   = {(1, Reverify), (2, Finality)}"
  using attestation_roles_exact [of "[sample_evidence_reading 2 ''b'' CursorScan 50,
      sample_evidence_reading 1 ''a'' TargetedLookup 50]"]
  by (auto simp: sample_evidence_reading_def attestation_role_of_def sample_transfer_def)

end
