(* ===== verification/Webhook.thy ===== *)
theory Webhook
  imports Chain
begin

text \<open>
  Webhook signatures of \<open>crates/gateway-domain/src/webhook.rs\<close>. HMAC-SHA-256 and SHA-256
  are libraries outside the repository: \<open>hmac key message\<close> is a parameter that answers
  nothing when the key is refused, and \<open>sha256\<close> another. The lemmas are about what is
  fed to them: which inputs are signed and that they cannot be confused.
\<close>

datatype webhook_error = WeakMasterKey

datatype signing_secret = SigningSecret (secret_bytes: "byte list")

definition MIN_MASTER_KEY_BYTES :: nat where
  "MIN_MASTER_KEY_BYTES = 32"

definition webhook_hex :: "byte list \<Rightarrow> string" where
  "webhook_hex bytes =
     concat (map (\<lambda>byte. [hex_digit (drop_bit 4 byte), hex_digit (and byte 15)]) bytes)"

definition derive_message :: "32 word \<Rightarrow> uuid \<Rightarrow> uuid \<Rightarrow> byte list" where
  "derive_message key_version merchant_id endpoint_id =
     str_bytes ''gateway-webhook-secret-v1'' @ be_bytes 4 key_version @
     be_bytes 16 merchant_id @ be_bytes 16 endpoint_id"

definition secret_derive ::
  "(byte list \<Rightarrow> byte list \<Rightarrow> byte list option) \<Rightarrow> byte list \<Rightarrow> 32 word \<Rightarrow> uuid \<Rightarrow> uuid
     \<Rightarrow> webhook_error + signing_secret" where
  "secret_derive hmac master_key key_version merchant_id endpoint_id =
     (if length master_key < MIN_MASTER_KEY_BYTES then Inl WeakMasterKey
      else bind_result (ok_or WeakMasterKey
             (hmac master_key (derive_message key_version merchant_id endpoint_id)))
           (\<lambda>bytes. Inr (SigningSecret bytes)))"

definition secret_expose :: "signing_secret \<Rightarrow> string" where
  "secret_expose s = webhook_hex (secret_bytes s)"

definition secret_fingerprint :: "(byte list \<Rightarrow> byte list) \<Rightarrow> signing_secret \<Rightarrow> byte list" where
  "secret_fingerprint sha256 s = sha256 (secret_bytes s)"

definition signed_message :: "int \<Rightarrow> byte list \<Rightarrow> byte list" where
  "signed_message timestamp_unix body = str_bytes (int_str timestamp_unix) @ str_bytes ''.'' @ body"

fun sign_all_loop ::
  "(byte list \<Rightarrow> byte list \<Rightarrow> byte list option) \<Rightarrow> signing_secret list \<Rightarrow> int \<Rightarrow> byte list \<Rightarrow> string \<Rightarrow> string" where
  "sign_all_loop hmac [] timestamp_unix body line = line"
| "sign_all_loop hmac (secret # secrets) timestamp_unix body line =
     (case hmac (secret_bytes secret) (signed_message timestamp_unix body) of
        None \<Rightarrow> sign_all_loop hmac secrets timestamp_unix body line
      | Some mac \<Rightarrow>
          sign_all_loop hmac secrets timestamp_unix body (line @ '',v1='' @ webhook_hex mac))"

definition sign_event_with_all ::
  "(byte list \<Rightarrow> byte list \<Rightarrow> byte list option) \<Rightarrow> signing_secret list \<Rightarrow> int \<Rightarrow> byte list \<Rightarrow> string" where
  "sign_event_with_all hmac secrets timestamp_unix body =
     sign_all_loop hmac secrets timestamp_unix body (''t='' @ int_str timestamp_unix)"

definition sign_event ::
  "(byte list \<Rightarrow> byte list \<Rightarrow> byte list option) \<Rightarrow> signing_secret \<Rightarrow> int \<Rightarrow> byte list \<Rightarrow> string" where
  "sign_event hmac secret timestamp_unix body =
     (case hmac (secret_bytes secret) (signed_message timestamp_unix body) of
        None \<Rightarrow> []
      | Some mac \<Rightarrow> ''t='' @ int_str timestamp_unix @ '',v1='' @ webhook_hex mac)"

section \<open>Lemmas\<close>

lemma webhook_hex_eq: "webhook_hex = bytes_to_hex"
  by (rule ext) (simp add: webhook_hex_def bytes_to_hex_def)

lemma derive_message_inj:
  "derive_message v m e = derive_message v' m' e' \<longleftrightarrow> v = v' \<and> m = m' \<and> e = e'"
proof
  assume "derive_message v m e = derive_message v' m' e'"
  then have "be_bytes 4 v = be_bytes 4 v'" "be_bytes 16 m = be_bytes 16 m'" "be_bytes 16 e = be_bytes 16 e'"
    by (simp_all add: derive_message_def append_eq_append_conv)
  then show "v = v' \<and> m = m' \<and> e = e'"
    by (auto intro: be_bytes_inj [of 4] be_bytes_inj [of 16])
qed simp

text \<open>C36: Every endpoint has its own secret input. The bytes authenticated to derive a
  secret determine the key version, the merchant and the endpoint, so two different
  endpoints, or two versions of one, share a secret only through a collision of HMAC
  under the master key; a master key shorter than 32 bytes derives nothing.\<close>

theorem secret_derive_separates:
  "(length master_key < 32 \<longrightarrow> secret_derive hmac master_key v m e = Inl WeakMasterKey) \<and>
   (secret_derive hmac master_key v m e = Inr s \<longrightarrow> secret_derive hmac master_key v' m' e' = Inr s \<longrightarrow>
      (v, m, e) = (v', m', e') \<or> (\<exists>a b. a \<noteq> b \<and> hmac master_key a = hmac master_key b))"
proof (intro conjI impI)
  show "secret_derive hmac master_key v m e = Inl WeakMasterKey" if "length master_key < 32"
    using that by (simp add: secret_derive_def MIN_MASTER_KEY_BYTES_def)
  assume "secret_derive hmac master_key v m e = Inr s" "secret_derive hmac master_key v' m' e' = Inr s"
  then have "hmac master_key (derive_message v m e) = hmac master_key (derive_message v' m' e')"
    by (auto simp: secret_derive_def result_simps split: if_splits)
  then show "(v, m, e) = (v', m', e') \<or> (\<exists>a b. a \<noteq> b \<and> hmac master_key a = hmac master_key b)"
    using derive_message_inj [of v m e v' m' e'] by auto
qed

theorem secret_derive_separates_witness:
  "secret_derive (\<lambda>k d. Some d) (replicate 31 0) 1 2 3 = Inl WeakMasterKey \<and>
   secret_derive (\<lambda>k d. Some d) (replicate 32 0) 1 2 3 \<noteq> secret_derive (\<lambda>k d. Some d) (replicate 32 0) 1 2 4"
proof -
  let ?h = "\<lambda>k d. Some d :: byte list option" and ?k = "replicate 32 0 :: byte list"
  have e: "secret_derive ?h ?k 1 2 n = Inr (SigningSecret (derive_message 1 2 n))" for n
    by (simp add: secret_derive_def MIN_MASTER_KEY_BYTES_def)
  have "secret_derive ?h ?k 1 2 3 \<noteq> secret_derive ?h ?k 1 2 4"
    using secret_derive_separates [of ?k ?h 1 2 3 "SigningSecret (derive_message 1 2 3)" 1 2 4] e by auto
  moreover have "secret_derive ?h (replicate 31 0) 1 2 3 = Inl WeakMasterKey"
    using secret_derive_separates [of "replicate 31 0" ?h 1 2 3 "SigningSecret []" 1 2 4] by simp
  ultimately show ?thesis by simp
qed

lemma int_str_no_dot: "CHR ''.'' \<notin> set (int_str t)"
  using nat_str_digits [of "nat t"] nat_str_digits [of "nat (- t)"]
  by (auto simp: int_str_def list_all_iff is_ascii_digit_def)

lemma split_first_unique:
  "a @ x # b = c @ x # d \<Longrightarrow> x \<notin> set a \<Longrightarrow> x \<notin> set c \<Longrightarrow> a = c \<and> b = d"
  by (induction a arbitrary: c) (auto simp: Cons_eq_append_conv)

lemma str_bytes_mem: "of_nat (of_char x) \<in> set (str_bytes s) \<longleftrightarrow> x \<in> set s"
proof
  assume "of_nat (of_char x) \<in> set (str_bytes s)"
  then obtain y where "y \<in> set s" "str_bytes [x] = str_bytes [y]" by (auto simp: str_bytes_def)
  then show "x \<in> set s" using str_bytes_inj [of "[x]" "[y]"] by simp
qed (auto simp: str_bytes_def)

lemma str_bytes_append: "str_bytes (s @ t) = str_bytes s @ str_bytes t"
  by (simp add: str_bytes_def)

text \<open>C35: A signature binds the timestamp and the body together: the authenticated bytes
  of two events are equal only if their timestamps and their bodies are, so a captured
  delivery cannot be presented with another timestamp. With several secrets the line
  carries one value per accepted secret, in order, and with one secret it is the line of
  \<open>sign_event\<close>.\<close>

theorem sign_event_binds:
  "(signed_message t b = signed_message t' b' \<longleftrightarrow> t = t' \<and> b = b') \<and>
   sign_event_with_all hmac secrets t b =
     ''t='' @ int_str t @ concat (map (\<lambda>mac. '',v1='' @ webhook_hex mac)
       (List.map_filter (\<lambda>s. hmac (secret_bytes s) (signed_message t b)) secrets)) \<and>
   (hmac (secret_bytes s) (signed_message t b) \<noteq> None \<longrightarrow> sign_event_with_all hmac [s] t b = sign_event hmac s t b)"
proof -
  let ?dot = "of_nat (of_char (CHR ''.'')) :: byte"
  have m: "signed_message u c = str_bytes (int_str u) @ ?dot # c" for u c
    by (simp add: signed_message_def str_bytes_def)
  have nd: "?dot \<notin> set (str_bytes (int_str u))" for u
    using int_str_no_dot [of u] str_bytes_mem [of "CHR ''.''" "int_str u"] by simp
  have "t = t' \<and> b = b'" if "signed_message t b = signed_message t' b'"
  proof -
    from split_first_unique [OF that [unfolded m] nd nd]
    have "str_bytes (int_str t) = str_bytes (int_str t')" "b = b'" by auto
    then show ?thesis by (simp add: str_bytes_inj int_str_inj)
  qed
  moreover have "sign_all_loop hmac secrets t b line = line @ concat (map (\<lambda>mac. '',v1='' @ webhook_hex mac)
       (List.map_filter (\<lambda>s. hmac (secret_bytes s) (signed_message t b)) secrets))" for line
    by (induction secrets arbitrary: line) (auto simp: List.map_filter_simps split: option.splits)
  ultimately show ?thesis
    by (auto simp: sign_event_with_all_def sign_event_def)
qed

theorem sign_event_binds_witness:
  "sign_event_with_all (\<lambda>k d. Some d) [SigningSecret [1]] 5 [7] = sign_event (\<lambda>k d. Some d) (SigningSecret [1]) 5 [7]"
  using sign_event_binds [of 5 "[7]" 5 "[7]" "\<lambda>k d. Some d" "[]" "SigningSecret [1]"] by simp

end
