(* ===== verification/Idempotency.thy ===== *)
theory Idempotency
  imports Chain
begin

text \<open>
  What the services share about idempotent requests: the form of an idempotency key, which
  the intent, quote, operator and redelivery services each check, and the digest of a
  request's fields, each framed by its length, under which the key is stored.
\<close>

section \<open>Keys\<close>

definition idempotency_key_ok :: "string \<Rightarrow> bool" where
  "idempotency_key_ok key \<longleftrightarrow> 16 \<le> length key \<and> length key \<le> 128 \<and>
     list_all (\<lambda>c. is_ascii_alphanumeric c \<or> c = CHR ''-'' \<or> c = CHR ''_'') key"

section \<open>Request digests\<close>

definition request_digest :: "(byte list \<Rightarrow> byte list) \<Rightarrow> string list \<Rightarrow> byte list" where
  "request_digest sha256 parts = sha256 (concat (map framed64 (map str_bytes parts)))"

text \<open>A field that is absent is hashed as the empty text.\<close>

definition opt_text :: "('a \<Rightarrow> string) \<Rightarrow> 'a option \<Rightarrow> string" where
  "opt_text display v = (case v of None \<Rightarrow> [] | Some x \<Rightarrow> display x)"

text \<open>Texts are shorter than \<open>2 ^ 64\<close> bytes: \<open>usize\<close> has at most 64 bits.\<close>

definition text_sized :: "string \<Rightarrow> bool" where
  "text_sized s \<longleftrightarrow> length s < 2 ^ 64"

lemma opt_text_eq_iff:
  assumes "\<And>x. display x \<noteq> []" "\<And>x y. display x = display y \<longleftrightarrow> x = y"
  shows "opt_text display a = opt_text display b \<longleftrightarrow> a = b"
  using assms assms(1) [symmetric] by (cases a; cases b) (auto simp: opt_text_def)

text \<open>Equal digests mean equal fields, or exhibit a collision of SHA-256.\<close>

lemma request_digest_binds:
  assumes "list_all text_sized xs" "list_all text_sized ys"
    and "request_digest sha256 xs = request_digest sha256 ys"
  shows "xs = ys \<or> (\<exists>a b. a \<noteq> b \<and> sha256 a = sha256 b)"
proof (cases "concat (map framed64 (map str_bytes xs)) = concat (map framed64 (map str_bytes ys))")
  case True
  have "map str_bytes xs = map str_bytes ys"
    by (rule framed64_inj [OF _ _ True]) (use assms(1,2) in \<open>auto simp: list_all_iff text_sized_def\<close>)
  moreover have "inj str_bytes" by (simp add: inj_def str_bytes_inj)
  ultimately show ?thesis by (simp add: inj_map_eq_map)
next
  case False
  with assms(3) show ?thesis by (auto simp: request_digest_def)
qed

end
