(* ===== verification/Ports.thy ===== *)
theory Ports
  imports Gateway_Prelude
begin

text \<open>
  The errors every repository reports and the component lease every worker presents,
  from \<open>crates/gateway-application/src/ports.rs\<close> and
  \<open>crates/gateway-application/src/observations.rs\<close>. The text of a storage outage is the
  database driver's; where the model produces one it holds the name of the constraint
  that refused the statement.
\<close>

datatype repository_error =
    IdempotencyConflict
  | DuplicateReference
  | PaymentIntentNotQuotable
  | PaymentIntentNotCancellable
  | CollectorUnavailable
  | AmountSlotsExhausted
  | CorruptData string
  | LeaseLost
  | TransitionRefused string
  | StorageUnavailable string

fun repository_is_transient :: "repository_error \<Rightarrow> bool" where
  "repository_is_transient (StorageUnavailable _) = True"
| "repository_is_transient _ = False"

record component_lease =
  cl_component :: string
  cl_holder :: string
  cl_fence_token :: int
  cl_lease_until :: instant

end
