(* ===== verification/Redelivery.thy ===== *)
theory Redelivery
  imports Idempotency Ports
begin

text \<open>
  Requests to send a webhook event again, from
  \<open>crates/gateway-application/src/redelivery.rs\<close>: who asks, for what, and the digest the
  idempotency key is bound to. SHA-256 and the printer of identifiers are parameters.
\<close>

datatype redelivery_actor = RA_OperatorKey uuid string | RA_Admin string

definition redelivery_principal :: "(uuid \<Rightarrow> string) \<Rightarrow> redelivery_actor \<Rightarrow> string" where
  "redelivery_principal display_uuid actor =
     (case actor of RA_OperatorKey key_id _ \<Rightarrow> ''operator_key:'' @ display_uuid key_id
      | RA_Admin name \<Rightarrow> ''admin:'' @ name)"

definition redelivery_label :: "redelivery_actor \<Rightarrow> string" where
  "redelivery_label actor = (case actor of RA_OperatorKey _ label \<Rightarrow> label | RA_Admin name \<Rightarrow> name)"

definition redelivery_operator_key_id :: "redelivery_actor \<Rightarrow> uuid option" where
  "redelivery_operator_key_id actor = (case actor of RA_OperatorKey key_id _ \<Rightarrow> Some key_id | RA_Admin _ \<Rightarrow> None)"

record webhook_redelivery =
  rq_event_id :: uuid
  rq_endpoint_id :: "uuid option"
  rq_reason :: string

record redelivery_result =
  rr_id :: uuid
  rr_event_id :: uuid
  rr_merchant_id :: uuid
  rr_endpoint_id :: "uuid option"
  rr_previous_state :: string
  rr_previous_attempts :: int
  rr_requested_at :: instant
  rr_replayed :: bool

datatype redelivery_error =
    RE_InvalidIdempotencyKey
  | RE_ReasonRequired
  | RE_EventNotFound
  | RE_EndpointNotFound
  | RE_StillQueued
  | RE_NotAWebhook
  | RE_IdempotencyConflict
  | RE_Repository repository_error

definition validate_redelivery ::
  "(byte list \<Rightarrow> byte list) \<Rightarrow> (uuid \<Rightarrow> string) \<Rightarrow> string \<Rightarrow> webhook_redelivery
     \<Rightarrow> redelivery_error + byte list" where
  "validate_redelivery sha256 display_uuid idempotency_key request =
     (if \<not> idempotency_key_ok idempotency_key then Inl RE_InvalidIdempotencyKey
      else if \<not> (1 \<le> char_count (str_trim (rq_reason request)) \<and>
                 char_count (str_trim (rq_reason request)) \<le> 1000)
      then Inl RE_ReasonRequired
      else Inr (request_digest sha256 [display_uuid (rq_event_id request),
             opt_text display_uuid (rq_endpoint_id request), rq_reason request]))"

text \<open>The principal of a key is never the principal of a person.\<close>

lemma principal_separates: "redelivery_principal d (RA_OperatorKey k l) \<noteq> redelivery_principal d (RA_Admin name)"
  by (simp add: redelivery_principal_def)

context uuid_text
begin

lemma principal_inj:
  "redelivery_principal display_uuid a = redelivery_principal display_uuid b \<longleftrightarrow>
     redelivery_operator_key_id a = redelivery_operator_key_id b \<and>
     (redelivery_operator_key_id a = None \<longrightarrow> redelivery_label a = redelivery_label b)"
  by (cases a; cases b)
    (simp_all add: redelivery_principal_def redelivery_operator_key_id_def redelivery_label_def display_uuid_inj)

lemma display_uuid_not_Nil: "display_uuid a \<noteq> []"
  using display_uuid_length [of a] by auto

lemma opt_uuid_inj: "opt_text display_uuid a = opt_text display_uuid b \<longleftrightarrow> a = b"
  by (rule opt_text_eq_iff) (simp_all add: display_uuid_not_Nil display_uuid_inj)

lemma uuid_sized: "text_sized (display_uuid a)" "text_sized (opt_text display_uuid o')"
  by (cases o'; simp add: text_sized_def opt_text_def display_uuid_length)+

lemma validate_redelivery_binds:
  assumes "validate_redelivery sha256 display_uuid k request = Inr h"
    and "validate_redelivery sha256 display_uuid k' request' = Inr h"
    and "text_sized (rq_reason request)" "text_sized (rq_reason request')"
  shows "request = request' \<or> (\<exists>a b. a \<noteq> b \<and> sha256 a = sha256 b)"
proof -
  from assms(1,2) have eq: "request_digest sha256 [display_uuid (rq_event_id request),
        opt_text display_uuid (rq_endpoint_id request), rq_reason request] =
      request_digest sha256 [display_uuid (rq_event_id request'),
        opt_text display_uuid (rq_endpoint_id request'), rq_reason request']"
    by (auto simp: validate_redelivery_def split: if_splits)
  from request_digest_binds [OF _ _ eq] assms(3,4) uuid_sized show ?thesis
    by (auto simp: display_uuid_inj opt_uuid_inj)
qed

end

end
