(* ===== verification/Settlement.thy ===== *)
theory Settlement
  imports Chain
begin

text \<open>
  The settlement rules of \<open>crates/gateway-domain/src/settlement.rs\<close>: tying a transfer to
  at most one payment attempt, choosing the policy band for an amount, and deciding what
  may happen to the money.

  The lemmas characterise \<open>match_transfer\<close> by the three candidate lists it inspects,
  show that a match is never a guess and that disjoint leases leave nothing ambiguous,
  and show that \<open>decide_settlement\<close> moves money under exactly the stated conditions,
  conserves it, and never allocates more than was owed.
\<close>

section \<open>Data\<close>

datatype attempt_status = AS_AwaitingPayment | AS_Expired | AS_Cancelled | AS_Settled

datatype settlement_error =
    UnknownAttemptStatus string
  | UnknownRiskDecision string
  | AmountOverflow

definition attempt_status_as_str :: "attempt_status \<Rightarrow> string" where
  "attempt_status_as_str s =
     (case s of AS_AwaitingPayment \<Rightarrow> ''awaiting_payment'' | AS_Expired \<Rightarrow> ''expired''
      | AS_Cancelled \<Rightarrow> ''cancelled'' | AS_Settled \<Rightarrow> ''settled'')"

definition attempt_status_parse :: "string \<Rightarrow> settlement_error + attempt_status" where
  "attempt_status_parse value =
     (if value = ''awaiting_payment'' then Inr AS_AwaitingPayment
      else if value = ''expired'' then Inr AS_Expired
      else if value = ''cancelled'' then Inr AS_Cancelled
      else if value = ''settled'' then Inr AS_Settled
      else Inl (UnknownAttemptStatus value))"

record attempt_candidate =
  ac_attempt_id :: uuid
  ac_payment_intent_id :: uuid
  ac_merchant_id :: uuid
  ac_collector_address_id :: uuid
  ac_expected_amount_raw :: raw_amount
  ac_memo_reference :: "memo option"
  ac_leased_from :: instant
  ac_leased_until :: instant
  ac_quote_expires_at :: instant
  ac_status :: attempt_status

record transfer_facts =
  tf_transfer_id :: uuid
  tf_collector_address_id :: uuid
  tf_amount_raw :: raw_amount
  tf_memo :: "memo option"
  tf_block_time :: instant
  tf_state :: transfer_state

datatype match_strategy = MS_Memo | MS_ExactAmount | MS_HistoricalSlot | MS_Manual

definition match_strategy_as_str :: "match_strategy \<Rightarrow> string" where
  "match_strategy_as_str s =
     (case s of MS_Memo \<Rightarrow> ''memo'' | MS_ExactAmount \<Rightarrow> ''exact_amount''
      | MS_HistoricalSlot \<Rightarrow> ''historical_slot'' | MS_Manual \<Rightarrow> ''manual'')"

datatype manual_resolution_action = MRA_Honor | MRA_Reject | MRA_RecordRemainderDisposition

definition manual_resolution_action_as_str :: "manual_resolution_action \<Rightarrow> string" where
  "manual_resolution_action_as_str a =
     (case a of MRA_Honor \<Rightarrow> ''honor'' | MRA_Reject \<Rightarrow> ''reject''
      | MRA_RecordRemainderDisposition \<Rightarrow> ''record_remainder_disposition'')"

datatype remainder_disposition =
  RefundedExternally | CreditedExternally | DonatedExternally | RetainedByAgreement

definition remainder_disposition_as_str :: "remainder_disposition \<Rightarrow> string" where
  "remainder_disposition_as_str d =
     (case d of RefundedExternally \<Rightarrow> ''refunded_externally''
      | CreditedExternally \<Rightarrow> ''credited_externally''
      | DonatedExternally \<Rightarrow> ''donated_externally''
      | RetainedByAgreement \<Rightarrow> ''retained_by_agreement'')"

datatype match_outcome =
    Matched uuid uuid match_strategy bool
  | Ambiguous "uuid list"
  | Unmatched

section \<open>Matching\<close>

definition matched :: "attempt_candidate \<Rightarrow> match_strategy \<Rightarrow> transfer_facts \<Rightarrow> match_outcome" where
  "matched candidate strategy transfer =
     Matched (ac_attempt_id candidate) (ac_payment_intent_id candidate) strategy
       (\<not> (ac_status candidate = AS_AwaitingPayment \<or> ac_status candidate = AS_Expired) \<or>
        tf_block_time transfer \<ge> ac_quote_expires_at candidate)"

definition ambiguous :: "attempt_candidate list \<Rightarrow> match_outcome" where
  "ambiguous candidates = Ambiguous (sort (map ac_attempt_id candidates))"

definition match_transfer :: "transfer_facts \<Rightarrow> attempt_candidate list \<Rightarrow> match_outcome" where
  "match_transfer transfer candidates =
     (let on_address = filter (\<lambda>c. ac_collector_address_id c = tf_collector_address_id transfer) candidates;
          by_memo = (case tf_memo transfer of
              Some memo \<Rightarrow> filter (\<lambda>c. ac_memo_reference c = Some memo) on_address
            | None \<Rightarrow> []);
          live = filter (\<lambda>c. ac_expected_amount_raw c = tf_amount_raw transfer \<and>
              ac_status c = AS_AwaitingPayment \<and>
              tf_block_time transfer \<ge> ac_leased_from c \<and>
              tf_block_time transfer < ac_leased_until c) on_address;
          historical = filter (\<lambda>c. ac_expected_amount_raw c = tf_amount_raw transfer \<and>
              tf_block_time transfer \<ge> ac_leased_from c \<and>
              tf_block_time transfer < ac_leased_until c) on_address
      in case by_memo of
           [single] \<Rightarrow> matched single MS_Memo transfer
         | [] \<Rightarrow> (case live of
               [single] \<Rightarrow> matched single MS_ExactAmount transfer
             | [] \<Rightarrow> (case historical of
                   [single] \<Rightarrow> matched single MS_HistoricalSlot transfer
                 | [] \<Rightarrow> Unmatched
                 | many \<Rightarrow> ambiguous many)
             | many \<Rightarrow> ambiguous many)
         | many \<Rightarrow> ambiguous many)"

section \<open>Deciding\<close>

datatype risk_decision = RD_Allow | RD_Review | RD_Deny | RD_Skipped

definition risk_decision_as_str :: "risk_decision \<Rightarrow> string" where
  "risk_decision_as_str r =
     (case r of RD_Allow \<Rightarrow> ''allow'' | RD_Review \<Rightarrow> ''review'' | RD_Deny \<Rightarrow> ''deny''
      | RD_Skipped \<Rightarrow> ''skipped'')"

definition risk_decision_parse :: "string \<Rightarrow> settlement_error + risk_decision" where
  "risk_decision_parse value =
     (if value = ''allow'' then Inr RD_Allow
      else if value = ''review'' then Inr RD_Review
      else if value = ''deny'' then Inr RD_Deny
      else if value = ''skipped'' then Inr RD_Skipped
      else Inl (UnknownRiskDecision value))"

record settlement_tier =
  st_max_fiat_minor :: int
  st_min_independent_groups :: nat
  st_require_own_node :: bool
  st_require_risk_allow :: bool
  st_auto_settle :: bool

record settlement_policy =
  sp_id :: uuid
  sp_version :: string
  sp_tiers :: "settlement_tier list"

definition tier_for :: "settlement_policy \<Rightarrow> int \<Rightarrow> settlement_tier option" where
  "tier_for policy fiat_minor =
     min_by_key st_max_fiat_minor (filter (\<lambda>tier. st_max_fiat_minor tier \<ge> fiat_minor) (sp_tiers policy))"

record settlement_evidence =
  se_fiat_amount_minor :: int
  se_expected_amount_raw :: raw_amount
  se_already_allocated_raw :: raw_amount
  se_transfer_amount_raw :: raw_amount
  se_transfer_state :: transfer_state
  se_independent_groups :: nat
  se_had_own_node :: bool
  se_risk :: risk_decision
  se_attempt_status :: attempt_status
  se_late :: bool

datatype hold_reason = HR_NotFinal | HR_Invalidated | HR_RiskDenied | HR_AlreadyCovered | HR_Cancelled

definition hold_reason_as_str :: "hold_reason \<Rightarrow> string" where
  "hold_reason_as_str r =
     (case r of HR_NotFinal \<Rightarrow> ''not_final'' | HR_Invalidated \<Rightarrow> ''invalidated''
      | HR_RiskDenied \<Rightarrow> ''risk_denied'' | HR_AlreadyCovered \<Rightarrow> ''already_covered''
      | HR_Cancelled \<Rightarrow> ''cancelled'')"

datatype manual_reason =
    MR_AboveAutomaticBand
  | MR_NotEnoughIndependentGroups
  | MR_OwnNodeRequired
  | MR_RiskReview
  | MR_LatePayment
  | MR_UncoveredAmount

definition manual_reason_as_str :: "manual_reason \<Rightarrow> string" where
  "manual_reason_as_str r =
     (case r of MR_AboveAutomaticBand \<Rightarrow> ''above_automatic_band''
      | MR_NotEnoughIndependentGroups \<Rightarrow> ''not_enough_independent_groups''
      | MR_OwnNodeRequired \<Rightarrow> ''own_node_required''
      | MR_RiskReview \<Rightarrow> ''risk_review''
      | MR_LatePayment \<Rightarrow> ''late_payment''
      | MR_UncoveredAmount \<Rightarrow> ''uncovered_amount'')"

datatype settlement_outcome =
    Settle raw_amount
  | Partial raw_amount
  | Overpaid raw_amount raw_amount
  | Hold hold_reason
  | ManualRequired manual_reason

definition decide_settlement ::
  "settlement_evidence \<Rightarrow> settlement_policy \<Rightarrow> settlement_error + settlement_outcome" where
  "decide_settlement evidence policy =
     (if se_transfer_state evidence = TS_Invalidated then Inr (Hold HR_Invalidated)
      else if se_transfer_state evidence \<noteq> TS_Finalized then Inr (Hold HR_NotFinal)
      else if se_attempt_status evidence = AS_Cancelled then Inr (Hold HR_Cancelled)
      else if se_risk evidence = RD_Deny then Inr (Hold HR_RiskDenied)
      else case tier_for policy (se_fiat_amount_minor evidence) of
        None \<Rightarrow> Inr (ManualRequired MR_UncoveredAmount)
      | Some tier \<Rightarrow>
          if \<not> st_auto_settle tier then Inr (ManualRequired MR_AboveAutomaticBand)
          else if se_independent_groups evidence < st_min_independent_groups tier
          then Inr (ManualRequired MR_NotEnoughIndependentGroups)
          else if st_require_own_node tier \<and> \<not> se_had_own_node evidence
          then Inr (ManualRequired MR_OwnNodeRequired)
          else if st_require_risk_allow tier \<and> se_risk evidence \<noteq> RD_Allow
          then Inr (ManualRequired MR_RiskReview)
          else if se_late evidence then Inr (ManualRequired MR_LatePayment)
          else let expected = se_expected_amount_raw evidence;
                   allocated = se_already_allocated_raw evidence;
                   arriving = se_transfer_amount_raw evidence
               in case checked_sub expected allocated of
                    None \<Rightarrow> Inr (Hold HR_AlreadyCovered)
                  | Some outstanding \<Rightarrow>
                      if outstanding = 0 then Inr (Hold HR_AlreadyCovered)
                      else if arriving > outstanding then
                        bind_result (ok_or AmountOverflow (checked_sub arriving outstanding)) (\<lambda>remainder.
                        bind_result (map_err (\<lambda>_. AmountOverflow) (raw_positive outstanding)) (\<lambda>allocate_raw.
                        bind_result (map_err (\<lambda>_. AmountOverflow) (raw_positive remainder)) (\<lambda>remainder_raw.
                        Inr (Overpaid allocate_raw remainder_raw))))
                      else if arriving = outstanding then Inr (Settle arriving)
                      else Inr (Partial arriving))"

section \<open>Matching is never a guess\<close>

lemma list_of_2_cases:
  obtains (nil) "xs = []" | (one) x where "xs = [x]" | (many) x y zs where "xs = x # y # zs"
  by (cases xs; cases "tl xs") auto

definition on_collector :: "transfer_facts \<Rightarrow> attempt_candidate \<Rightarrow> bool" where
  "on_collector t c \<longleftrightarrow> ac_collector_address_id c = tf_collector_address_id t"

text \<open>The candidate carries the transfer's memo.\<close>

definition fits_memo :: "transfer_facts \<Rightarrow> attempt_candidate \<Rightarrow> bool" where
  "fits_memo t c \<longleftrightarrow> on_collector t c \<and> tf_memo t \<noteq> None \<and> ac_memo_reference c = tf_memo t"

text \<open>The exact amount was reserved for the candidate when the block was produced.\<close>

definition fits_slot :: "transfer_facts \<Rightarrow> attempt_candidate \<Rightarrow> bool" where
  "fits_slot t c \<longleftrightarrow> on_collector t c \<and> ac_expected_amount_raw c = tf_amount_raw t \<and>
     ac_leased_from c \<le> tf_block_time t \<and> tf_block_time t < ac_leased_until c"

definition fits_live :: "transfer_facts \<Rightarrow> attempt_candidate \<Rightarrow> bool" where
  "fits_live t c \<longleftrightarrow> fits_slot t c \<and> ac_status c = AS_AwaitingPayment"

definition is_late :: "transfer_facts \<Rightarrow> attempt_candidate \<Rightarrow> bool" where
  "is_late t c \<longleftrightarrow> ac_status c \<in> {AS_Cancelled, AS_Settled} \<or> ac_quote_expires_at c \<le> tf_block_time t"

text \<open>The first list of candidates that is not empty decides.\<close>

definition deciding :: "transfer_facts \<Rightarrow> attempt_candidate list \<Rightarrow> (match_strategy \<times> attempt_candidate list) option" where
  "deciding t cs = find (\<lambda>(_, xs). xs \<noteq> [])
     [(MS_Memo, filter (fits_memo t) cs), (MS_ExactAmount, filter (fits_live t) cs),
      (MS_HistoricalSlot, filter (fits_slot t) cs)]"

lemma matched_is_late: "matched c s t = Matched (ac_attempt_id c) (ac_payment_intent_id c) s (is_late t c)"
  by (cases "ac_status c") (auto simp: matched_def is_late_def)

lemma match_transfer_deciding:
  "match_transfer t cs =
     (case deciding t cs of
        None \<Rightarrow> Unmatched
      | Some (s, xs) \<Rightarrow> (case xs of [c] \<Rightarrow> matched c s t | _ \<Rightarrow> ambiguous xs))"
proof -
  have m: "(case tf_memo t of
        Some memo \<Rightarrow> filter (\<lambda>c. ac_memo_reference c = Some memo)
          (filter (\<lambda>c. ac_collector_address_id c = tf_collector_address_id t) cs)
      | None \<Rightarrow> []) = filter (fits_memo t) cs"
    by (cases "tf_memo t") (auto simp: fits_memo_def on_collector_def intro: filter_cong)
  have l: "filter (\<lambda>c. ac_expected_amount_raw c = tf_amount_raw t \<and> ac_status c = AS_AwaitingPayment \<and>
        tf_block_time t \<ge> ac_leased_from c \<and> tf_block_time t < ac_leased_until c)
        (filter (\<lambda>c. ac_collector_address_id c = tf_collector_address_id t) cs) = filter (fits_live t) cs"
    by (auto simp: fits_live_def fits_slot_def on_collector_def intro: filter_cong)
  have h: "filter (\<lambda>c. ac_expected_amount_raw c = tf_amount_raw t \<and>
        tf_block_time t \<ge> ac_leased_from c \<and> tf_block_time t < ac_leased_until c)
        (filter (\<lambda>c. ac_collector_address_id c = tf_collector_address_id t) cs) = filter (fits_slot t) cs"
    by (auto simp: fits_slot_def on_collector_def intro: filter_cong)
  show ?thesis
    unfolding match_transfer_def Let_def m l h deciding_def
    by (auto split: list.splits)
qed

text \<open>C23: A transfer is credited only where nothing else fits. \<open>match_transfer\<close> answers
  with an attempt exactly when the deciding list of candidates on the transfer's
  collector address, the memo hits, else the live reservations of the exact amount,
  else the historical ones, consists of that one attempt; the payment is late exactly
  when the attempt was cancelled or settled or the block came after the quote expired.
  Nothing is matched exactly when no candidate carries the memo and none held the amount
  at the block's time, and every other case is reported as ambiguous with the sorted
  attempt identifiers of the deciding list.\<close>

theorem match_transfer_exact:
  fixes t cs
  defines "memos \<equiv> filter (fits_memo t) cs" and "live \<equiv> filter (fits_live t) cs"
    and "slots \<equiv> filter (fits_slot t) cs"
  defines "first \<equiv> (if memos \<noteq> [] then (MS_Memo, memos)
    else if live \<noteq> [] then (MS_ExactAmount, live) else (MS_HistoricalSlot, slots))"
  shows "(match_transfer t cs = Matched a i s late \<longleftrightarrow>
      (\<exists>c. first = (s, [c]) \<and> a = ac_attempt_id c \<and> i = ac_payment_intent_id c \<and> late = is_late t c)) \<and>
    (match_transfer t cs = Unmatched \<longleftrightarrow> memos = [] \<and> slots = []) \<and>
    (match_transfer t cs = Ambiguous ids \<longleftrightarrow>
      2 \<le> length (snd first) \<and> ids = sort (map ac_attempt_id (snd first)))"
proof -
  have ls: "live = []" if "slots = []"
    using that by (auto simp: live_def slots_def fits_live_def filter_empty_conv)
  have d: "deciding t cs = (if snd first = [] then None else Some first)"
    by (simp add: deciding_def first_def memos_def live_def slots_def)
  have u: "snd first = [] \<longleftrightarrow> memos = [] \<and> slots = []"
    using ls by (auto simp: first_def)
  obtain s' xs where f: "first = (s', xs)" by (cases first)
  show ?thesis
  proof (cases xs rule: list_of_2_cases)
    case nil
    with d f u show ?thesis by (simp add: match_transfer_deciding)
  next
    case (one c)
    with d f u show ?thesis by (auto simp: match_transfer_deciding matched_is_late)
  next
    case (many x y zs)
    with d f have "match_transfer t cs = ambiguous xs" by (simp add: match_transfer_deciding)
    with many f u show ?thesis by (auto simp: ambiguous_def)
  qed
qed

text \<open>No two candidates reserve the same amount on the same address at the same time.\<close>

definition leases_disjoint :: "attempt_candidate list \<Rightarrow> bool" where
  "leases_disjoint cs \<longleftrightarrow>
     sorted_wrt (\<lambda>c d. ac_collector_address_id c = ac_collector_address_id d \<longrightarrow>
       ac_expected_amount_raw c = ac_expected_amount_raw d \<longrightarrow>
       ac_leased_until c \<le> ac_leased_from d \<or> ac_leased_until d \<le> ac_leased_from c) cs"

lemma leases_disjoint_slots:
  assumes "leases_disjoint cs"
  shows "length (filter (fits_slot t) cs) \<le> 1"
  using assms
proof (induction cs)
  case (Cons c cs)
  then have IH: "length (filter (fits_slot t) cs) \<le> 1" by (simp add: leases_disjoint_def)
  have "filter (fits_slot t) cs = []" if "fits_slot t c"
    using that Cons.prems by (auto simp: leases_disjoint_def fits_slot_def on_collector_def filter_empty_conv)
  with IH show ?case by auto
qed simp

text \<open>
  With the amount slots leased one at a time, a transfer without memo is never ambiguous: it
  is credited to the attempt that held the slot of its amount when its block was produced,
  whoever holds the slot now, and stays unmatched when there was none.
\<close>

lemma memoless_credit:
  assumes "leases_disjoint cs" "tf_memo t = None"
  shows "(\<nexists>ids. match_transfer t cs = Ambiguous ids) \<and>
    (\<forall>c\<in>set cs. fits_slot t c \<longrightarrow>
       match_transfer t cs = Matched (ac_attempt_id c) (ac_payment_intent_id c)
         (if ac_status c = AS_AwaitingPayment then MS_ExactAmount else MS_HistoricalSlot) (is_late t c)) \<and>
    ((\<forall>c\<in>set cs. \<not> fits_slot t c) \<longrightarrow> match_transfer t cs = Unmatched)"
proof -
  let ?S = "filter (fits_slot t) cs"
  have memo: "filter (fits_memo t) cs = []" using assms(2) by (simp add: fits_memo_def)
  have live: "filter (fits_live t) cs = filter (\<lambda>c. ac_status c = AS_AwaitingPayment) ?S"
    by (auto simp: fits_live_def intro: filter_cong)
  have "?S = [] \<or> (\<exists>c. ?S = [c])"
    using leases_disjoint_slots [OF assms(1), of t] by (cases ?S rule: list_of_2_cases) auto
  then show ?thesis
  proof
    assume e: "?S = []"
    then have "match_transfer t cs = Unmatched"
      by (simp add: match_transfer_deciding deciding_def memo live)
    with e show ?thesis by (auto simp: filter_empty_conv)
  next
    assume "\<exists>c. ?S = [c]"
    then obtain c where c: "?S = [c]" by blast
    then have m: "match_transfer t cs = Matched (ac_attempt_id c) (ac_payment_intent_id c)
         (if ac_status c = AS_AwaitingPayment then MS_ExactAmount else MS_HistoricalSlot) (is_late t c)"
      by (simp add: match_transfer_deciding deciding_def memo live matched_is_late)
    have "c \<in> set ?S" by (simp add: c)
    then have mem: "c \<in> set cs" "fits_slot t c" by simp_all
    have only: "d = c" if "d \<in> set cs" "fits_slot t d" for d
    proof -
      have "d \<in> set ?S" using that by simp
      with c show ?thesis by simp
    qed
    show ?thesis
    proof (intro conjI ballI impI)
      show "\<nexists>ids. match_transfer t cs = Ambiguous ids" using m by simp
      show "match_transfer t cs = Unmatched" if "\<forall>c\<in>set cs. \<not> fits_slot t c" using that mem by blast
    qed (use m only in blast)
  qed
qed

section \<open>Deciding\<close>

text \<open>The policy band of an amount is the smallest that covers it: \<open>tier_for\<close>
  returns a band of the policy whose limit is at least the amount and at most that of
  every other covering band, and returns nothing exactly when no band covers the
  amount.\<close>

theorem tier_for_smallest:
  "(tier_for p x = Some tier \<longrightarrow>
      tier \<in> set (sp_tiers p) \<and> x \<le> st_max_fiat_minor tier \<and>
      (\<forall>u\<in>set (sp_tiers p). x \<le> st_max_fiat_minor u \<longrightarrow> st_max_fiat_minor tier \<le> st_max_fiat_minor u)) \<and>
   (tier_for p x = None \<longleftrightarrow> (\<forall>u\<in>set (sp_tiers p). st_max_fiat_minor u < x))"
  by (auto simp: tier_for_def filter_empty_conv not_le dest: min_by_key_SomeD)

definition sample_tier :: "int \<Rightarrow> settlement_tier" where
  "sample_tier m = \<lparr> st_max_fiat_minor = m, st_min_independent_groups = 2, st_require_own_node = False,
     st_require_risk_allow = False, st_auto_settle = True \<rparr>"

definition sample_settlement_policy :: settlement_policy where
  "sample_settlement_policy = \<lparr> sp_id = 1, sp_version = ''v1'', sp_tiers = [sample_tier 500, sample_tier 100] \<rparr>"

theorem tier_for_smallest_witness:
  "tier_for sample_settlement_policy 60 = Some (sample_tier 100) \<and>
   st_max_fiat_minor (sample_tier 100) \<le> st_max_fiat_minor (sample_tier 500) \<and>
   tier_for sample_settlement_policy 501 = None"
proof -
  have "tier_for sample_settlement_policy 60 = Some (sample_tier 100)"
    "tier_for sample_settlement_policy 501 = None"
    by (simp_all add: tier_for_def sample_settlement_policy_def sample_tier_def)
  with tier_for_smallest [of sample_settlement_policy 60 "sample_tier 100"] show ?thesis
    by (simp add: sample_settlement_policy_def sample_tier_def)
qed

text \<open>Everything that must hold before money may move.\<close>

definition may_move :: "settlement_evidence \<Rightarrow> settlement_policy \<Rightarrow> bool" where
  "may_move e p \<longleftrightarrow>
     se_transfer_state e = TS_Finalized \<and> se_attempt_status e \<noteq> AS_Cancelled \<and> se_risk e \<noteq> RD_Deny \<and>
     (case tier_for p (se_fiat_amount_minor e) of None \<Rightarrow> False
      | Some tier \<Rightarrow> st_auto_settle tier \<and> st_min_independent_groups tier \<le> se_independent_groups e \<and>
          (st_require_own_node tier \<longrightarrow> se_had_own_node e) \<and>
          (st_require_risk_allow tier \<longrightarrow> se_risk e = RD_Allow)) \<and>
     \<not> se_late e \<and> se_already_allocated_raw e < se_expected_amount_raw e"

fun moves_money :: "settlement_outcome \<Rightarrow> bool" where
  "moves_money (Settle _) = True"
| "moves_money (Partial _) = True"
| "moves_money (Overpaid _ _) = True"
| "moves_money (Hold _) = False"
| "moves_money (ManualRequired _) = False"

definition money_outcome :: "settlement_evidence \<Rightarrow> settlement_outcome" where
  "money_outcome e =
     (let outstanding = se_expected_amount_raw e - se_already_allocated_raw e;
          arriving = se_transfer_amount_raw e
      in if outstanding < arriving then Overpaid outstanding (arriving - outstanding)
         else if arriving = outstanding then Settle arriving else Partial arriving)"

lemma checked_sub_cases:
  "checked_sub a b = None \<longleftrightarrow> a < b" "checked_sub a b = Some c \<longleftrightarrow> b \<le> a \<and> c = a - b"
  for a b c :: u256
  by (auto simp: checked_sub_def)

lemma decide_settlement_may_move:
  assumes "may_move e p"
  shows "decide_settlement e p = Inr (money_outcome e)"
proof -
  let ?o = "se_expected_amount_raw e - se_already_allocated_raw e"
  obtain tier where t: "tier_for p (se_fiat_amount_minor e) = Some tier"
    using assms by (auto simp: may_move_def split: option.splits)
  have le: "se_already_allocated_raw e \<le> se_expected_amount_raw e" and o: "?o \<noteq> 0"
    using assms by (auto simp: may_move_def)
  have s: "checked_sub (se_expected_amount_raw e) (se_already_allocated_raw e) = Some ?o"
    using le by (simp add: checked_sub_def)
  have r: "checked_sub x ?o = Some (x - ?o) \<and> x - ?o \<noteq> 0" if "?o < x" for x
    using that by (auto simp: checked_sub_def)
  show ?thesis
    using assms o r [of "se_transfer_amount_raw e"]
    by (auto simp: decide_settlement_def may_move_def t s money_outcome_def Let_def raw_positive_def not_less)
qed

lemma decide_settlement_not_may_move:
  assumes "\<not> may_move e p"
  shows "\<exists>out. decide_settlement e p = Inr out \<and> \<not> moves_money out"
proof (cases "tier_for p (se_fiat_amount_minor e)")
  case None
  then show ?thesis by (simp add: decide_settlement_def)
next
  case (Some tier)
  then show ?thesis
    using assms
    by (auto simp: decide_settlement_def may_move_def checked_sub_cases Let_def split: option.split)
qed

text \<open>C21: Money moves under exactly the stated conditions. \<open>decide_settlement\<close> always
  decides, its overflow error cannot occur, and it allocates exactly when the transfer is
  final, the attempt is not cancelled, screening did not refuse, the amount has an
  automatic policy band whose demands for independent groups, an own node and a risk
  verdict are met, the payment is on time, and the obligation is not covered yet.\<close>

theorem decide_settlement_guard:
  "\<exists>out. decide_settlement e p = Inr out \<and> (moves_money out \<longleftrightarrow> may_move e p)"
proof (cases "may_move e p")
  case True
  then show ?thesis by (auto simp: decide_settlement_may_move money_outcome_def Let_def)
next
  case False
  with decide_settlement_not_may_move [of e p] show ?thesis by blast
qed

lemma unat_outstanding:
  fixes a b :: u256
  assumes "b \<le> a"
  shows "unat (a - b) = unat a - unat b"
  using assms by (rule unat_sub)

lemma decide_settlement_accounts:
  assumes "decide_settlement e p = Inr out"
  shows "case out of
      Settle a \<Rightarrow> unat a = unat (se_transfer_amount_raw e) \<and>
        unat (se_already_allocated_raw e) + unat a = unat (se_expected_amount_raw e)
    | Partial a \<Rightarrow> unat a = unat (se_transfer_amount_raw e) \<and>
        unat (se_already_allocated_raw e) + unat a < unat (se_expected_amount_raw e)
    | Overpaid a r \<Rightarrow> unat a + unat r = unat (se_transfer_amount_raw e) \<and> 0 < unat r \<and> 0 < unat a \<and>
        unat (se_already_allocated_raw e) + unat a = unat (se_expected_amount_raw e)
    | Hold _ \<Rightarrow> True
    | ManualRequired _ \<Rightarrow> True"
proof (cases "may_move e p")
  case True
  then have lt: "se_already_allocated_raw e < se_expected_amount_raw e" by (simp add: may_move_def)
  then have nat: "unat (se_already_allocated_raw e) < unat (se_expected_amount_raw e)"
    by (simp add: word_less_nat_alt)
  let ?o = "se_expected_amount_raw e - se_already_allocated_raw e"
  have o: "unat ?o = unat (se_expected_amount_raw e) - unat (se_already_allocated_raw e)"
    using lt by (intro unat_outstanding) simp
  from assms True have "out = money_outcome e" by (simp add: decide_settlement_may_move)
  moreover have "unat (se_transfer_amount_raw e - ?o) = unat (se_transfer_amount_raw e) - unat ?o"
    if "?o < se_transfer_amount_raw e"
    using that by (intro unat_outstanding) simp
  ultimately show ?thesis
    using nat o by (auto simp: money_outcome_def Let_def word_less_nat_alt word_unat_eq_iff)
next
  case False
  with assms decide_settlement_not_may_move [OF False] show ?thesis
    by (cases out) auto
qed

text \<open>C20: Settlement conserves money and never allocates more than was owed. What is
  allocated plus the remainder is what arrived; a full or over-payment brings the
  allocated total exactly to the expected amount and a partial one keeps it below; the
  remainder of an overpayment is positive.\<close>

theorem decide_settlement_conserves:
  assumes "decide_settlement e p = Inr out"
  shows "case out of
      Settle a \<Rightarrow> unat a = unat (se_transfer_amount_raw e) \<and>
        unat (se_already_allocated_raw e) + unat a = unat (se_expected_amount_raw e)
    | Partial a \<Rightarrow> unat a = unat (se_transfer_amount_raw e) \<and>
        unat (se_already_allocated_raw e) + unat a < unat (se_expected_amount_raw e)
    | Overpaid a r \<Rightarrow> unat a + unat r = unat (se_transfer_amount_raw e) \<and> 0 < unat r \<and> 0 < unat a \<and>
        unat (se_already_allocated_raw e) + unat a = unat (se_expected_amount_raw e)
    | Hold _ \<Rightarrow> True
    | ManualRequired _ \<Rightarrow> True"
  by (rule decide_settlement_accounts [OF assms])

definition sample_evidence :: "u256 \<Rightarrow> settlement_evidence" where
  "sample_evidence arriving =
     \<lparr> se_fiat_amount_minor = 60, se_expected_amount_raw = 1000, se_already_allocated_raw = 400,
       se_transfer_amount_raw = arriving, se_transfer_state = TS_Finalized, se_independent_groups = 2,
       se_had_own_node = False, se_risk = RD_Skipped, se_attempt_status = AS_AwaitingPayment,
       se_late = False \<rparr>"

theorem decide_settlement_conserves_witness:
  "decide_settlement (sample_evidence 700) sample_settlement_policy = Inr (Overpaid 600 100) \<and>
   unat (600 :: u256) + unat (100 :: u256) = unat (se_transfer_amount_raw (sample_evidence 700))"
proof -
  have d: "decide_settlement (sample_evidence 700) sample_settlement_policy = Inr (Overpaid 600 100)"
    by (simp add: decide_settlement_def sample_evidence_def tier_for_def sample_settlement_policy_def
        sample_tier_def checked_sub_def raw_positive_def)
  from decide_settlement_conserves [OF d] d show ?thesis by simp
qed

text \<open>C34: Better evidence never stops a payment: raising the number of independent
  groups, adding an own-node attestation or turning a risk verdict into an approval
  leaves a decision to move money unchanged.\<close>

theorem decide_settlement_evidence_monotone:
  assumes "decide_settlement e p = Inr out" "moves_money out"
    and "se_independent_groups e \<le> g" "se_had_own_node e \<longrightarrow> own" "risk = se_risk e \<or> risk = RD_Allow"
  shows "decide_settlement (e\<lparr> se_independent_groups := g, se_had_own_node := own, se_risk := risk \<rparr>) p = Inr out"
proof -
  let ?e = "e\<lparr> se_independent_groups := g, se_had_own_node := own, se_risk := risk \<rparr>"
  have m: "may_move e p"
    using assms(1,2) decide_settlement_not_may_move [of e p] by fastforce
  then have "may_move ?e p"
    using assms(3-5) by (auto simp: may_move_def split: option.splits)
  moreover have "money_outcome ?e = money_outcome e" by (simp add: money_outcome_def)
  ultimately show ?thesis
    using assms(1) m by (simp add: decide_settlement_may_move)
qed

theorem decide_settlement_evidence_monotone_witness:
  "decide_settlement ((sample_evidence 700)\<lparr> se_independent_groups := 3, se_had_own_node := True,
     se_risk := RD_Allow \<rparr>) sample_settlement_policy = Inr (Overpaid 600 100)"
proof -
  have d: "decide_settlement (sample_evidence 700) sample_settlement_policy = Inr (Overpaid 600 100)"
    by (simp add: decide_settlement_def sample_evidence_def tier_for_def sample_settlement_policy_def
        sample_tier_def checked_sub_def raw_positive_def)
  show ?thesis
    by (rule decide_settlement_evidence_monotone [OF d]) (simp_all add: sample_evidence_def)
qed

end
