(* ===== verification/Operations.thy ===== *)
theory Operations
  imports Redelivery Settlement Price
begin

text \<open>
  The operator's commands, from \<open>crates/gateway-application/src/operations.rs\<close> and
  \<open>honor_approval.rs\<close>: scopes of a key, the shape of a manual resolution and its digest,
  and which honors need a second operator. SHA-256 and the printers of \<open>U256\<close> and \<open>Uuid\<close>
  are parameters.
\<close>

section \<open>Scopes\<close>

datatype operator_scope = OS_Ingest | OS_RiskIngest | OS_Read | OS_Admin

datatype operations_error =
    OE_MissingScope operator_scope
  | OE_InvalidPageLimit
  | OE_UnknownScope string
  | OE_NoReadings
  | OE_NoPricePolicy
  | OE_SnapshotNotRecorded
  | OE_NoOpenRailStop
  | OE_ReasonRequired
  | OE_InvalidIdempotencyKey
  | OE_InvalidManualResolution
  | OE_ManualResolutionConflict
  | OE_ManualResolutionNotFound
  | OE_InvalidRiskEvaluation
  | OE_DualControlRequired
  | OE_HonorProposalNotFound
  | OE_HonorProposalNotPending
  | OE_HonorProposalExpired
  | OE_SameOperator
  | OE_ExportRangeInvalid
  | OE_ExportTooLarge
  | OE_RiskProviderNotAllowed
  | OE_Redelivery redelivery_error
  | OE_Price price_error
  | OE_Repository repository_error

definition operations_is_transient :: "operations_error \<Rightarrow> bool" where
  "operations_is_transient e =
     (case e of OE_Repository error \<Rightarrow> repository_is_transient error
      | OE_Redelivery (RE_Repository error) \<Rightarrow> repository_is_transient error
      | _ \<Rightarrow> False)"

definition operator_scope_as_str :: "operator_scope \<Rightarrow> string" where
  "operator_scope_as_str scope =
     (case scope of OS_Ingest \<Rightarrow> ''ingest'' | OS_RiskIngest \<Rightarrow> ''risk_ingest'' | OS_Read \<Rightarrow> ''read''
      | OS_Admin \<Rightarrow> ''admin'')"

definition operator_scope_parse :: "string \<Rightarrow> operations_error + operator_scope" where
  "operator_scope_parse value =
     (if value = ''ingest'' then Inr OS_Ingest else if value = ''risk_ingest'' then Inr OS_RiskIngest
      else if value = ''read'' then Inr OS_Read else if value = ''admin'' then Inr OS_Admin
      else Inl (OE_UnknownScope value))"

record operator_credential =
  oc_key_id :: uuid
  oc_label :: string
  oc_scopes :: "operator_scope list"

definition credential_allows :: "operator_credential \<Rightarrow> operator_scope \<Rightarrow> bool" where
  "credential_allows credential scope \<longleftrightarrow> scope \<in> set (oc_scopes credential)"

definition require_scope :: "operator_credential \<Rightarrow> operator_scope \<Rightarrow> operations_error + unit" where
  "require_scope credential scope =
     (if credential_allows credential scope then Inr () else Inl (OE_MissingScope scope))"

section \<open>Manual resolutions\<close>

record manual_resolution =
  rn_action :: manual_resolution_action
  rn_transfer_id :: uuid
  rn_payment_intent_id :: "uuid option"
  rn_attempt_id :: "uuid option"
  rn_allocate_raw :: "raw_amount option"
  rn_remainder_raw :: "raw_amount option"
  rn_disposition :: "remainder_disposition option"
  rn_external_reference :: "string option"
  rn_reason :: string

record manual_resolution_result =
  mt_id :: uuid
  mt_action :: manual_resolution_action
  mt_transfer_id :: uuid
  mt_payment_intent_id :: "uuid option"
  mt_attempt_id :: "uuid option"
  mt_merchant_id :: "uuid option"
  mt_allocated_raw :: "raw_amount option"
  mt_remainder_raw :: "raw_amount option"
  mt_replayed :: bool

definition operator_key_ok :: "string \<Rightarrow> operations_error + unit" where
  "operator_key_ok key = (if idempotency_key_ok key then Inr () else Inl OE_InvalidIdempotencyKey)"

definition validate_reason :: "string \<Rightarrow> operations_error + unit" where
  "validate_reason reason =
     (if 1 \<le> length (str_trim reason) \<and> length (str_trim reason) \<le> 1000 then Inr ()
      else Inl OE_ReasonRequired)"

definition some_nonzero :: "raw_amount option \<Rightarrow> bool" where
  "some_nonzero v \<longleftrightarrow> (case v of None \<Rightarrow> False | Some amount \<Rightarrow> \<not> raw_is_zero amount)"

definition honor_shape :: "manual_resolution \<Rightarrow> bool" where
  "honor_shape r \<longleftrightarrow> rn_payment_intent_id r \<noteq> None \<and> rn_attempt_id r \<noteq> None \<and>
     some_nonzero (rn_allocate_raw r) \<and> rn_remainder_raw r = None \<and> rn_disposition r = None \<and>
     rn_external_reference r = None"

definition reject_shape :: "manual_resolution \<Rightarrow> bool" where
  "reject_shape r \<longleftrightarrow> rn_payment_intent_id r = None \<and> rn_attempt_id r = None \<and>
     rn_allocate_raw r = None \<and> rn_remainder_raw r = None \<and> rn_disposition r = None \<and>
     rn_external_reference r = None"

definition disposition_shape :: "manual_resolution \<Rightarrow> bool" where
  "disposition_shape r \<longleftrightarrow> rn_payment_intent_id r \<noteq> None \<and> rn_attempt_id r = None \<and>
     rn_allocate_raw r = None \<and> some_nonzero (rn_remainder_raw r) \<and> rn_disposition r \<noteq> None \<and>
     (case rn_external_reference r of None \<Rightarrow> False
      | Some reference \<Rightarrow> 1 \<le> length (str_trim reference) \<and> length (str_trim reference) \<le> 200)"

definition validate_manual_resolution :: "manual_resolution \<Rightarrow> operations_error + unit" where
  "validate_manual_resolution r =
     (if (case rn_action r of MRA_Honor \<Rightarrow> honor_shape r | MRA_Reject \<Rightarrow> reject_shape r
          | MRA_RecordRemainderDisposition \<Rightarrow> disposition_shape r)
      then Inr () else Inl OE_InvalidManualResolution)"

definition resolution_fields :: "(u256 \<Rightarrow> string) \<Rightarrow> (uuid \<Rightarrow> string) \<Rightarrow> manual_resolution \<Rightarrow> string list" where
  "resolution_fields display_u256 display_uuid r =
     [manual_resolution_action_as_str (rn_action r), display_uuid (rn_transfer_id r),
      opt_text display_uuid (rn_payment_intent_id r), opt_text display_uuid (rn_attempt_id r),
      opt_text display_u256 (rn_allocate_raw r), opt_text display_u256 (rn_remainder_raw r),
      opt_text remainder_disposition_as_str (rn_disposition r),
      opt_text (\<lambda>s. s) (rn_external_reference r), rn_reason r]"

definition manual_resolution_hash ::
  "(byte list \<Rightarrow> byte list) \<Rightarrow> (u256 \<Rightarrow> string) \<Rightarrow> (uuid \<Rightarrow> string) \<Rightarrow> manual_resolution \<Rightarrow> byte list" where
  "manual_resolution_hash sha256 display_u256 display_uuid r =
     request_digest sha256 (resolution_fields display_u256 display_uuid r)"

section \<open>Two operators\<close>

definition HONOR_PROPOSAL_TTL :: int where
  "HONOR_PROPOSAL_TTL = 24 * 3600"

record honor_approval_policy =
  ha_dual_control_min_raw :: raw_amount

definition default_honor_policy :: honor_approval_policy where
  "default_honor_policy = \<lparr> ha_dual_control_min_raw = raw_ZERO \<rparr>"

text \<open>\<open>None\<close> stands for the error \<open>InvalidHonorThreshold\<close>.\<close>

definition honor_policy_from_setting ::
  "(string \<Rightarrow> u256 option) \<Rightarrow> string option \<Rightarrow> honor_approval_policy option" where
  "honor_policy_from_setting u256_from_str setting =
     (case map_option str_trim setting of
        None \<Rightarrow> Some default_honor_policy
      | Some text \<Rightarrow>
          if text = [] then None
          else if list_all (\<lambda>c. c = CHR ''0'') text then Some default_honor_policy
          else (case raw_from_str u256_from_str text of
                  Inl _ \<Rightarrow> None
                | Inr amount \<Rightarrow> Some \<lparr> ha_dual_control_min_raw = amount \<rparr>))"

definition requires_second_operator :: "honor_approval_policy \<Rightarrow> raw_amount \<Rightarrow> bool" where
  "requires_second_operator policy allocate_raw \<longleftrightarrow> ha_dual_control_min_raw policy \<le> allocate_raw"

datatype proposal_status = PS_Pending | PS_Approved | PS_Rejected | PS_Expired

definition proposal_status_as_str :: "proposal_status \<Rightarrow> string" where
  "proposal_status_as_str status =
     (case status of PS_Pending \<Rightarrow> ''pending'' | PS_Approved \<Rightarrow> ''approved'' | PS_Rejected \<Rightarrow> ''rejected''
      | PS_Expired \<Rightarrow> ''expired'')"

definition proposal_status_parse :: "string \<Rightarrow> repository_error + proposal_status" where
  "proposal_status_parse value =
     (if value = ''pending'' then Inr PS_Pending else if value = ''approved'' then Inr PS_Approved
      else if value = ''rejected'' then Inr PS_Rejected else if value = ''expired'' then Inr PS_Expired
      else Inl (CorruptData (''unknown honor proposal status '' @ value)))"

section \<open>What a digest binds\<close>

lemma action_text_inj:
  "manual_resolution_action_as_str a = manual_resolution_action_as_str b \<longleftrightarrow> a = b"
  by (cases a; cases b) (simp_all add: manual_resolution_action_as_str_def)

lemma disposition_text_inj:
  "remainder_disposition_as_str a = remainder_disposition_as_str b \<longleftrightarrow> a = b"
  by (cases a; cases b) (simp_all add: remainder_disposition_as_str_def)

lemma disposition_text_sized:
  "remainder_disposition_as_str a \<noteq> []" "text_sized (remainder_disposition_as_str a)"
  by (cases a; simp add: remainder_disposition_as_str_def text_sized_def)+

lemma action_text_sized: "text_sized (manual_resolution_action_as_str a)"
  by (cases a) (simp_all add: manual_resolution_action_as_str_def text_sized_def)

lemma nat_str_length: "n < 10 ^ Suc k \<Longrightarrow> length (nat_str n) \<le> Suc k"
proof (induction k arbitrary: n)
  case 0
  then show ?case by (subst nat_str.simps) simp
next
  case (Suc k)
  then have "n div 10 < 10 ^ Suc k" by (simp add: div_less_iff_less_mult algebra_simps)
  from Suc.IH [OF this] show ?case by (subst nat_str.simps) simp
qed

lemma opt_text_sized: "(\<And>x. v = Some x \<Longrightarrow> text_sized (display x)) \<Longrightarrow> text_sized (opt_text display v)"
  by (cases v) (simp_all add: opt_text_def text_sized_def)

context u256_text
begin

lemma display_inj: "display_u256 a = display_u256 b \<longleftrightarrow> a = b"
  by (metis from_str_display option.inject)

lemma display_not_Nil: "display_u256 a \<noteq> []"
  by (simp add: display_decimal)

lemma display_sized: "text_sized (display_u256 a)"
proof -
  have "unat a < 10 ^ Suc 77" using unsigned_less [of a, where ?'a = nat] by simp
  from nat_str_length [OF this] show ?thesis by (simp add: display_decimal text_sized_def)
qed

end

text \<open>A resolution its validation accepts, with texts of representable size.\<close>

definition resolution_ok :: "manual_resolution \<Rightarrow> bool" where
  "resolution_ok r \<longleftrightarrow> validate_manual_resolution r = Inr () \<and> text_sized (rn_reason r) \<and>
     (case rn_external_reference r of None \<Rightarrow> True | Some reference \<Rightarrow> text_sized reference)"

lemma validated_reference:
  assumes "validate_manual_resolution r = Inr ()" shows "rn_external_reference r \<noteq> Some []"
proof -
  have "str_trim [] = []" by code_simp
  with assms show ?thesis
    by (auto simp: validate_manual_resolution_def honor_shape_def reject_shape_def disposition_shape_def
        split: manual_resolution_action.splits if_splits option.splits)
qed

lemma reference_text_inj:
  "a \<noteq> Some [] \<Longrightarrow> b \<noteq> Some [] \<Longrightarrow> opt_text (\<lambda>s. s) a = opt_text (\<lambda>s. s) b \<longleftrightarrow> a = b"
  by (cases a; cases b) (auto simp: opt_text_def)

lemma resolution_fields_inj:
  assumes "u256_text du fu" "uuid_text d" "validate_manual_resolution r = Inr ()"
    "validate_manual_resolution r' = Inr ()"
  shows "resolution_fields du d r = resolution_fields du d r' \<longleftrightarrow> r = r'"
proof -
  have amounts: "opt_text du a = opt_text du b \<longleftrightarrow> a = b" for a b
    by (rule opt_text_eq_iff) (simp_all add: u256_text.display_inj [OF assms(1)] u256_text.display_not_Nil [OF assms(1)])
  have disps: "opt_text remainder_disposition_as_str a = opt_text remainder_disposition_as_str b \<longleftrightarrow> a = b" for a b
    by (rule opt_text_eq_iff) (simp_all add: disposition_text_inj disposition_text_sized)
  show ?thesis
    using reference_text_inj [OF validated_reference [OF assms(3)] validated_reference [OF assms(4)]]
    by (auto simp: resolution_fields_def action_text_inj uuid_text.display_uuid_inj [OF assms(2)]
        uuid_text.opt_uuid_inj [OF assms(2)] amounts disps)
qed

lemma resolution_fields_sized:
  assumes "u256_text du fu" "uuid_text d" "resolution_ok r"
  shows "list_all text_sized (resolution_fields du d r)"
  using assms(3) uuid_text.uuid_sized [OF assms(2)] u256_text.display_sized [OF assms(1)]
  by (auto simp: resolution_fields_def resolution_ok_def action_text_sized
      intro!: opt_text_sized disposition_text_sized(2))

text \<open>C18: An idempotency key is bound to one operator decision. Two validated manual
  resolutions with the same stored digest are the same resolution, in every field down to
  the reason; anything else exhibits a collision of SHA-256.\<close>

theorem manual_resolution_hash_binds:
  assumes "u256_text display_u256 u256_from_str" "uuid_text display_uuid"
    and "resolution_ok r" "resolution_ok r'"
  shows "manual_resolution_hash sha256 display_u256 display_uuid r =
      manual_resolution_hash sha256 display_u256 display_uuid r' \<longrightarrow>
    r = r' \<or> (\<exists>a b. a \<noteq> b \<and> sha256 a = sha256 b)"
proof
  assume "manual_resolution_hash sha256 display_u256 display_uuid r =
    manual_resolution_hash sha256 display_u256 display_uuid r'"
  then have "resolution_fields display_u256 display_uuid r = resolution_fields display_u256 display_uuid r' \<or>
      (\<exists>a b. a \<noteq> b \<and> sha256 a = sha256 b)"
    unfolding manual_resolution_hash_def
    by (rule request_digest_binds [OF resolution_fields_sized [OF assms(1-3)] resolution_fields_sized [OF assms(1,2,4)]])
  moreover have "validate_manual_resolution r = Inr ()" "validate_manual_resolution r' = Inr ()"
    using assms(3,4) by (simp_all only: resolution_ok_def)
  ultimately show "r = r' \<or> (\<exists>a b. a \<noteq> b \<and> sha256 a = sha256 b)"
    by (simp only: resolution_fields_inj [OF assms(1,2)])
qed

definition sample_resolution :: "uuid \<Rightarrow> raw_amount \<Rightarrow> manual_resolution" where
  "sample_resolution transfer amount =
     \<lparr> rn_action = MRA_Honor, rn_transfer_id = transfer, rn_payment_intent_id = Some 2, rn_attempt_id = Some 3,
       rn_allocate_raw = Some amount, rn_remainder_raw = None, rn_disposition = None,
       rn_external_reference = None, rn_reason = ''late but accepted'' \<rparr>"

theorem manual_resolution_hash_binds_witness:
  "manual_resolution_hash (\<lambda>b. b) ref_display_u256 ref_display_uuid (sample_resolution 7 400) \<noteq>
   manual_resolution_hash (\<lambda>b. b) ref_display_u256 ref_display_uuid (sample_resolution 7 401)"
proof -
  have ok: "resolution_ok (sample_resolution 7 x)" if "x \<noteq> 0" for x
    using that by (simp add: resolution_ok_def sample_resolution_def validate_manual_resolution_def honor_shape_def
        some_nonzero_def raw_is_zero_def text_sized_def)
  have "sample_resolution 7 400 \<noteq> sample_resolution 7 401" by (simp add: sample_resolution_def)
  moreover have "(400 :: raw_amount) \<noteq> 0" "(401 :: raw_amount) \<noteq> 0" by simp_all
  ultimately show ?thesis
    using manual_resolution_hash_binds [OF ref_text.u256_text_axioms ref_uuid.uuid_text_axioms ok ok,
        of 400 401 "\<lambda>b. b"] by blast
qed

section \<open>The dual-control threshold\<close>

lemma zeros_digits:
  assumes "list_all (\<lambda>c. c = CHR ''0'') t"
  shows "list_all is_ascii_digit t" "dec_val t = 0"
proof -
  show d: "list_all is_ascii_digit t" using assms by (induction t) (simp_all add: is_ascii_digit_def)
  show "dec_val t = 0" using assms unfolding dec_val_eq_0_iff [OF d] dropWhile_eq_Nil_conv list_all_iff .
qed

lemma raw_from_str_refused:
  assumes "u256_text du f" "raw_from_str f t = Inl e" "\<not> list_all (\<lambda>c. c = CHR ''0'') t"
  shows "t = [] \<or> \<not> list_all is_ascii_digit t \<or> 2 ^ 256 \<le> dec_val t"
proof (rule ccontr)
  assume "\<not> ?thesis"
  then have d: "t \<noteq> []" "list_all is_ascii_digit t" "dec_val t < 2 ^ 256" by (simp_all only: de_Morgan_disj not_le not_not simp_thms)
  have "dec_val t \<noteq> 0" using assms(3) unfolding dec_val_eq_0_iff [OF d(2)] dropWhile_eq_Nil_conv list_all_iff .
  moreover have u: "unat (of_nat (dec_val t) :: raw_amount) = dec_val t"
    using d(3) by (simp add: unsigned_of_nat take_bit_nat_eq_self)
  ultimately have "(of_nat (dec_val t) :: raw_amount) \<noteq> 0" by (metis unat_0)
  with d(1,2) u have "raw_from_str f t = Inr (of_nat (dec_val t))"
    by (simp only: u256_text.raw_from_str_iff [OF assms(1)] simp_thms)
  with assms(2) show False by simp
qed

lemma from_setting_Some:
  "honor_policy_from_setting f (Some v) =
     (if str_trim v = [] then None
      else if list_all (\<lambda>c. c = CHR ''0'') (str_trim v) then Some default_honor_policy
      else (case raw_from_str f (str_trim v) of Inl _ \<Rightarrow> None
            | Inr amount \<Rightarrow> Some \<lparr> ha_dual_control_min_raw = amount \<rparr>))"
  by (simp add: honor_policy_from_setting_def)

lemma requires_second_simps:
  "requires_second_operator default_honor_policy amount"
  "requires_second_operator \<lparr> ha_dual_control_min_raw = a \<rparr> amount \<longleftrightarrow> unat a \<le> unat amount"
  by (simp_all add: requires_second_operator_def default_honor_policy_def raw_ZERO_def word_le_nat_alt)

text \<open>C19: Which honors need a second operator. An unset threshold, or a run of zeros, makes
  every honor need one; a positive whole number \<open>n\<close> that fits 256 bits, surrounded by any
  white space, makes exactly the honors of at least \<open>n\<close> raw units need one; any other
  setting is refused and never read as a default.\<close>

theorem honor_threshold_exact:
  assumes "u256_text display_u256 u256_from_str"
  shows "case honor_policy_from_setting u256_from_str setting of
      None \<Rightarrow> (\<exists>text. setting = Some text \<and> (str_trim text = [] \<or> \<not> list_all is_ascii_digit (str_trim text) \<or>
        2 ^ 256 \<le> dec_val (str_trim text)))
    | Some policy \<Rightarrow>
        (case setting of
           None \<Rightarrow> (\<forall>amount. requires_second_operator policy amount)
         | Some text \<Rightarrow> str_trim text \<noteq> [] \<and> list_all is_ascii_digit (str_trim text) \<and>
             (\<forall>amount. requires_second_operator policy amount \<longleftrightarrow> dec_val (str_trim text) \<le> unat amount))"
proof (cases setting)
  case None
  then show ?thesis by (auto simp: honor_policy_from_setting_def requires_second_simps)
next
  case (Some v)
  let ?t = "str_trim v"
  consider "?t = []" | "?t \<noteq> []" "list_all (\<lambda>c. c = CHR ''0'') ?t"
    | e where "?t \<noteq> []" "\<not> list_all (\<lambda>c. c = CHR ''0'') ?t" "raw_from_str u256_from_str ?t = Inl e"
    | a where "?t \<noteq> []" "\<not> list_all (\<lambda>c. c = CHR ''0'') ?t" "raw_from_str u256_from_str ?t = Inr a"
    by (cases "raw_from_str u256_from_str ?t") blast+
  then show ?thesis
  proof cases
    case 1
    then show ?thesis by (simp add: Some from_setting_Some)
  next
    case 2
    with zeros_digits [OF 2(2)] show ?thesis by (simp add: Some from_setting_Some requires_second_simps)
  next
    case (3 e)
    with raw_from_str_refused [OF assms 3(3,2)] show ?thesis
      by (simp del: power_numeral add: Some from_setting_Some)
  next
    case (4 a)
    then have "list_all is_ascii_digit ?t" "dec_val ?t = unat a"
      by (simp_all add: u256_text.raw_from_str_iff [OF assms])
    with 4 show ?thesis by (simp add: Some from_setting_Some requires_second_simps)
  qed
qed

theorem honor_threshold_exact_witness:
  "\<exists>policy. honor_policy_from_setting ref_u256_from_str (Some '' 500 '') = Some policy \<and>
     requires_second_operator policy 500 \<and> \<not> requires_second_operator policy 499"
proof -
  have t: "str_trim '' 500 '' = ''500''" by code_simp
  have d: "list_all is_ascii_digit ''500''" "dec_val ''500'' = 500" by code_simp+
  show ?thesis
    using honor_threshold_exact [OF ref_text.u256_text_axioms, of "Some '' 500 ''"]
    by (cases "honor_policy_from_setting ref_u256_from_str (Some '' 500 '')") (use d in \<open>auto simp: t\<close>)
qed

end
