(* ===== verification/Settlement_Service.thy ===== *)
theory Settlement_Service
  imports Settlement Ports
begin

text \<open>
  The settlement service of \<open>crates/gateway-application/src/settlement.rs\<close>.

  The repository trait is a record of operations over an abstract store: queries read
  the store, \<open>settle\<close> and \<open>record_unresolved\<close> answer and leave a store behind. A failing
  pass keeps what it committed before, so the service returns its result together with
  the store. The locale \<open>settlement_repository\<close> states what the service relies on; the
  lemmas proved in it hold for every implementation of the trait.
\<close>

section \<open>Data\<close>

record pending_transfer =
  pt_facts :: transfer_facts
  pt_independent_groups :: nat
  pt_had_own_node :: bool
  pt_attestation_ids :: "uuid list"
  pt_allocated_raw :: raw_amount

record attempt_snapshot =
  as_attempt_id :: uuid
  as_payment_intent_id :: uuid
  as_merchant_id :: uuid
  as_currency :: currency_code
  as_fiat_amount_minor :: int
  as_expected_amount_raw :: raw_amount
  as_allocated_raw :: raw_amount
  as_status :: attempt_status

record settlement_command =
  sc_transfer_id :: uuid
  sc_attempt_id :: uuid
  sc_payment_intent_id :: uuid
  sc_merchant_id :: uuid
  sc_fiat_amount_minor :: int
  sc_match_strategy :: match_strategy
  sc_outcome :: settlement_outcome
  sc_policy_version :: string
  sc_independent_groups :: nat
  sc_had_own_node :: bool
  sc_finality_state :: transfer_state
  sc_risk :: risk_decision
  sc_risk_evaluation_id :: "uuid option"
  sc_attestation_ids :: "uuid list"

datatype settlement_record =
    SR_Settled
  | SR_PartiallyAllocated
  | SR_Overpaid
  | SR_Held
  | SR_ManualRequired
  | SR_ForeignClaim
  | SR_AlreadyProcessed

datatype unresolved_transfer = UT_Ambiguous "uuid list" | UT_Unmatched

definition unresolved_as_str :: "unresolved_transfer \<Rightarrow> string" where
  "unresolved_as_str u = (case u of UT_Ambiguous _ \<Rightarrow> ''ambiguous'' | UT_Unmatched \<Rightarrow> ''unmatched'')"

record 's settlement_repository =
  transfers_awaiting_settlement :: "nat \<Rightarrow> 's \<Rightarrow> repository_error + pending_transfer list"
  match_candidates :: "transfer_facts \<Rightarrow> 's \<Rightarrow> repository_error + attempt_candidate list"
  attempt_snapshot_of :: "uuid \<Rightarrow> 's \<Rightarrow> repository_error + attempt_snapshot option"
  find_settlement_policy :: "currency_code \<Rightarrow> 's \<Rightarrow> repository_error + settlement_policy option"
  latest_risk :: "uuid \<Rightarrow> 's \<Rightarrow> repository_error + risk_decision \<times> uuid option"
  settle :: "component_lease \<Rightarrow> settlement_command \<Rightarrow> 's \<Rightarrow> (repository_error + settlement_record) \<times> 's"
  record_unresolved ::
    "component_lease \<Rightarrow> pending_transfer \<Rightarrow> unresolved_transfer \<Rightarrow> 's \<Rightarrow> (repository_error + unit) \<times> 's"

record settlement_report =
  rp_examined :: nat
  rp_settled :: nat
  rp_partial :: nat
  rp_overpaid :: nat
  rp_held :: nat
  rp_manual_required :: nat
  rp_ambiguous :: nat
  rp_unmatched :: nat
  rp_foreign_claim :: nat
  rp_already_processed :: nat
  rp_missing_policy :: nat

definition empty_report :: settlement_report where
  "empty_report = \<lparr> rp_examined = 0, rp_settled = 0, rp_partial = 0, rp_overpaid = 0, rp_held = 0,
     rp_manual_required = 0, rp_ambiguous = 0, rp_unmatched = 0, rp_foreign_claim = 0,
     rp_already_processed = 0, rp_missing_policy = 0 \<rparr>"

datatype settlement_service_error =
    InvalidBatchLimit
  | SettlementFailed settlement_error
  | RepositoryFailed repository_error

fun settlement_service_is_transient :: "settlement_service_error \<Rightarrow> bool" where
  "settlement_service_is_transient (RepositoryFailed e) = repository_is_transient e"
| "settlement_service_is_transient _ = False"

section \<open>Operations\<close>

definition count_up :: "nat \<Rightarrow> nat" where
  "count_up n = u32_sat_add n 1"

fun count_record :: "settlement_record \<Rightarrow> settlement_report \<Rightarrow> settlement_report" where
  "count_record SR_Settled r = r\<lparr> rp_settled := count_up (rp_settled r) \<rparr>"
| "count_record SR_PartiallyAllocated r = r\<lparr> rp_partial := count_up (rp_partial r) \<rparr>"
| "count_record SR_Overpaid r = r\<lparr> rp_overpaid := count_up (rp_overpaid r) \<rparr>"
| "count_record SR_Held r = r\<lparr> rp_held := count_up (rp_held r) \<rparr>"
| "count_record SR_ManualRequired r = r\<lparr> rp_manual_required := count_up (rp_manual_required r) \<rparr>"
| "count_record SR_ForeignClaim r = r\<lparr> rp_foreign_claim := count_up (rp_foreign_claim r) \<rparr>"
| "count_record SR_AlreadyProcessed r = r\<lparr> rp_already_processed := count_up (rp_already_processed r) \<rparr>"

definition evidence_of ::
  "pending_transfer \<Rightarrow> attempt_snapshot \<Rightarrow> risk_decision \<Rightarrow> bool \<Rightarrow> settlement_evidence" where
  "evidence_of transfer attempt risk late =
     \<lparr> se_fiat_amount_minor = as_fiat_amount_minor attempt,
       se_expected_amount_raw = as_expected_amount_raw attempt,
       se_already_allocated_raw = as_allocated_raw attempt,
       se_transfer_amount_raw = tf_amount_raw (pt_facts transfer),
       se_transfer_state = tf_state (pt_facts transfer),
       se_independent_groups = pt_independent_groups transfer,
       se_had_own_node = pt_had_own_node transfer,
       se_risk = risk,
       se_attempt_status = as_status attempt,
       se_late = late \<rparr>"

definition command_of ::
  "pending_transfer \<Rightarrow> attempt_snapshot \<Rightarrow> settlement_policy \<Rightarrow> match_strategy \<Rightarrow> settlement_outcome
     \<Rightarrow> risk_decision \<Rightarrow> uuid option \<Rightarrow> settlement_command" where
  "command_of transfer attempt policy strategy outcome risk risk_evaluation_id =
     \<lparr> sc_transfer_id = tf_transfer_id (pt_facts transfer),
       sc_attempt_id = as_attempt_id attempt,
       sc_payment_intent_id = as_payment_intent_id attempt,
       sc_merchant_id = as_merchant_id attempt,
       sc_fiat_amount_minor = as_fiat_amount_minor attempt,
       sc_match_strategy = strategy,
       sc_outcome = outcome,
       sc_policy_version = sp_version policy,
       sc_independent_groups = pt_independent_groups transfer,
       sc_had_own_node = pt_had_own_node transfer,
       sc_finality_state = tf_state (pt_facts transfer),
       sc_risk = risk,
       sc_risk_evaluation_id = risk_evaluation_id,
       sc_attestation_ids = pt_attestation_ids transfer \<rparr>"

definition settle_match ::
  "'s settlement_repository \<Rightarrow> component_lease \<Rightarrow> pending_transfer \<Rightarrow> uuid \<Rightarrow> match_strategy \<Rightarrow> bool
     \<Rightarrow> settlement_report \<Rightarrow> 's \<Rightarrow> (settlement_service_error + settlement_report) \<times> 's" where
  "settle_match repository lease transfer attempt_id strategy late report s =
     (case attempt_snapshot_of repository attempt_id s of
        Inl e \<Rightarrow> (Inl (RepositoryFailed e), s)
      | Inr None \<Rightarrow> (Inl (RepositoryFailed (CorruptData
          ''a matched attempt disappeared between matching and settling'')), s)
      | Inr (Some attempt) \<Rightarrow>
          (case find_settlement_policy repository (as_currency attempt) s of
             Inl e \<Rightarrow> (Inl (RepositoryFailed e), s)
           | Inr None \<Rightarrow> (Inr (report\<lparr> rp_missing_policy := count_up (rp_missing_policy report) \<rparr>), s)
           | Inr (Some policy) \<Rightarrow>
               (case latest_risk repository (tf_transfer_id (pt_facts transfer)) s of
                  Inl e \<Rightarrow> (Inl (RepositoryFailed e), s)
                | Inr (risk, risk_evaluation_id) \<Rightarrow>
                    (case decide_settlement (evidence_of transfer attempt risk late) policy of
                       Inl e \<Rightarrow> (Inl (SettlementFailed e), s)
                     | Inr outcome \<Rightarrow>
                         (case settle repository lease
                             (command_of transfer attempt policy strategy outcome risk risk_evaluation_id) s of
                            (Inl e, s') \<Rightarrow> (Inl (RepositoryFailed e), s')
                          | (Inr record, s') \<Rightarrow> (Inr (count_record record report), s'))))))"

definition settle_one ::
  "'s settlement_repository \<Rightarrow> component_lease \<Rightarrow> pending_transfer
     \<Rightarrow> settlement_report \<Rightarrow> 's \<Rightarrow> (settlement_service_error + settlement_report) \<times> 's" where
  "settle_one repository lease transfer report s =
     (let report = report\<lparr> rp_examined := count_up (rp_examined report) \<rparr>
      in case match_candidates repository (pt_facts transfer) s of
           Inl e \<Rightarrow> (Inl (RepositoryFailed e), s)
         | Inr candidates \<Rightarrow>
             (case match_transfer (pt_facts transfer) candidates of
                Matched attempt_id _ strategy late \<Rightarrow>
                  settle_match repository lease transfer attempt_id strategy late report s
              | Ambiguous attempt_ids \<Rightarrow>
                  (case record_unresolved repository lease transfer (UT_Ambiguous attempt_ids) s of
                     (Inl e, s') \<Rightarrow> (Inl (RepositoryFailed e), s')
                   | (Inr _, s') \<Rightarrow> (Inr (report\<lparr> rp_ambiguous := count_up (rp_ambiguous report) \<rparr>), s'))
              | Unmatched \<Rightarrow>
                  (case record_unresolved repository lease transfer UT_Unmatched s of
                     (Inl e, s') \<Rightarrow> (Inl (RepositoryFailed e), s')
                   | (Inr _, s') \<Rightarrow> (Inr (report\<lparr> rp_unmatched := count_up (rp_unmatched report) \<rparr>), s'))))"

fun settle_loop ::
  "'s settlement_repository \<Rightarrow> component_lease \<Rightarrow> pending_transfer list
     \<Rightarrow> settlement_report \<Rightarrow> 's \<Rightarrow> (settlement_service_error + settlement_report) \<times> 's" where
  "settle_loop repository lease [] report s = (Inr report, s)"
| "settle_loop repository lease (transfer # transfers) report s =
     (case settle_one repository lease transfer report s of
        (Inl e, s') \<Rightarrow> (Inl e, s')
      | (Inr report', s') \<Rightarrow> settle_loop repository lease transfers report' s')"

definition settle_pending ::
  "'s settlement_repository \<Rightarrow> component_lease \<Rightarrow> nat \<Rightarrow> 's
     \<Rightarrow> (settlement_service_error + settlement_report) \<times> 's" where
  "settle_pending repository lease limit s =
     (if limit = 0 \<or> limit > 1000 then (Inl InvalidBatchLimit, s)
      else case transfers_awaiting_settlement repository limit s of
        Inl e \<Rightarrow> (Inl (RepositoryFailed e), s)
      | Inr transfers \<Rightarrow> settle_loop repository lease transfers empty_report s)"

section \<open>Counters\<close>

definition report_total :: "settlement_report \<Rightarrow> nat" where
  "report_total r = rp_settled r + rp_partial r + rp_overpaid r + rp_held r + rp_manual_required r +
     rp_ambiguous r + rp_unmatched r + rp_foreign_claim r + rp_already_processed r + rp_missing_policy r"

text \<open>Every examined transfer was counted in exactly one column, and \<open>n\<close> were examined.\<close>

definition report_ok :: "nat \<Rightarrow> settlement_report \<Rightarrow> bool" where
  "report_ok n r \<longleftrightarrow> rp_examined r = n \<and> report_total r = n"

lemma count_up_small: "n < u32_max \<Longrightarrow> count_up n = Suc n"
  by (simp add: count_up_def u32_sat_add_def)

lemma report_total_step:
  assumes "report_total r < u32_max"
  shows "report_total (count_record c r) = Suc (report_total r)"
    "report_total (r\<lparr> rp_ambiguous := count_up (rp_ambiguous r) \<rparr>) = Suc (report_total r)"
    "report_total (r\<lparr> rp_unmatched := count_up (rp_unmatched r) \<rparr>) = Suc (report_total r)"
    "report_total (r\<lparr> rp_missing_policy := count_up (rp_missing_policy r) \<rparr>) = Suc (report_total r)"
    "rp_examined (count_record c r) = rp_examined r"
  using assms by (cases c; simp add: report_total_def count_up_small)+

lemma settle_match_report:
  assumes "report_total r < u32_max" "settle_match repo lease t a strategy late r s = (Inr r', s')"
  shows "report_total r' = Suc (report_total r)" "rp_examined r' = rp_examined r"
  using assms(2) report_total_step [OF assms(1)]
  by (auto simp: settle_match_def split: sum.splits option.splits prod.splits)

lemma settle_one_report:
  assumes "report_ok n r" "n < u32_max" "settle_one repo lease t r s = (Inr r', s')"
  shows "report_ok (Suc n) r'"
proof -
  let ?r = "r\<lparr> rp_examined := count_up (rp_examined r) \<rparr>"
  have r: "rp_examined ?r = Suc n" "report_total ?r = n" "report_total ?r < u32_max"
    using assms(1,2) by (simp_all add: report_ok_def count_up_small report_total_def)
  note step = report_total_step [OF r(3)]
  show ?thesis
    using assms(3) r(1,2) step settle_match_report [OF r(3)]
    by (auto simp: settle_one_def Let_def report_ok_def split: sum.splits match_outcome.splits prod.splits)
qed

lemma settle_loop_report:
  assumes "report_ok n r" "n + length ts \<le> u32_max" "settle_loop repo lease ts r s = (Inr r', s')"
  shows "report_ok (n + length ts) r'"
  using assms
proof (induction ts arbitrary: n r s)
  case (Cons t ts)
  obtain r1 s1 where one: "settle_one repo lease t r s = (Inr r1, s1)"
    and rest: "settle_loop repo lease ts r1 s1 = (Inr r', s')"
    using Cons.prems(3) by (auto split: prod.splits sum.splits)
  from settle_one_report [OF Cons.prems(1) _ one] Cons.prems(2) have "report_ok (Suc n) r1" by simp
  from Cons.IH [OF this _ rest] Cons.prems(2) show ?case by simp
qed simp

section \<open>What the service relies on\<close>

text \<open>A command the service may issue: decided on the attempt as the store shows it.\<close>

definition decided_command :: "'s settlement_repository \<Rightarrow> 's \<Rightarrow> settlement_command \<Rightarrow> bool" where
  "decided_command repo s command \<longleftrightarrow>
     (\<exists>transfer attempt_id attempt policy strategy outcome risk risk_evaluation_id late.
        attempt_snapshot_of repo attempt_id s = Inr (Some attempt) \<and>
        decide_settlement (evidence_of transfer attempt risk late) policy = Inr outcome \<and>
        command = command_of transfer attempt policy strategy outcome risk risk_evaluation_id)"

lemma decided_commandI:
  "attempt_snapshot_of repo a s = Inr (Some attempt) \<Longrightarrow>
     decide_settlement (evidence_of transfer attempt risk late) policy = Inr outcome \<Longrightarrow>
     decided_command repo s (command_of transfer attempt policy strategy outcome risk risk_evaluation_id)"
  unfolding decided_command_def by blast

locale settlement_repository =
  fixes repo :: "'s settlement_repository" and inv :: "'s \<Rightarrow> bool"
  assumes settle_inv: "inv s \<Longrightarrow> decided_command repo s command \<Longrightarrow>
      settle repo lease command s = (r, s') \<Longrightarrow> inv s'"
    and unresolved_inv: "inv s \<Longrightarrow> record_unresolved repo lease transfer u s = (r', s') \<Longrightarrow> inv s'"
    and settle_error: "settle repo lease command s = (Inl e, s') \<Longrightarrow> s' = s"
    and unresolved_error: "record_unresolved repo lease transfer u s = (Inl e, s') \<Longrightarrow> s' = s"
    and awaiting_bounded: "transfers_awaiting_settlement repo limit s = Inr ts \<Longrightarrow> length ts \<le> limit"
begin

lemma settle_match_inv:
  "inv s \<Longrightarrow> settle_match repo lease t a strategy late r s = (out, s') \<Longrightarrow> inv s'"
  by (auto simp: settle_match_def intro: settle_inv decided_commandI
      split: sum.splits option.splits prod.splits)

lemma settle_one_inv: "inv s \<Longrightarrow> settle_one repo lease t r s = (out, s') \<Longrightarrow> inv s'"
  by (auto simp: settle_one_def Let_def dest: settle_match_inv unresolved_inv
      split: sum.splits match_outcome.splits prod.splits)

lemma settle_loop_inv: "inv s \<Longrightarrow> settle_loop repo lease ts r s = (out, s') \<Longrightarrow> inv s'"
proof (induction ts arbitrary: r s)
  case (Cons t ts)
  obtain o1 s1 where one: "settle_one repo lease t r s = (o1, s1)" by fastforce
  with settle_one_inv Cons.prems(1) have "inv s1" by blast
  with Cons one show ?case by (cases o1) auto
qed simp

lemma settle_pending_inv:
  assumes "inv s" "settle_pending repo lease limit s = (out, s')"
  shows "inv s'"
  using assms settle_loop_inv [OF assms(1)]
  by (auto simp: settle_pending_def split: if_splits sum.splits)

lemma settle_pending_report:
  assumes "settle_pending repo lease limit s = (Inr r, s')"
  shows "rp_examined r \<le> limit" "report_total r = rp_examined r" "0 < limit" "limit \<le> 1000"
proof -
  from assms obtain ts where t: "0 < limit" "limit \<le> 1000" "transfers_awaiting_settlement repo limit s = Inr ts"
    "settle_loop repo lease ts empty_report s = (Inr r, s')"
    by (auto simp: settle_pending_def split: if_splits sum.splits)
  have "length ts \<le> limit" by (rule awaiting_bounded [OF t(3)])
  moreover from this have "0 + length ts \<le> u32_max" using t(2) by (simp add: u32_max_def)
  moreover have "report_ok 0 empty_report" by (simp add: report_ok_def empty_report_def report_total_def)
  ultimately show "rp_examined r \<le> limit" "report_total r = rp_examined r" "0 < limit" "limit \<le> 1000"
    using settle_loop_report [OF _ _ t(4), of 0] t(1,2) by (simp_all add: report_ok_def)
qed

end

end
