(* ===== verification/Transaction.thy ===== *)
theory Transaction
  imports Gateway_Prelude
begin

text \<open>
  Database transactions over an explicit store, and tables as lists of rows.

  A transaction reads a store and either fails with an error or answers together with the
  changed store. A failure abandons the whole transaction: the store of the caller is the
  one it started from (\<open>tx_run\<close>). A table is the list of its rows: an \<open>UPDATE\<close> rewrites the
  rows its condition selects, an \<open>INSERT\<close> appends one, and \<open>rows_affected\<close> counts the rows
  a condition selects.

  The lemmas give the meaning of a sequence of statements (\<open>tx_simps\<close>), the composition of
  invariants along it (\<open>tx_keeps_intros\<close>), the errors it cannot end in (\<open>tx_never_intros\<close>),
  and what an update does to keys, sums and membership.
\<close>

named_theorems tx_simps \<open>what a successful transaction did\<close>
named_theorems tx_keeps_intros \<open>composition rules for preserved predicates\<close>
named_theorems tx_never_intros \<open>composition rules for errors that cannot happen\<close>

type_synonym ('s, 'e, 'a) tx = "'s \<Rightarrow> 'e + ('a \<times> 's)"

section \<open>Sequencing\<close>

definition tx_return :: "'a \<Rightarrow> ('s, 'e, 'a) tx" where
  "tx_return x s = Inr (x, s)"

definition tx_fail :: "'e \<Rightarrow> ('s, 'e, 'a) tx" where
  "tx_fail e s = Inl e"

definition tx_bind :: "('s, 'e, 'a) tx \<Rightarrow> ('a \<Rightarrow> ('s, 'e, 'b) tx) \<Rightarrow> ('s, 'e, 'b) tx" where
  "tx_bind m k s = (case m s of Inl e \<Rightarrow> Inl e | Inr (x, s') \<Rightarrow> k x s')"

definition tx_then :: "('s, 'e, unit) tx \<Rightarrow> ('s, 'e, 'b) tx \<Rightarrow> ('s, 'e, 'b) tx" where
  "tx_then m k = tx_bind m (\<lambda>_. k)"

definition tx_gets :: "('s \<Rightarrow> 'a) \<Rightarrow> ('s, 'e, 'a) tx" where
  "tx_gets f s = Inr (f s, s)"

definition tx_read :: "('s \<Rightarrow> 'e + 'a) \<Rightarrow> ('s, 'e, 'a) tx" where
  "tx_read f s = (case f s of Inl e \<Rightarrow> Inl e | Inr x \<Rightarrow> Inr (x, s))"

definition tx_modify :: "('s \<Rightarrow> 's) \<Rightarrow> ('s, 'e, unit) tx" where
  "tx_modify f s = Inr ((), f s)"

definition tx_require :: "('s \<Rightarrow> bool) \<Rightarrow> 'e \<Rightarrow> ('s, 'e, unit) tx" where
  "tx_require P e s = (if P s then Inr ((), s) else Inl e)"

definition tx_map_err :: "('e \<Rightarrow> 'f) \<Rightarrow> ('s, 'e, 'a) tx \<Rightarrow> ('s, 'f, 'a) tx" where
  "tx_map_err f m s = map_err f (m s)"

text \<open>Begin, run, then commit or roll back.\<close>

definition tx_run :: "('s, 'e, 'a) tx \<Rightarrow> 's \<Rightarrow> ('e + 'a) \<times> 's" where
  "tx_run m s = (case m s of Inl e \<Rightarrow> (Inl e, s) | Inr (x, s') \<Rightarrow> (Inr x, s'))"

lemma tx_return_iff [tx_simps]: "tx_return x s = Inr (y, s') \<longleftrightarrow> y = x \<and> s' = s"
  by (auto simp: tx_return_def)

lemma tx_fail_iff [tx_simps]: "tx_fail e s = Inr (y, s') \<longleftrightarrow> False"
  by (simp add: tx_fail_def)

lemma tx_bind_iff [tx_simps]:
  "tx_bind m k s = Inr (y, s') \<longleftrightarrow> (\<exists>x s1. m s = Inr (x, s1) \<and> k x s1 = Inr (y, s'))"
  by (auto simp: tx_bind_def split: sum.splits)

lemma tx_then_iff [tx_simps]:
  "tx_then m k s = Inr (y, s') \<longleftrightarrow> (\<exists>s1. m s = Inr ((), s1) \<and> k s1 = Inr (y, s'))"
  by (auto simp: tx_then_def tx_bind_iff)

lemma tx_gets_iff [tx_simps]: "tx_gets f s = Inr (y, s') \<longleftrightarrow> y = f s \<and> s' = s"
  by (auto simp: tx_gets_def)

lemma tx_read_iff [tx_simps]: "tx_read f s = Inr (y, s') \<longleftrightarrow> f s = Inr y \<and> s' = s"
  by (auto simp: tx_read_def split: sum.splits)

lemma tx_modify_iff [tx_simps]: "tx_modify f s = Inr (u, s') \<longleftrightarrow> s' = f s"
  by (auto simp: tx_modify_def)

lemma tx_require_iff [tx_simps]: "tx_require P e s = Inr (u, s') \<longleftrightarrow> P s \<and> s' = s"
  by (auto simp: tx_require_def)

lemma tx_map_err_iff [tx_simps]: "tx_map_err f m s = Inr (y, s') \<longleftrightarrow> m s = Inr (y, s')"
  by (simp add: tx_map_err_def map_err_Inr_iff)

lemma tx_bind_Inl_iff:
  "tx_bind m k s = Inl e \<longleftrightarrow> m s = Inl e \<or> (\<exists>x s1. m s = Inr (x, s1) \<and> k x s1 = Inl e)"
  by (auto simp: tx_bind_def split: sum.splits)

lemma tx_then_Inl_iff:
  "tx_then m k s = Inl e \<longleftrightarrow> m s = Inl e \<or> (\<exists>s1. m s = Inr ((), s1) \<and> k s1 = Inl e)"
  by (auto simp: tx_then_def tx_bind_Inl_iff)

lemma tx_require_Inl_iff: "tx_require P e s = Inl e' \<longleftrightarrow> \<not> P s \<and> e' = e"
  by (auto simp: tx_require_def)

lemma tx_modify_Inl_iff: "tx_modify f s = Inl e \<longleftrightarrow> False"
  by (simp add: tx_modify_def)

lemma tx_gets_Inl_iff: "tx_gets f s = Inl e \<longleftrightarrow> False"
  by (simp add: tx_gets_def)

lemma tx_return_Inl_iff: "tx_return x s = Inl e \<longleftrightarrow> False"
  by (simp add: tx_return_def)

lemma tx_read_Inl_iff: "tx_read f s = Inl e \<longleftrightarrow> f s = Inl e"
  by (auto simp: tx_read_def split: sum.splits)

lemma tx_fail_Inl_iff: "tx_fail e s = Inl e' \<longleftrightarrow> e' = e"
  by (auto simp: tx_fail_def)

lemma tx_map_err_Inl_iff: "tx_map_err f m s = Inl e \<longleftrightarrow> (\<exists>e'. m s = Inl e' \<and> e = f e')"
  by (auto simp: tx_map_err_def map_err_Inl_iff)

lemmas tx_errors = tx_bind_Inl_iff tx_then_Inl_iff tx_require_Inl_iff tx_modify_Inl_iff
  tx_gets_Inl_iff tx_return_Inl_iff tx_read_Inl_iff tx_fail_Inl_iff tx_map_err_Inl_iff

lemma tx_run_Inl_iff: "tx_run m s = (Inl e, s') \<longleftrightarrow> m s = Inl e \<and> s' = s"
  by (auto simp: tx_run_def split: sum.splits)

lemma tx_run_Inr_iff: "tx_run m s = (Inr x, s') \<longleftrightarrow> m s = Inr (x, s')"
  by (auto simp: tx_run_def split: sum.splits)

lemma tx_run_cases:
  obtains e where "m s = Inl e" "tx_run m s = (Inl e, s)"
  | x s' where "m s = Inr (x, s')" "tx_run m s = (Inr x, s')"
  by (cases "m s") (auto simp: tx_run_def)

lemma tx_steps:
  "tx_then (tx_require P e) k s = (if P s then k s else Inl e)" "tx_then (tx_modify f) k s = k (f s)"
  "tx_bind (tx_gets g) h s = h (g s) s"
  by (simp_all add: tx_then_def tx_bind_def tx_require_def tx_modify_def tx_gets_def)

section \<open>Preserved predicates\<close>

definition tx_keeps :: "('s \<Rightarrow> bool) \<Rightarrow> ('s, 'e, 'a) tx \<Rightarrow> bool" where
  "tx_keeps I m \<longleftrightarrow> (\<forall>s x s'. I s \<longrightarrow> m s = Inr (x, s') \<longrightarrow> I s')"

lemma tx_keepsI: "(\<And>s x s'. I s \<Longrightarrow> m s = Inr (x, s') \<Longrightarrow> I s') \<Longrightarrow> tx_keeps I m"
  by (auto simp: tx_keeps_def)

lemma tx_keepsD: "tx_keeps I m \<Longrightarrow> I s \<Longrightarrow> m s = Inr (x, s') \<Longrightarrow> I s'"
  unfolding tx_keeps_def by blast

lemma tx_keeps_run: "tx_keeps I m \<Longrightarrow> I s \<Longrightarrow> tx_run m s = (r, s') \<Longrightarrow> I s'"
  by (auto simp: tx_run_def split: sum.splits dest: tx_keepsD)

lemma tx_keeps_bind [tx_keeps_intros]:
  "tx_keeps I m \<Longrightarrow> (\<And>x. tx_keeps I (k x)) \<Longrightarrow> tx_keeps I (tx_bind m k)"
  by (rule tx_keepsI) (auto simp only: tx_bind_iff dest: tx_keepsD)

lemma tx_keeps_then [tx_keeps_intros]:
  "tx_keeps I m \<Longrightarrow> tx_keeps I k \<Longrightarrow> tx_keeps I (tx_then m k)"
  unfolding tx_then_def by (rule tx_keeps_bind)

lemma tx_keeps_silent [tx_keeps_intros]:
  "tx_keeps I (tx_return x)" "tx_keeps I (tx_fail e)" "tx_keeps I (tx_gets f)"
  "tx_keeps I (tx_read g)" "tx_keeps I (tx_require P e)"
  by (rule tx_keepsI, simp only: tx_simps)+

lemma tx_keeps_modify [tx_keeps_intros]: "(\<And>s. I s \<Longrightarrow> I (f s)) \<Longrightarrow> tx_keeps I (tx_modify f)"
  by (rule tx_keepsI) (simp only: tx_simps)

lemma tx_keeps_guard:
  "(\<And>s. I s \<Longrightarrow> P s \<Longrightarrow> I (f s)) \<Longrightarrow> tx_keeps I (tx_then (tx_require P e) (tx_modify f))"
  by (rule tx_keepsI) (auto simp: tx_simps)

lemma tx_keeps_map_err [tx_keeps_intros]: "tx_keeps I m \<Longrightarrow> tx_keeps I (tx_map_err f m)"
  by (rule tx_keepsI) (simp only: tx_simps, rule tx_keepsD)

lemma tx_keeps_if [tx_keeps_intros]:
  "tx_keeps I m \<Longrightarrow> tx_keeps I k \<Longrightarrow> tx_keeps I (if b then m else k)"
  by simp

lemma tx_keeps_case_option [tx_keeps_intros]:
  "tx_keeps I m \<Longrightarrow> (\<And>x. tx_keeps I (k x)) \<Longrightarrow> tx_keeps I (case z of None \<Rightarrow> m | Some x \<Rightarrow> k x)"
  by (cases z) simp_all

lemma tx_keeps_case_prod [tx_keeps_intros]:
  "(\<And>x y. tx_keeps I (k x y)) \<Longrightarrow> tx_keeps I (case p of (x, y) \<Rightarrow> k x y)"
  by (cases p) simp

section \<open>Errors that cannot happen\<close>

definition tx_never :: "'e \<Rightarrow> ('s, 'e, 'a) tx \<Rightarrow> bool" where
  "tx_never e m \<longleftrightarrow> (\<forall>s. m s \<noteq> Inl e)"

lemma tx_neverD: "tx_never e m \<Longrightarrow> m s \<noteq> Inl e"
  by (simp add: tx_never_def)

lemma tx_never_bind [tx_never_intros]:
  "tx_never e m \<Longrightarrow> (\<And>x. tx_never e (k x)) \<Longrightarrow> tx_never e (tx_bind m k)"
  by (auto simp: tx_never_def tx_bind_Inl_iff)

lemma tx_never_then [tx_never_intros]:
  "tx_never e m \<Longrightarrow> tx_never e k \<Longrightarrow> tx_never e (tx_then m k)"
  unfolding tx_then_def by (rule tx_never_bind)

lemma tx_never_silent [tx_never_intros]:
  "tx_never e (tx_return x)" "tx_never e (tx_gets f)" "tx_never e (tx_modify g)"
  "e \<noteq> e' \<Longrightarrow> tx_never e (tx_fail e')" "e \<noteq> e' \<Longrightarrow> tx_never e (tx_require P e')"
  by (simp_all add: tx_never_def tx_gets_Inl_iff tx_return_Inl_iff tx_modify_Inl_iff tx_fail_Inl_iff
      tx_require_Inl_iff)

lemma tx_never_read [tx_never_intros]: "(\<And>s. f s \<noteq> Inl e) \<Longrightarrow> tx_never e (tx_read f)"
  by (simp add: tx_never_def tx_read_Inl_iff)

lemma tx_never_if [tx_never_intros]:
  "tx_never e m \<Longrightarrow> tx_never e k \<Longrightarrow> tx_never e (if b then m else k)"
  by simp

lemma tx_never_case_option [tx_never_intros]:
  "tx_never e m \<Longrightarrow> (\<And>x. tx_never e (k x)) \<Longrightarrow> tx_never e (case z of None \<Rightarrow> m | Some x \<Rightarrow> k x)"
  by (cases z) simp_all

lemma tx_never_case_prod [tx_never_intros]:
  "(\<And>x y. tx_never e (k x y)) \<Longrightarrow> tx_never e (case p of (x, y) \<Rightarrow> k x y)"
  by (cases p) simp

section \<open>Rows\<close>

definition sql_update :: "('r \<Rightarrow> bool) \<Rightarrow> ('r \<Rightarrow> 'r) \<Rightarrow> 'r list \<Rightarrow> 'r list" where
  "sql_update P f rows = map (\<lambda>r. if P r then f r else r) rows"

definition rows_affected :: "('r \<Rightarrow> bool) \<Rightarrow> 'r list \<Rightarrow> nat" where
  "rows_affected P rows = length (filter P rows)"

definition sql_sum :: "('r \<Rightarrow> nat) \<Rightarrow> ('r \<Rightarrow> bool) \<Rightarrow> 'r list \<Rightarrow> nat" where
  "sql_sum v P rows = sum_list (map v (filter P rows))"

lemma length_sql_update [simp]: "length (sql_update P f rows) = length rows"
  by (simp add: sql_update_def)

lemma sql_update_Nil [simp]: "sql_update P f [] = []"
  by (simp add: sql_update_def)

lemma sql_update_Cons [simp]:
  "sql_update P f (r # rows) = (if P r then f r else r) # sql_update P f rows"
  by (simp add: sql_update_def)

lemma in_sql_update:
  "r' \<in> set (sql_update P f rows) \<longleftrightarrow> (\<exists>r\<in>set rows. r' = (if P r then f r else r))"
  by (auto simp: sql_update_def)

lemma sql_update_id: "(\<And>r. r \<in> set rows \<Longrightarrow> \<not> P r) \<Longrightarrow> sql_update P f rows = rows"
  by (auto simp: sql_update_def intro: map_idI)

lemma map_sql_update: "(\<And>r. k (f r) = k r) \<Longrightarrow> map k (sql_update P f rows) = map k rows"
  by (auto simp: sql_update_def)

lemma find_sql_update:
  assumes "\<And>r. Q (f r) = Q r"
  shows "find Q (sql_update P f rows) = map_option (\<lambda>r. if P r then f r else r) (find Q rows)"
  using assms by (induction rows) auto

lemma filter_sql_update:
  assumes "\<And>r. Q (f r) = Q r"
  shows "filter Q (sql_update P f rows) = sql_update P f (filter Q rows)"
  using assms by (induction rows) auto

lemma sql_sum_append [simp]: "sql_sum v P (xs @ ys) = sql_sum v P xs + sql_sum v P ys"
  by (simp add: sql_sum_def)

lemma sql_sum_simps [simp]:
  "sql_sum v P [] = 0"
  "sql_sum v P (r # rows) = (if P r then v r else 0) + sql_sum v P rows"
  by (simp_all add: sql_sum_def)

lemma sql_sum_0: "(\<And>r. r \<in> set rows \<Longrightarrow> \<not> P r) \<Longrightarrow> sql_sum v P rows = 0"
  by (induction rows) simp_all

lemma sql_sum_0D: "sql_sum v P rows = 0 \<Longrightarrow> r \<in> set rows \<Longrightarrow> P r \<Longrightarrow> v r = 0"
  by (induction rows) auto

lemma sql_sum_update:
  "(\<And>r. v (f r) = v r \<and> Q (f r) = Q r) \<Longrightarrow> sql_sum v Q (sql_update P f rows) = sql_sum v Q rows"
  by (induction rows) auto

lemma rows_affected_simps [simp]:
  "rows_affected P [] = 0"
  "rows_affected P (r # rows) = (if P r then 1 else 0) + rows_affected P rows"
  by (simp_all add: rows_affected_def)

lemma rows_affected_append [simp]:
  "rows_affected P (xs @ ys) = rows_affected P xs + rows_affected P ys"
  by (simp add: rows_affected_def)

lemma rows_affected_0_iff: "rows_affected P rows = 0 \<longleftrightarrow> (\<forall>r\<in>set rows. \<not> P r)"
  by (simp add: rows_affected_def filter_empty_conv)

lemma rows_affected_pos: "rows_affected P rows = 1 \<Longrightarrow> \<exists>r\<in>set rows. P r"
  using rows_affected_0_iff [of P rows] by auto

text \<open>At most one row has a given key.\<close>

lemma distinct_key_eq:
  "distinct (map k rows) \<Longrightarrow> r \<in> set rows \<Longrightarrow> r' \<in> set rows \<Longrightarrow> k r = k r' \<Longrightarrow> r = r'"
  by (auto simp: distinct_map dest: inj_onD)

lemma find_key:
  assumes "distinct (map k rows)" "r \<in> set rows" "k r = key"
  shows "find (\<lambda>r. k r = key) rows = Some r"
  using assms
proof (induction rows)
  case (Cons x rows)
  show ?case
  proof (cases "r = x")
    case False
    with Cons.prems have "k x \<noteq> key" "r \<in> set rows" by auto
    with Cons show ?thesis by simp
  qed (use Cons.prems in simp)
qed simp

lemma find_SomeD: "find P rows = Some r \<Longrightarrow> r \<in> set rows \<and> P r"
  by (induction rows) (auto split: if_splits)

lemma find_NoneD: "find P rows = None \<Longrightarrow> r \<in> set rows \<Longrightarrow> \<not> P r"
  by (auto simp: find_None_iff)

lemma find_append: "find P (xs @ ys) = (case find P xs of None \<Rightarrow> find P ys | Some x \<Rightarrow> Some x)"
  by (induction xs) auto

lemma rows_affected_key:
  assumes "distinct (map k rows)"
  shows "rows_affected (\<lambda>r. k r = key \<and> P r) rows = (if \<exists>r\<in>set rows. k r = key \<and> P r then 1 else 0)"
  using assms
proof (induction rows)
  case (Cons r rows)
  show ?case
  proof (cases "k r = key")
    case True
    with Cons.prems have "\<forall>r'\<in>set rows. k r' \<noteq> key" by (metis distinct.simps(2) imageI list.map(2) list.set_map)
    then have "rows_affected (\<lambda>r. k r = key \<and> P r) rows = 0" by (auto simp: rows_affected_0_iff)
    with True \<open>\<forall>r'\<in>set rows. k r' \<noteq> key\<close> show ?thesis by auto
  qed (use Cons in auto)
qed simp

section \<open>Reading rows\<close>

text \<open>Converting every fetched row; the first row that does not convert fails the query.\<close>

fun collect_results :: "('e + 'a) list \<Rightarrow> 'e + 'a list" where
  "collect_results [] = Inr []"
| "collect_results (r # rs) =
     (case r of Inl e \<Rightarrow> Inl e
      | Inr x \<Rightarrow> (case collect_results rs of Inl e \<Rightarrow> Inl e | Inr xs \<Rightarrow> Inr (x # xs)))"

lemma collect_results_map_Inr [simp]: "collect_results (map Inr xs) = Inr xs"
  by (induction xs) simp_all

lemma collect_results_Inr_iff: "collect_results rs = Inr xs \<longleftrightarrow> rs = map Inr xs"
proof
  show "collect_results rs = Inr xs \<Longrightarrow> rs = map Inr xs"
    by (induction rs arbitrary: xs) (auto split: sum.splits)
qed simp

lemma collect_results_length: "collect_results rs = Inr xs \<Longrightarrow> length xs = length rs"
  by (auto simp: collect_results_Inr_iff)

end
