(* ===== verification/Payment_Intent.thy ===== *)
theory Payment_Intent
  imports Money
begin

text \<open>
  Payment intents of \<open>crates/gateway-domain/src/payment_intent.rs\<close>, and the JSON values
  the domain stores. The compact JSON printer is a library outside the repository: it is
  the parameter \<open>json_to_string\<close>. The fresh identifier of \<open>Uuid::now_v7\<close> is an argument.
\<close>

section \<open>JSON values\<close>

datatype json =
    JNull
  | JBool bool
  | JNumber string
  | JString string
  | JArray "json list"
  | JObject "(string \<times> json) list"

fun json_is_object :: "json \<Rightarrow> bool" where
  "json_is_object (JObject _) = True"
| "json_is_object _ = False"

fun json_as_array :: "json \<Rightarrow> json list option" where
  "json_as_array (JArray xs) = Some xs"
| "json_as_array _ = None"

fun json_as_str :: "json \<Rightarrow> string option" where
  "json_as_str (JString s) = Some s"
| "json_as_str _ = None"

fun json_get :: "string \<Rightarrow> json \<Rightarrow> json option" where
  "json_get key (JObject kvs) = map_of kvs key"
| "json_get key _ = None"

section \<open>Payment intents\<close>

datatype payment_intent_status =
    PI_RequiresQuote
  | PI_AwaitingPayment
  | PI_PartiallyPaid
  | PI_RiskHold
  | PI_Paid
  | PI_Expired
  | PI_Cancelled

datatype payment_intent_error =
    InvalidReference
  | DescriptionTooLong
  | MetadataMustBeObject
  | MetadataTooLarge
  | UnknownStatus string

definition payment_intent_status_as_str :: "payment_intent_status \<Rightarrow> string" where
  "payment_intent_status_as_str s =
     (case s of PI_RequiresQuote \<Rightarrow> ''requires_quote'' | PI_AwaitingPayment \<Rightarrow> ''awaiting_payment''
      | PI_PartiallyPaid \<Rightarrow> ''partially_paid'' | PI_RiskHold \<Rightarrow> ''risk_hold'' | PI_Paid \<Rightarrow> ''paid''
      | PI_Expired \<Rightarrow> ''expired'' | PI_Cancelled \<Rightarrow> ''cancelled'')"

definition payment_intent_status_from_str :: "string \<Rightarrow> payment_intent_error + payment_intent_status" where
  "payment_intent_status_from_str value =
     (if value = ''requires_quote'' then Inr PI_RequiresQuote
      else if value = ''awaiting_payment'' then Inr PI_AwaitingPayment
      else if value = ''partially_paid'' then Inr PI_PartiallyPaid
      else if value = ''risk_hold'' then Inr PI_RiskHold
      else if value = ''paid'' then Inr PI_Paid
      else if value = ''expired'' then Inr PI_Expired
      else if value = ''cancelled'' then Inr PI_Cancelled
      else Inl (UnknownStatus value))"

record payment_intent =
  pi_id :: uuid
  pi_merchant_id :: uuid
  pi_amount :: fiat_amount
  pi_status :: payment_intent_status
  pi_reference :: string
  pi_description :: "string option"
  pi_metadata :: json
  pi_created_at :: instant
  pi_updated_at :: instant

definition MAX_METADATA_BYTES :: nat where
  "MAX_METADATA_BYTES = 16384"

definition payment_intent_create ::
  "(json \<Rightarrow> string) \<Rightarrow> uuid \<Rightarrow> uuid \<Rightarrow> fiat_amount \<Rightarrow> string \<Rightarrow> string option \<Rightarrow> json \<Rightarrow> instant
     \<Rightarrow> payment_intent_error + payment_intent" where
  "payment_intent_create json_to_string now_v7 merchant_id amount reference description metadata now =
     (if reference = [] \<or> length reference > 128 then Inl InvalidReference
      else if (case description of Some value \<Rightarrow> length value > 500 | None \<Rightarrow> False)
      then Inl DescriptionTooLong
      else if \<not> json_is_object metadata then Inl MetadataMustBeObject
      else if length (json_to_string metadata) > MAX_METADATA_BYTES then Inl MetadataTooLarge
      else Inr \<lparr> pi_id = now_v7, pi_merchant_id = merchant_id, pi_amount = amount,
                 pi_status = PI_RequiresQuote, pi_reference = reference,
                 pi_description = description, pi_metadata = metadata,
                 pi_created_at = now, pi_updated_at = now \<rparr>)"

section \<open>Lemmas\<close>

text \<open>The constraints a stored intent satisfies.\<close>

definition payment_intent_wf :: "(json \<Rightarrow> string) \<Rightarrow> payment_intent \<Rightarrow> bool" where
  "payment_intent_wf json_to_string p \<longleftrightarrow>
     0 < length (pi_reference p) \<and> length (pi_reference p) \<le> 128 \<and>
     (\<forall>d. pi_description p = Some d \<longrightarrow> length d \<le> 500) \<and>
     json_is_object (pi_metadata p) \<and> length (json_to_string (pi_metadata p)) \<le> 16384"

text \<open>A payment intent is created exactly when its reference has one to 128 bytes,
  its description at most 500, and its metadata is a JSON object of at most 16384 bytes
  in compact form; a created intent waits for a quote, keeps every argument, and reports
  the first violated constraint otherwise.\<close>

theorem payment_intent_create_exact:
  "(payment_intent_create js i m a r d md now = Inr p \<longleftrightarrow>
      payment_intent_wf js p \<and>
      p = \<lparr> pi_id = i, pi_merchant_id = m, pi_amount = a, pi_status = PI_RequiresQuote,
            pi_reference = r, pi_description = d, pi_metadata = md,
            pi_created_at = now, pi_updated_at = now \<rparr>) \<and>
   (payment_intent_create js i m a r d md now = Inl InvalidReference \<longleftrightarrow> r = [] \<or> 128 < length r) \<and>
   (payment_intent_create js i m a r d md now = Inl DescriptionTooLong \<longleftrightarrow>
      r \<noteq> [] \<and> length r \<le> 128 \<and> (\<exists>t. d = Some t \<and> 500 < length t))"
proof -
  have d: "(case d of Some value \<Rightarrow> length value > 500 | None \<Rightarrow> False) \<longleftrightarrow> (\<exists>t. d = Some t \<and> 500 < length t)"
    by (auto split: option.split)
  show ?thesis
    unfolding payment_intent_create_def d
    by (auto simp: payment_intent_wf_def MAX_METADATA_BYTES_def not_less split: if_splits)
qed

text \<open>The reference limit counts bytes: a reference of 65 two-byte characters is
  refused, although it has fewer than the 128 characters the error message allows.\<close>

theorem reference_limit_counts_bytes:
  fixes c1 c2 :: char
  defines "c1 \<equiv> char_of (208 :: nat)" and "c2 \<equiv> char_of (176 :: nat)"
  shows "char_count (concat (replicate 65 [c1, c2])) = 65 \<and>
    payment_intent_create js i m a (concat (replicate 65 [c1, c2])) d md now = Inl InvalidReference"
proof -
  have c: "char_count (concat (replicate n [c1, c2])) = n" for n
    by (induction n) (simp_all add: char_count_def c1_def c2_def of_char_of)
  have l: "length (concat (replicate n [c1, c2])) = 2 * n" for n
    by (induction n) simp_all
  show ?thesis using c [of 65] l [of 65] by (simp add: payment_intent_create_def)
qed

end
