(* ===== verification/Quote.thy ===== *)
theory Quote
  imports Payment_Intent
begin

text \<open>
  Quotes of \<open>crates/gateway-domain/src/quote.rs\<close>: a quote plan is built from a price, a
  policy and a rail-health snapshot, each of which must be present, fresh and valid. The
  lemmas give the exact conditions under which a plan exists and what it contains.
\<close>

section \<open>Data\<close>

definition MAX_AMOUNT_SLOT_COUNT :: nat where
  "MAX_AMOUNT_SLOT_COUNT = 10000"

datatype rail_health = Healthy | Degraded | Unavailable

record price_snapshot =
  ps_id :: uuid
  ps_rate_numerator :: raw_amount
  ps_rate_denominator :: raw_amount
  ps_sources :: json
  ps_observed_at :: instant

record quote_policy_snapshot =
  qp_id :: uuid
  qp_version :: string
  qp_quote_ttl_seconds :: int
  qp_late_payment_window_seconds :: int
  qp_amount_slot_count :: nat
  qp_max_price_age_seconds :: int
  qp_max_policy_age_seconds :: int
  qp_max_rail_health_age_seconds :: int
  qp_observed_at :: instant

record rail_health_snapshot =
  rh_id :: uuid
  rh_health :: rail_health
  rh_observed_at :: instant

record quote_plan =
  pl_quote_id :: uuid
  pl_attempt_id :: uuid
  pl_merchant_id :: uuid
  pl_payment_intent_id :: uuid
  pl_asset_id :: uuid
  pl_collector_address_id :: uuid
  pl_collector_address :: string
  pl_price_snapshot_id :: uuid
  pl_quote_policy_id :: uuid
  pl_rail_health_snapshot_id :: uuid
  pl_fiat_amount :: fiat_amount
  pl_base_amount_raw :: raw_amount
  pl_rate_numerator :: raw_amount
  pl_rate_denominator :: raw_amount
  pl_price_sources :: json
  pl_price_observed_at :: instant
  pl_policy_version :: string
  pl_policy_observed_at :: instant
  pl_max_price_age_seconds :: int
  pl_max_policy_age_seconds :: int
  pl_max_rail_health_age_seconds :: int
  pl_rail_health_observed_at :: instant
  pl_amount_slot_count :: nat
  pl_created_at :: instant
  pl_expires_at :: instant
  pl_late_payment_until :: instant

datatype quote_error =
    UnknownPrice
  | UnknownPolicy
  | UnknownRailHealth
  | StalePrice
  | StalePolicy
  | StaleRailHealth
  | UnhealthyRail
  | InvalidPriceSources
  | InvalidCollectorAddress
  | InvalidPolicy
  | QuoteMoney money_error

section \<open>Operations\<close>

definition has_independent_price_sources :: "json \<Rightarrow> bool" where
  "has_independent_price_sources sources =
     (case json_as_array sources of
        None \<Rightarrow> False
      | Some sources \<Rightarrow>
          if length sources < 2 then False
          else let groups = remdups (filter (\<lambda>group. group \<noteq> [])
                 (List.map_filter (\<lambda>source. Option.bind (json_get ''provider_group'' source) json_as_str) sources))
               in length groups \<ge> 2 \<and> length groups = length sources)"

definition validate_policy :: "quote_policy_snapshot \<Rightarrow> quote_error + unit" where
  "validate_policy policy =
     (let valid = (qp_version policy \<noteq> [] \<and> length (qp_version policy) \<le> 100 \<and>
        qp_quote_ttl_seconds policy > 0 \<and> qp_late_payment_window_seconds policy > 0 \<and>
        1 \<le> qp_amount_slot_count policy \<and> qp_amount_slot_count policy \<le> MAX_AMOUNT_SLOT_COUNT \<and>
        qp_max_price_age_seconds policy \<ge> 0 \<and> qp_max_policy_age_seconds policy \<ge> 0 \<and>
        qp_max_rail_health_age_seconds policy \<ge> 0)
      in if \<not> valid then Inl InvalidPolicy else Inr ())"

definition validate_age ::
  "(instant \<Rightarrow> int \<Rightarrow> instant option) \<Rightarrow> instant \<Rightarrow> instant \<Rightarrow> int \<Rightarrow> unit + unit" where
  "validate_age add_secs now observed_at max_age_seconds =
     bind_result (ok_or () (add_secs observed_at max_age_seconds)) (\<lambda>deadline.
       if observed_at > now \<or> now > deadline then Inl () else Inr ())"

definition u64_try_from_i64 :: "int \<Rightarrow> 64 word option" where
  "u64_try_from_i64 i = (if 0 \<le> i \<and> i < 2 ^ 64 then Some (word_of_int i) else None)"

definition quote_plan_build ::
  "(instant \<Rightarrow> int \<Rightarrow> instant option) \<Rightarrow> uuid \<Rightarrow> uuid \<Rightarrow> uuid \<Rightarrow> uuid \<Rightarrow> uuid \<Rightarrow> uuid \<Rightarrow> string
     \<Rightarrow> fiat_amount \<Rightarrow> price_snapshot option \<Rightarrow> quote_policy_snapshot option
     \<Rightarrow> rail_health_snapshot option \<Rightarrow> instant \<Rightarrow> quote_error + quote_plan" where
  "quote_plan_build add_secs quote_id attempt_id merchant_id payment_intent_id asset_id
     collector_address_id collector_address fiat_amount price policy rail now =
     bind_result (ok_or UnknownPrice price) (\<lambda>price.
     bind_result (ok_or UnknownPolicy policy) (\<lambda>policy.
     bind_result (ok_or UnknownRailHealth rail) (\<lambda>rail.
     bind_result (validate_policy policy) (\<lambda>_.
     bind_result (map_err (\<lambda>_. StalePrice)
       (validate_age add_secs now (ps_observed_at price) (qp_max_price_age_seconds policy))) (\<lambda>_.
     bind_result (map_err (\<lambda>_. StalePolicy)
       (validate_age add_secs now (qp_observed_at policy) (qp_max_policy_age_seconds policy))) (\<lambda>_.
     bind_result (map_err (\<lambda>_. StaleRailHealth)
       (validate_age add_secs now (rh_observed_at rail) (qp_max_rail_health_age_seconds policy))) (\<lambda>_.
     if rh_health rail \<noteq> Healthy then Inl UnhealthyRail
     else if collector_address = [] \<or> length collector_address > 200 then Inl InvalidCollectorAddress
     else if \<not> has_independent_price_sources (ps_sources price) then Inl InvalidPriceSources
     else
     bind_result (ok_or InvalidPolicy (u64_try_from_i64 (fa_minor_units fiat_amount))) (\<lambda>fiat_minor.
     bind_result (map_err QuoteMoney
       (mul_div_ceil fiat_minor (ps_rate_numerator price) (ps_rate_denominator price))) (\<lambda>base_amount_raw.
     bind_result (ok_or InvalidPolicy (add_secs now (qp_quote_ttl_seconds policy))) (\<lambda>expires_at.
     bind_result (ok_or InvalidPolicy (add_secs expires_at (qp_late_payment_window_seconds policy))) (\<lambda>late_payment_until.
     Inr \<lparr> pl_quote_id = quote_id, pl_attempt_id = attempt_id, pl_merchant_id = merchant_id,
           pl_payment_intent_id = payment_intent_id, pl_asset_id = asset_id,
           pl_collector_address_id = collector_address_id, pl_collector_address = collector_address,
           pl_price_snapshot_id = ps_id price, pl_quote_policy_id = qp_id policy,
           pl_rail_health_snapshot_id = rh_id rail, pl_fiat_amount = fiat_amount,
           pl_base_amount_raw = base_amount_raw, pl_rate_numerator = ps_rate_numerator price,
           pl_rate_denominator = ps_rate_denominator price, pl_price_sources = ps_sources price,
           pl_price_observed_at = ps_observed_at price, pl_policy_version = qp_version policy,
           pl_policy_observed_at = qp_observed_at policy,
           pl_max_price_age_seconds = qp_max_price_age_seconds policy,
           pl_max_policy_age_seconds = qp_max_policy_age_seconds policy,
           pl_max_rail_health_age_seconds = qp_max_rail_health_age_seconds policy,
           pl_rail_health_observed_at = rh_observed_at rail,
           pl_amount_slot_count = qp_amount_slot_count policy, pl_created_at = now,
           pl_expires_at = expires_at, pl_late_payment_until = late_payment_until \<rparr>)))))))))))"

section \<open>Lemmas\<close>

lemma set_map_filter_iff: "y \<in> set (List.map_filter f xs) \<longleftrightarrow> (\<exists>x\<in>set xs. f x = Some y)"
  by (induction xs) (auto simp: List.map_filter_simps split: option.splits)

lemma length_map_filter_le: "length (List.map_filter f xs) \<le> length xs"
  by (induction xs) (auto simp: List.map_filter_simps split: option.splits)

text \<open>The provider groups named by the sources of a price.\<close>

definition source_group :: "json \<Rightarrow> string option" where
  "source_group source = Option.bind (json_get ''provider_group'' source) json_as_str"

lemma map_filter_full:
  assumes "length (remdups (filter P (List.map_filter f xs))) = length xs"
  shows "\<exists>gs. map f xs = map Some gs \<and> distinct gs \<and> list_all P gs"
proof -
  have a: "length (remdups (filter P (List.map_filter f xs))) \<le> length (filter P (List.map_filter f xs))"
    by (rule length_remdups_leq)
  have b: "length (filter P (List.map_filter f xs)) \<le> length (List.map_filter f xs)"
    by (rule length_filter_le)
  have c: "length (List.map_filter f xs) = length xs"
    using a b assms length_map_filter_le [of f xs] by linarith
  have full: "map f xs = map Some (List.map_filter f xs)"
    using c
  proof (induction xs)
    case (Cons x xs)
    then show ?case using length_map_filter_le [of f xs]
      by (cases "f x") (auto simp: List.map_filter_simps)
  qed (simp add: List.map_filter_simps)
  have "length (filter P (List.map_filter f xs)) = length (List.map_filter f xs)"
    using a b c assms by linarith
  then have "filter P (List.map_filter f xs) = List.map_filter f xs"
    by (metis filter_True length_filter_less less_irrefl)
  moreover from this have "distinct (List.map_filter f xs)"
    using assms c by (metis card_distinct length_remdups_card_conv)
  ultimately show ?thesis
    using full by (metis list_all_iff filter_id_conv)
qed

lemma has_independent_price_sources_iff:
  "has_independent_price_sources j \<longleftrightarrow>
     (\<exists>sources gs. j = JArray sources \<and> 2 \<le> length sources \<and> map source_group sources = map Some gs \<and>
        distinct gs \<and> list_all (\<lambda>g. g \<noteq> []) gs)"
proof -
  have g: "(\<lambda>source. Option.bind (json_get ''provider_group'' source) json_as_str) = source_group"
    by (rule ext) (simp add: source_group_def)
  show ?thesis
  proof
    assume "has_independent_price_sources j"
    then obtain sources where "j = JArray sources" "2 \<le> length sources"
      "length (remdups (filter (\<lambda>g. g \<noteq> []) (List.map_filter source_group sources))) = length sources"
      unfolding has_independent_price_sources_def g
      by (cases j) (auto simp: Let_def split: if_splits)
    with map_filter_full show "\<exists>sources gs. j = JArray sources \<and> 2 \<le> length sources \<and>
        map source_group sources = map Some gs \<and> distinct gs \<and> list_all (\<lambda>g. g \<noteq> []) gs"
      by blast
  next
    assume "\<exists>sources gs. j = JArray sources \<and> 2 \<le> length sources \<and>
        map source_group sources = map Some gs \<and> distinct gs \<and> list_all (\<lambda>g. g \<noteq> []) gs"
    then obtain sources gs where s: "j = JArray sources" "2 \<le> length sources"
      "map source_group sources = map Some gs" "distinct gs" "list_all (\<lambda>g. g \<noteq> []) gs" by blast
    have "List.map_filter source_group sources = gs"
      using s(3) by (induction sources arbitrary: gs) (auto simp: List.map_filter_simps)
    moreover have "filter (\<lambda>g. g \<noteq> []) gs = gs" using s(5) by (simp add: list_all_iff filter_id_conv)
    moreover have "length gs = length sources" using s(3) by (metis length_map)
    ultimately show "has_independent_price_sources j"
      using s unfolding has_independent_price_sources_def g by (simp add: distinct_remdups_id)
  qed
qed

lemma validate_age_iff:
  assumes "checked_time add_secs"
  shows "validate_age add_secs now t age = Inr () \<longleftrightarrow>
    t \<le> now \<and> now \<le> t + age * nanos_per_sec \<and>
    instant_min \<le> t + age * nanos_per_sec \<and> t + age * nanos_per_sec \<le> instant_max"
  by (auto simp: validate_age_def checked_time.add_secs_eq [OF assms] not_less)

lemma validate_policy_iff:
  "validate_policy p = Inr u \<longleftrightarrow>
     0 < length (qp_version p) \<and> length (qp_version p) \<le> 100 \<and>
     0 < qp_quote_ttl_seconds p \<and> 0 < qp_late_payment_window_seconds p \<and>
     1 \<le> qp_amount_slot_count p \<and> qp_amount_slot_count p \<le> 10000 \<and>
     0 \<le> qp_max_price_age_seconds p \<and> 0 \<le> qp_max_policy_age_seconds p \<and>
     0 \<le> qp_max_rail_health_age_seconds p"
  by (auto simp: validate_policy_def MAX_AMOUNT_SLOT_COUNT_def Let_def)

lemma u64_try_from_i64_Some:
  "u64_try_from_i64 i = Some w \<longleftrightarrow> 0 \<le> i \<and> i < 2 ^ 64 \<and> int (unat w) = i"
proof
  assume "u64_try_from_i64 i = Some w"
  then show "0 \<le> i \<and> i < 2 ^ 64 \<and> int (unat w) = i"
    by (auto simp: u64_try_from_i64_def uint_word_of_int_eq take_bit_int_eq_self_iff split: if_splits)
next
  assume "0 \<le> i \<and> i < 2 ^ 64 \<and> int (unat w) = i"
  then show "u64_try_from_i64 i = Some w"
    by (auto simp: u64_try_from_i64_def)
qed

text \<open>C28: A quote is a fair and usable offer. A plan is built only from a price, a policy
  and a rail reading that are all present, none of them from the future and none older
  than the policy allows, on a healthy rail, with a price that names at least two
  sources of pairwise different non-empty provider groups; the quoted base amount is the
  least raw amount that covers the fiat amount at that price; and the offer expires
  after it is made and before its late-payment window closes, with one to 10000 amount
  slots.\<close>

theorem quote_plan_sound:
  assumes "checked_time add_secs"
    and "quote_plan_build add_secs qid aid m i asset coll addr fiat price policy rail now = Inr plan"
  shows "\<exists>pr po ra. price = Some pr \<and> policy = Some po \<and> rail = Some ra \<and>
    ps_observed_at pr \<le> now \<and> now \<le> ps_observed_at pr + qp_max_price_age_seconds po * nanos_per_sec \<and>
    qp_observed_at po \<le> now \<and> now \<le> qp_observed_at po + qp_max_policy_age_seconds po * nanos_per_sec \<and>
    rh_observed_at ra \<le> now \<and> now \<le> rh_observed_at ra + qp_max_rail_health_age_seconds po * nanos_per_sec \<and>
    rh_health ra = Healthy \<and> 0 < length addr \<and> length addr \<le> 200 \<and>
    (\<exists>sources gs. ps_sources pr = JArray sources \<and> 2 \<le> length sources \<and>
       map source_group sources = map Some gs \<and> distinct gs \<and> [] \<notin> set gs) \<and>
    (let p = fa_minor_units fiat * int (unat (ps_rate_numerator pr));
         d = int (unat (ps_rate_denominator pr)); b = int (unat (pl_base_amount_raw plan))
     in 0 < b \<and> p \<le> b * d \<and> (b - 1) * d < p) \<and>
    pl_expires_at plan = now + qp_quote_ttl_seconds po * nanos_per_sec \<and>
    pl_late_payment_until plan = pl_expires_at plan + qp_late_payment_window_seconds po * nanos_per_sec \<and>
    now < pl_expires_at plan \<and> pl_expires_at plan < pl_late_payment_until plan \<and>
    1 \<le> pl_amount_slot_count plan \<and> pl_amount_slot_count plan \<le> 10000"
proof -
  obtain pr po ra minor where ev: "price = Some pr" "policy = Some po" "rail = Some ra"
    and val: "validate_policy po = Inr ()"
    and age: "validate_age add_secs now (ps_observed_at pr) (qp_max_price_age_seconds po) = Inr ()"
      "validate_age add_secs now (qp_observed_at po) (qp_max_policy_age_seconds po) = Inr ()"
      "validate_age add_secs now (rh_observed_at ra) (qp_max_rail_health_age_seconds po) = Inr ()"
    and chk: "rh_health ra = Healthy" "addr \<noteq> []" "length addr \<le> 200"
      "has_independent_price_sources (ps_sources pr)"
    and minor: "u64_try_from_i64 (fa_minor_units fiat) = Some minor"
    and base: "mul_div_ceil minor (ps_rate_numerator pr) (ps_rate_denominator pr) = Inr (pl_base_amount_raw plan)"
    and exp: "add_secs now (qp_quote_ttl_seconds po) = Some (pl_expires_at plan)"
    and late: "add_secs (pl_expires_at plan) (qp_late_payment_window_seconds po) = Some (pl_late_payment_until plan)"
    and slots: "pl_amount_slot_count plan = qp_amount_slot_count po"
    using assms(2) unfolding quote_plan_build_def
    by (auto simp: result_simps split: if_splits)
  note v = val [unfolded validate_policy_iff]
  have e: "pl_expires_at plan = now + qp_quote_ttl_seconds po * nanos_per_sec"
    "pl_late_payment_until plan = pl_expires_at plan + qp_late_payment_window_seconds po * nanos_per_sec"
    using checked_time.add_secs_SomeD [OF assms(1) exp] checked_time.add_secs_SomeD [OF assms(1) late] by simp_all
  have n: "0 < qp_quote_ttl_seconds po * nanos_per_sec" "0 < qp_late_payment_window_seconds po * nanos_per_sec"
    using v by (simp_all add: nanos_per_sec_def)
  have "let p = fa_minor_units fiat * int (unat (ps_rate_numerator pr));
         d = int (unat (ps_rate_denominator pr)); b = int (unat (pl_base_amount_raw plan))
     in 0 < b \<and> p \<le> b * d \<and> (b - 1) * d < p"
  proof -
    let ?n = "unat (ps_rate_numerator pr)" and ?d = "unat (ps_rate_denominator pr)"
      and ?b = "unat (pl_base_amount_raw plan)"
    have c: "0 < unat minor * ?n" "unat minor * ?n \<le> ?b * ?d" "(?b - 1) * ?d < unat minor * ?n"
      using base by (simp_all add: mul_div_ceil_Inr_iff)
    then have b: "0 < ?b" by (cases ?b) auto
    have f: "fa_minor_units fiat = int (unat minor)" using minor by (simp add: u64_try_from_i64_Some)
    have "int (unat minor) * int ?n \<le> int ?b * int ?d" "int (?b - 1) * int ?d < int (unat minor) * int ?n"
      using c(2,3) by (simp_all only: of_nat_mult [symmetric] of_nat_le_iff of_nat_less_iff)
    moreover have "int (?b - 1) = int ?b - 1" using b by (simp add: of_nat_diff)
    ultimately show ?thesis unfolding f Let_def using b by (simp only: of_nat_0_less_iff)
  qed
  moreover have "\<exists>sources gs. ps_sources pr = JArray sources \<and> 2 \<le> length sources \<and>
       map source_group sources = map Some gs \<and> distinct gs \<and> [] \<notin> set gs"
    using chk(4) unfolding has_independent_price_sources_iff by (auto simp: list_all_iff)
  moreover have "ps_observed_at pr \<le> now \<and> now \<le> ps_observed_at pr + qp_max_price_age_seconds po * nanos_per_sec"
    "qp_observed_at po \<le> now \<and> now \<le> qp_observed_at po + qp_max_policy_age_seconds po * nanos_per_sec"
    "rh_observed_at ra \<le> now \<and> now \<le> rh_observed_at ra + qp_max_rail_health_age_seconds po * nanos_per_sec"
    using age by (simp_all add: validate_age_iff [OF assms(1)])
  moreover have "now < pl_expires_at plan" "pl_expires_at plan < pl_late_payment_until plan"
    using e n by simp_all
  moreover have "0 < length addr" using chk(2) by simp
  ultimately show ?thesis
    using ev chk(1,3) e v slots by (intro exI [of _ pr] exI [of _ po] exI [of _ ra]) simp
qed

definition sample_source :: "string \<Rightarrow> json" where
  "sample_source g = JObject [(''provider_group'', JString g)]"

definition sample_price :: price_snapshot where
  "sample_price = \<lparr> ps_id = 1, ps_rate_numerator = 1000000, ps_rate_denominator = 300,
     ps_sources = JArray [sample_source ''a'', sample_source ''b''], ps_observed_at = 0 \<rparr>"

definition sample_quote_policy :: quote_policy_snapshot where
  "sample_quote_policy = \<lparr> qp_id = 2, qp_version = ''q1'', qp_quote_ttl_seconds = 900,
     qp_late_payment_window_seconds = 3600, qp_amount_slot_count = 100, qp_max_price_age_seconds = 60,
     qp_max_policy_age_seconds = 60, qp_max_rail_health_age_seconds = 60, qp_observed_at = 0 \<rparr>"

definition sample_rail :: rail_health_snapshot where
  "sample_rail = \<lparr> rh_id = 3, rh_health = Healthy, rh_observed_at = 0 \<rparr>"

definition sample_fiat :: fiat_amount where
  "sample_fiat = \<lparr> fa_currency = CurrencyCode ''USD'', fa_minor_units = 10 \<rparr>"

theorem quote_plan_sound_witness:
  "\<exists>plan. quote_plan_build ref_add_secs 1 2 3 4 5 6 ''addr'' sample_fiat (Some sample_price)
     (Some sample_quote_policy) (Some sample_rail) 7 = Inr plan \<and>
   pl_expires_at plan = 900000000007 \<and> pl_base_amount_raw plan = 33334"
proof -
  have "\<exists>plan. quote_plan_build ref_add_secs 1 2 3 4 5 6 ''addr'' sample_fiat (Some sample_price)
     (Some sample_quote_policy) (Some sample_rail) 7 = Inr plan \<and> pl_base_amount_raw plan = 33334"
    by (simp add: quote_plan_build_def sample_price_def sample_quote_policy_def sample_rail_def
        sample_fiat_def sample_source_def validate_policy_def MAX_AMOUNT_SLOT_COUNT_def validate_age_def
        ref_add_secs_def instant_min_def instant_max_def nanos_per_sec_def
        has_independent_price_sources_def List.map_filter_simps u64_try_from_i64_def mul_div_ceil_cases)
  then obtain plan where p: "quote_plan_build ref_add_secs 1 2 3 4 5 6 ''addr'' sample_fiat (Some sample_price)
     (Some sample_quote_policy) (Some sample_rail) 7 = Inr plan" "pl_base_amount_raw plan = 33334" by blast
  from quote_plan_sound [OF ref_time.checked_time_axioms p(1)] p show ?thesis
    by (auto simp: sample_quote_policy_def nanos_per_sec_def)
qed

end
