(* ===== verification/Store.thy ===== *)
theory Store
  imports Transaction Ports Quote Settlement
begin

text \<open>
  The tables the repositories of \<open>crates/gateway-storage\<close> read and write, with the columns
  the code uses, as \<open>db/migrations\<close> declares them. Text columns hold the text the code
  writes and compares; \<open>NUMERIC\<close> amounts are natural numbers: an amount is bound as its
  decimal text and cast, and read back as text and parsed.

  \<open>st_db_now\<close> is the database's \<open>now()\<close> and \<open>st_now\<close> the process clock
  \<open>OffsetDateTime::now_utc()\<close>; nothing relates them. \<open>Uuid::now_v7\<close> is the supply
  \<open>st_now_v7\<close>, of which \<open>st_generated\<close> identifiers were taken; the identifiers of rows that
  nothing refers to (allocations, decisions, events, audit rows) are left out. A payload
  holds the values handed to \<open>json!\<close> before they are printed.

  A constraint that refuses a statement is an error of the statement
  (\<open>StorageUnavailable\<close> with the constraint's name, unless the code classifies it), and
  outages of the connection are not modelled: they abandon the transaction.
\<close>

section \<open>Rows\<close>

datatype payload_value =
    PV_Uuid uuid
  | PV_Uuids "uuid list"
  | PV_Amount raw_amount
  | PV_Text string
  | PV_OptText "string option"
  | PV_Count nat
  | PV_Bool bool
  | PV_Time instant
  | PV_OptUuid "uuid option"
  | PV_Number nat
  | PV_Int int

type_synonym payload = "(string \<times> payload_value) list"

record merchant_row =
  me_id :: uuid
  me_status :: string
  me_collector_policy :: string

record intent_row =
  in_id :: uuid
  in_merchant_id :: uuid
  in_amount_minor :: int
  in_currency :: string
  in_status :: string
  in_reference :: string
  in_description :: "string option"
  in_metadata :: json
  in_version :: nat
  in_created_at :: instant
  in_updated_at :: instant

record idempotency_row =
  id_merchant_id :: uuid
  id_route :: string
  id_key :: string
  id_request_hash :: "byte list"
  id_resource_id :: uuid
  id_completed_at :: "instant option"

record audit_row =
  au_merchant_id :: "uuid option"
  au_actor_type :: string
  au_actor_id :: "uuid option"
  au_action :: string
  au_resource_type :: string
  au_resource_id :: uuid
  au_reason :: "string option"
  au_payload :: payload

record api_key_row =
  ak_id :: uuid
  ak_merchant_id :: uuid
  ak_secret_hash :: "byte list"
  ak_revoked_at :: "instant option"
  ak_last_used_at :: "instant option"

record asset_row =
  ca_id :: uuid
  ca_chain :: string
  ca_network :: string
  ca_environment :: string
  ca_contract_address_key :: "byte list"
  ca_display_symbol :: string
  ca_decimals :: int
  ca_status :: string

record collector_row =
  co_id :: uuid
  co_asset_id :: uuid
  co_address_text :: string
  co_state :: string
  co_valid_from :: instant
  co_merchant_id :: "uuid option"

record quote_row =
  qu_id :: uuid
  qu_merchant_id :: uuid
  qu_payment_intent_id :: uuid
  qu_asset_id :: uuid
  qu_collector_address_id :: uuid
  qu_price_snapshot_id :: uuid
  qu_quote_policy_id :: uuid
  qu_rail_health_snapshot_id :: uuid
  qu_fiat_currency :: string
  qu_fiat_amount_minor :: int
  qu_base_amount_raw :: nat
  qu_amount_raw :: nat
  qu_rate_numerator :: nat
  qu_rate_denominator :: nat
  qu_price_sources :: json
  qu_price_observed_at :: instant
  qu_policy_version :: string
  qu_rail_health_observed_at :: instant
  qu_created_at :: instant
  qu_expires_at :: instant
  qu_late_payment_until :: instant

record attempt_row =
  at_id :: uuid
  at_merchant_id :: uuid
  at_payment_intent_id :: uuid
  at_quote_id :: uuid
  at_collector_address_id :: uuid
  at_expected_amount_raw :: nat
  at_memo_reference :: "string option"
  at_status :: string
  at_quote_expires_at :: instant
  at_late_payment_until :: instant
  at_created_at :: instant
  at_updated_at :: instant
  at_checkout_token :: string

record amount_lease_row =
  le_id :: uuid
  le_collector_address_id :: uuid
  le_amount_raw :: nat
  le_attempt_id :: uuid
  le_leased_from :: instant
  le_lease_until :: instant

record lease_history_row =
  lh_lease_id :: uuid
  lh_collector_address_id :: uuid
  lh_amount_raw :: nat
  lh_attempt_id :: uuid
  lh_leased_from :: instant
  lh_leased_until :: instant
  lh_released_at :: instant
  lh_release_reason :: string

record component_lease_row =
  lo_component :: string
  lo_holder :: string
  lo_fence_token :: int
  lo_lease_until :: instant

record transfer_row =
  tr_id :: uuid
  tr_asset_id :: uuid
  tr_collector_address_id :: uuid
  tr_chain :: string
  tr_network :: string
  tr_environment :: string
  tr_block_time :: instant
  tr_amount_raw :: nat
  tr_memo :: "string option"

record transfer_state_row =
  ts_transfer_id :: uuid
  ts_state :: string

record processing_row =
  pr_transfer_id :: uuid
  pr_allocated_raw :: nat
  pr_state :: string
  pr_last_error :: "string option"
  pr_version :: nat
  pr_updated_at :: instant

record attestation_row =
  ta_id :: uuid
  ta_transfer_id :: uuid
  ta_provider_group :: string
  ta_source_kind :: string

record settlement_policy_row =
  po_id :: uuid
  po_fiat_currency :: string
  po_version :: string
  po_status :: string

record settlement_tier_row =
  tw_policy_id :: uuid
  tw_max_fiat_minor :: int
  tw_min_independent_groups :: int
  tw_require_own_node :: bool
  tw_require_risk_allow :: bool
  tw_auto_settle :: bool

record risk_row =
  rk_id :: uuid
  rk_transfer_id :: uuid
  rk_provider :: string
  rk_decision :: string
  rk_score :: "int option"
  rk_reasons :: json
  rk_evaluated_at :: instant
  rk_submitted_by :: "uuid option"

record claim_row =
  cm_transfer_id :: uuid
  cm_payment_intent_id :: uuid
  cm_attempt_id :: uuid
  cm_merchant_id :: uuid
  cm_match_strategy :: string
  cm_claimed_at :: instant
  cm_collector_address_id :: uuid

record allocation_row =
  al_attempt_id :: uuid
  al_payment_intent_id :: uuid
  al_merchant_id :: uuid
  al_transfer_id :: uuid
  al_allocated_raw :: nat
  al_allocated_by :: string
  al_reason :: string
  al_created_at :: instant
  al_collector_address_id :: uuid

record decision_row =
  de_payment_intent_id :: uuid
  de_attempt_id :: uuid
  de_transfer_id :: uuid
  de_merchant_id :: uuid
  de_fiat_amount_minor :: int
  de_required_policy :: string
  de_distinct_groups :: nat
  de_had_own_node :: bool
  de_finality_state :: string
  de_risk_decision :: string
  de_risk_evaluation_id :: "uuid option"
  de_attestation_ids :: "uuid list"
  de_match_strategy :: string
  de_allocated_raw :: nat
  de_remainder_raw :: nat
  de_outcome :: string
  de_decided_by :: string
  de_decided_reason :: "string option"
  de_decided_at :: instant

record fulfillment_row =
  fu_payment_intent_id :: uuid
  fu_merchant_id :: uuid
  fu_status :: string
  fu_claimed_at :: instant
  fu_attempts :: nat

record payment_event_row =
  pe_merchant_id :: "uuid option"
  pe_payment_intent_id :: "uuid option"
  pe_attempt_id :: "uuid option"
  pe_transfer_id :: "uuid option"
  pe_event_type :: string
  pe_reason_code :: "string option"
  pe_source :: string
  pe_actor :: string
  pe_payload :: payload
  pe_created_at :: instant

record outbox_row =
  ob_id :: uuid
  ob_merchant_id :: "uuid option"
  ob_channel :: string
  ob_event_type :: string
  ob_aggregate_type :: string
  ob_aggregate_id :: uuid
  ob_payload :: payload
  ob_available_at :: instant
  ob_attempts :: int
  ob_last_error :: "string option"
  ob_claimed_by :: "string option"
  ob_claimed_until :: "instant option"
  ob_delivered_at :: "instant option"
  ob_dead_lettered_at :: "instant option"
  ob_created_at :: instant
  ob_target_endpoint_id :: "uuid option"
  ob_attempt_floor :: int

record resolution_row =
  mr_id :: uuid
  mr_operator_key_id :: uuid
  mr_idempotency_key :: string
  mr_request_hash :: "byte list"
  mr_action :: string
  mr_transfer_id :: uuid
  mr_payment_intent_id :: "uuid option"
  mr_attempt_id :: "uuid option"
  mr_merchant_id :: "uuid option"
  mr_allocated_raw :: "nat option"
  mr_remainder_raw :: "nat option"
  mr_disposition :: "string option"
  mr_external_reference :: "string option"
  mr_reason :: string
  mr_actor_label :: string
  mr_created_at :: instant

record disposition_row =
  od_resolution_id :: uuid
  od_transfer_id :: uuid
  od_payment_intent_id :: uuid
  od_merchant_id :: uuid
  od_remainder_raw :: nat
  od_disposition :: string
  od_external_reference :: string
  od_recorded_by :: uuid
  od_reason :: string
  od_recorded_at :: instant

record operator_key_row =
  ok_id :: uuid
  ok_secret_hash :: "byte list"
  ok_label :: string
  ok_scopes :: "string list"
  ok_last_used_at :: "instant option"
  ok_revoked_at :: "instant option"

record honor_proposal_row =
  hp_id :: uuid
  hp_proposer_key_id :: uuid
  hp_proposer_label :: string
  hp_idempotency_key :: string
  hp_request_hash :: "byte list"
  hp_transfer_id :: uuid
  hp_payment_intent_id :: uuid
  hp_attempt_id :: uuid
  hp_merchant_id :: uuid
  hp_allocate_raw :: nat
  hp_threshold_raw :: nat
  hp_reason :: string
  hp_evidence :: payload
  hp_status :: string
  hp_created_at :: instant
  hp_expires_at :: instant
  hp_decided_by_key_id :: "uuid option"
  hp_decided_by_label :: "string option"
  hp_decision_idempotency_key :: "string option"
  hp_decision_reason :: "string option"
  hp_decided_at :: "instant option"
  hp_resolution_id :: "uuid option"

record risk_binding_row =
  rb_operator_key_id :: uuid
  rb_provider :: string
  rb_disabled_at :: "instant option"

record price_snapshot_row =
  px_id :: uuid
  px_asset_id :: uuid
  px_fiat_currency :: string
  px_rate_numerator :: nat
  px_rate_denominator :: nat
  px_sources :: json
  px_observed_at :: instant
  px_ingested_by :: "uuid option"
  px_source_group_count :: nat
  px_deviation_bps :: nat

record price_reading_row =
  rd_asset_id :: uuid
  rd_fiat_currency :: string
  rd_source_key :: string
  rd_provider_group :: string
  rd_rate_numerator :: nat
  rd_rate_denominator :: nat
  rd_observed_at :: instant
  rd_received_at :: instant
  rd_ingested_by :: uuid
  rd_snapshot_id :: "uuid option"
  rd_discard_reason :: "string option"

record quote_policy_row =
  qy_id :: uuid
  qy_asset_id :: uuid
  qy_fiat_currency :: string
  qy_version :: string
  qy_status :: string
  qy_quote_ttl_seconds :: int
  qy_late_payment_window_seconds :: int
  qy_amount_slot_count :: int
  qy_max_price_age_seconds :: int
  qy_max_policy_age_seconds :: int
  qy_max_rail_health_age_seconds :: int
  qy_observed_at :: instant
  qy_min_price_sources :: int
  qy_max_price_deviation_bps :: int

record rail_health_row =
  rx_id :: uuid
  rx_asset_id :: uuid
  rx_health :: string
  rx_observed_at :: instant
  rx_ingested_by :: "uuid option"
  rx_detail :: "string option"

record rail_stop_row =
  rs_id :: uuid
  rs_asset_id :: uuid
  rs_reason_code :: string
  rs_detail :: "string option"
  rs_opened_by :: string
  rs_opened_at :: instant
  rs_cleared_by :: "string option"
  rs_cleared_reason :: "string option"
  rs_cleared_at :: "instant option"

record webhook_endpoint_row =
  we_id :: uuid
  we_merchant_id :: uuid
  we_url :: string
  we_secret_version :: int
  we_secret_fingerprint :: "byte list"
  we_previous_secret_version :: "int option"
  we_previous_secret_fingerprint :: "byte list option"
  we_previous_valid_until :: "instant option"
  we_status :: string
  we_created_at :: instant

record webhook_delivery_row =
  wd_event_id :: uuid
  wd_endpoint_id :: uuid
  wd_attempt :: int
  wd_response_status :: "int option"
  wd_error :: "string option"
  wd_duration_ms :: int
  wd_delivered_at :: instant

record redelivery_row =
  wr_id :: uuid
  wr_event_id :: uuid
  wr_merchant_id :: uuid
  wr_endpoint_id :: "uuid option"
  wr_principal :: string
  wr_operator_key_id :: "uuid option"
  wr_actor_label :: string
  wr_idempotency_key :: string
  wr_request_hash :: "byte list"
  wr_reason :: string
  wr_previous_state :: string
  wr_previous_attempts :: int
  wr_created_at :: instant

section \<open>The store\<close>

record store =
  st_db_now :: instant
  st_now :: instant
  st_now_v7 :: "nat \<Rightarrow> uuid"
  st_generated :: nat
  st_merchants :: "merchant_row list"
  st_intents :: "intent_row list"
  st_idempotency :: "idempotency_row list"
  st_audit :: "audit_row list"
  st_assets :: "asset_row list"
  st_collectors :: "collector_row list"
  st_quotes :: "quote_row list"
  st_attempts :: "attempt_row list"
  st_amount_leases :: "amount_lease_row list"
  st_lease_history :: "lease_history_row list"
  st_component_leases :: "component_lease_row list"
  st_transfers :: "transfer_row list"
  st_transfer_states :: "transfer_state_row list"
  st_processing :: "processing_row list"
  st_attestations :: "attestation_row list"
  st_policies :: "settlement_policy_row list"
  st_policy_tiers :: "settlement_tier_row list"
  st_risk :: "risk_row list"
  st_claims :: "claim_row list"
  st_allocations :: "allocation_row list"
  st_decisions :: "decision_row list"
  st_fulfillments :: "fulfillment_row list"
  st_events :: "payment_event_row list"
  st_outbox :: "outbox_row list"
  st_operator_keys :: "operator_key_row list"
  st_resolutions :: "resolution_row list"
  st_dispositions :: "disposition_row list"
  st_api_keys :: "api_key_row list"
  st_proposals :: "honor_proposal_row list"
  st_risk_bindings :: "risk_binding_row list"
  st_price_snapshots :: "price_snapshot_row list"
  st_price_readings :: "price_reading_row list"
  st_quote_policies :: "quote_policy_row list"
  st_rail_health :: "rail_health_row list"
  st_rail_stops :: "rail_stop_row list"
  st_endpoints :: "webhook_endpoint_row list"
  st_deliveries :: "webhook_delivery_row list"
  st_redeliveries :: "redelivery_row list"

type_synonym 'a repo_tx = "(store, repository_error, 'a) tx"

end
