(* ===== verification/Settlement_Store.thy ===== *)
theory Settlement_Store
  imports Settlement_Service Store
begin

text \<open>
  The settlement repository of \<open>crates/gateway-storage/src/settlement.rs\<close>: the queries a
  settlement pass reads, and the transactions that move money. Every statement of the
  code is a step of the transaction here, in the same order, with the constraints of
  \<open>db/migrations\<close> that can refuse it. Parsing an amount's text is the parameter
  \<open>u256_from_str\<close>.
\<close>

section \<open>Error texts\<close>

definition money_error_display :: "money_error \<Rightarrow> string" where
  "money_error_display e =
     (case e of
        InvalidCurrencyCode \<Rightarrow> ''currency must be exactly three ASCII letters''
      | AmountMustBePositive \<Rightarrow> ''amount must be greater than zero''
      | InvalidFiatAmount \<Rightarrow> ''fiat amount must be a base-10 positive signed 64-bit integer string''
      | InvalidRawAmount \<Rightarrow> ''raw amount must be a base-10 unsigned 256-bit integer string''
      | RawAmountOverflow \<Rightarrow> ''raw amount arithmetic overflowed 256 bits''
      | DivisionByZero \<Rightarrow> ''raw amount division by zero'')"

definition chain_error_display :: "chain_error \<Rightarrow> string" where
  "chain_error_display e =
     (case e of
        InvalidAddressKey \<Rightarrow> ''an address key must contain between 1 and 64 canonical bytes''
      | InvalidTxHash \<Rightarrow> ''a transaction hash must be a short alphanumeric identifier''
      | InvalidMemo \<Rightarrow> ''a memo must contain between 1 and 200 characters''
      | UnknownChainEnvironment v \<Rightarrow> ''unknown chain environment: '' @ v
      | UnknownObservationKind v \<Rightarrow> ''unknown observation kind: '' @ v
      | UnknownExecutionStatus v \<Rightarrow> ''unknown execution status: '' @ v
      | UnknownSourceFinality v \<Rightarrow> ''unknown source finality: '' @ v
      | UnknownTransferState v \<Rightarrow> ''unknown transfer state: '' @ v)"

definition settlement_error_display :: "settlement_error \<Rightarrow> string" where
  "settlement_error_display e =
     (case e of
        UnknownAttemptStatus v \<Rightarrow> ''unknown attempt status: '' @ v
      | UnknownRiskDecision v \<Rightarrow> ''unknown risk decision: '' @ v
      | AmountOverflow \<Rightarrow> ''stored amounts cannot be combined without overflowing 256 bits'')"

section \<open>Queries\<close>

definition SETTLEMENT_ACTOR :: string where
  "SETTLEMENT_ACTOR = ''system''"

definition parse_amount :: "(string \<Rightarrow> u256 option) \<Rightarrow> string \<Rightarrow> repository_error + raw_amount" where
  "parse_amount u256_from_str value =
     map_err (\<lambda>error. CorruptData (money_error_display error)) (raw_from_str u256_from_str value)"

definition parse_memo :: "string option \<Rightarrow> repository_error + memo option" where
  "parse_memo value =
     (case value of
        None \<Rightarrow> Inr None
      | Some text \<Rightarrow> bind_result
          (map_err (\<lambda>error. CorruptData (chain_error_display error)) (memo_new text)) (\<lambda>m. Inr (Some m)))"

definition parse_status :: "string \<Rightarrow> repository_error + attempt_status" where
  "parse_status value =
     map_err (\<lambda>error. CorruptData (settlement_error_display error)) (attempt_status_parse value)"

definition parse_total :: "(string \<Rightarrow> u256 option) \<Rightarrow> string \<Rightarrow> repository_error + raw_amount" where
  "parse_total u256_from_str value =
     (if trim_start_matches (CHR ''0'') value = [] then Inr raw_ZERO
      else parse_amount u256_from_str value)"

text \<open>One row of the query, with its aggregates over the transfer's attestations.\<close>

definition pending_transfer_try_from ::
  "(string \<Rightarrow> u256 option) \<Rightarrow> store \<Rightarrow> transfer_row \<times> transfer_state_row \<times> processing_row
     \<Rightarrow> repository_error + pending_transfer" where
  "pending_transfer_try_from u256_from_str s row =
     (case row of (transfer, state, processing) \<Rightarrow>
        let attestations = filter (\<lambda>a. ta_transfer_id a = tr_id transfer) (st_attestations s)
        in bind_result (parse_amount u256_from_str (nat_str (tr_amount_raw transfer))) (\<lambda>amount_raw.
           bind_result (parse_memo (tr_memo transfer)) (\<lambda>memo.
           bind_result (map_err (\<lambda>error. CorruptData (chain_error_display error))
             (transfer_state_from_str (ts_state state))) (\<lambda>transfer_state.
           bind_result (parse_total u256_from_str (nat_str (pr_allocated_raw processing))) (\<lambda>allocated_raw.
           Inr \<lparr> pt_facts = \<lparr> tf_transfer_id = tr_id transfer,
                              tf_collector_address_id = tr_collector_address_id transfer,
                              tf_amount_raw = amount_raw, tf_memo = memo,
                              tf_block_time = tr_block_time transfer, tf_state = transfer_state \<rparr>,
                 pt_independent_groups =
                   u32_try_from (length (remdups (map ta_provider_group attestations))),
                 pt_had_own_node = list_ex (\<lambda>a. ta_source_kind a = ''own_node'') attestations,
                 pt_attestation_ids = map ta_id attestations,
                 pt_allocated_raw = allocated_raw \<rparr>)))))"

definition awaiting_rows :: "store \<Rightarrow> (transfer_row \<times> transfer_state_row \<times> processing_row) list" where
  "awaiting_rows s =
     concat (map (\<lambda>transfer. concat (map (\<lambda>state. map (\<lambda>processing. (transfer, state, processing))
       (filter (\<lambda>processing. pr_transfer_id processing = tr_id transfer \<and> pr_state processing = ''pending'')
         (st_processing s)))
       (filter (\<lambda>state. ts_transfer_id state = tr_id transfer \<and>
          (ts_state state = ''finalized'' \<or> ts_state state = ''invalidated''))
         (st_transfer_states s)))) (st_transfers s))"

definition pg_transfers_awaiting_settlement ::
  "(string \<Rightarrow> u256 option) \<Rightarrow> nat \<Rightarrow> store \<Rightarrow> repository_error + pending_transfer list" where
  "pg_transfers_awaiting_settlement u256_from_str limit s =
     collect_results (map (pending_transfer_try_from u256_from_str s)
       (take limit (sort_by (\<lambda>a b. tr_block_time (fst a) < tr_block_time (fst b) \<or>
          tr_block_time (fst a) = tr_block_time (fst b) \<and> tr_id (fst a) < tr_id (fst b)) (awaiting_rows s))))"

definition candidate_try_from ::
  "(string \<Rightarrow> u256 option) \<Rightarrow> attempt_row \<times> instant \<times> instant \<Rightarrow> repository_error + attempt_candidate" where
  "candidate_try_from u256_from_str row =
     (case row of (attempt, leased_from, leased_until) \<Rightarrow>
        bind_result (parse_amount u256_from_str (nat_str (at_expected_amount_raw attempt))) (\<lambda>expected.
        bind_result (parse_memo (at_memo_reference attempt)) (\<lambda>memo.
        bind_result (parse_status (at_status attempt)) (\<lambda>status.
        Inr \<lparr> ac_attempt_id = at_id attempt, ac_payment_intent_id = at_payment_intent_id attempt,
              ac_merchant_id = at_merchant_id attempt,
              ac_collector_address_id = at_collector_address_id attempt,
              ac_expected_amount_raw = expected, ac_memo_reference = memo,
              ac_leased_from = leased_from, ac_leased_until = leased_until,
              ac_quote_expires_at = at_quote_expires_at attempt, ac_status = status \<rparr>))))"

definition candidate_rows :: "transfer_facts \<Rightarrow> store \<Rightarrow> (attempt_row \<times> instant \<times> instant) list" where
  "candidate_rows transfer s =
     concat (map (\<lambda>lease. map (\<lambda>attempt. (attempt, le_leased_from lease, le_lease_until lease))
       (filter (\<lambda>attempt. at_id attempt = le_attempt_id lease \<and>
          le_collector_address_id lease = tf_collector_address_id transfer \<and>
          (le_amount_raw lease = unat (tf_amount_raw transfer) \<or>
           (case tf_memo transfer of None \<Rightarrow> False
            | Some memo \<Rightarrow> at_memo_reference attempt = Some (memo_as_str memo)))) (st_attempts s)))
       (st_amount_leases s)) @
     concat (map (\<lambda>history. map (\<lambda>attempt. (attempt, lh_leased_from history, lh_leased_until history))
       (filter (\<lambda>attempt. at_id attempt = lh_attempt_id history \<and>
          lh_collector_address_id history = tf_collector_address_id transfer \<and>
          lh_amount_raw history = unat (tf_amount_raw transfer) \<and>
          tf_block_time transfer \<ge> lh_leased_from history \<and>
          tf_block_time transfer < lh_leased_until history) (st_attempts s)))
       (st_lease_history s))"

definition pg_match_candidates ::
  "(string \<Rightarrow> u256 option) \<Rightarrow> transfer_facts \<Rightarrow> store \<Rightarrow> repository_error + attempt_candidate list" where
  "pg_match_candidates u256_from_str transfer s =
     collect_results (map (candidate_try_from u256_from_str) (candidate_rows transfer s))"

definition attempt_allocated :: "uuid \<Rightarrow> store \<Rightarrow> nat" where
  "attempt_allocated attempt_id s =
     sql_sum al_allocated_raw (\<lambda>a. al_attempt_id a = attempt_id) (st_allocations s)"

definition pg_attempt_snapshot ::
  "(string \<Rightarrow> u256 option) \<Rightarrow> uuid \<Rightarrow> store \<Rightarrow> repository_error + attempt_snapshot option" where
  "pg_attempt_snapshot u256_from_str attempt_id s =
     (case find (\<lambda>a. at_id a = attempt_id) (st_attempts s) of
        None \<Rightarrow> Inr None
      | Some attempt \<Rightarrow>
          (case find (\<lambda>i. in_id i = at_payment_intent_id attempt) (st_intents s) of
             None \<Rightarrow> Inr None
           | Some intent \<Rightarrow>
               bind_result (map_err (\<lambda>error. CorruptData (money_error_display error))
                 (currency_new (in_currency intent))) (\<lambda>currency.
               bind_result (parse_amount u256_from_str (nat_str (at_expected_amount_raw attempt))) (\<lambda>expected.
               bind_result (parse_total u256_from_str (nat_str (attempt_allocated (at_id attempt) s))) (\<lambda>allocated.
               bind_result (parse_status (at_status attempt)) (\<lambda>status.
               Inr (Some \<lparr> as_attempt_id = at_id attempt,
                           as_payment_intent_id = at_payment_intent_id attempt,
                           as_merchant_id = at_merchant_id attempt, as_currency = currency,
                           as_fiat_amount_minor = in_amount_minor intent,
                           as_expected_amount_raw = expected, as_allocated_raw = allocated,
                           as_status = status \<rparr>)))))))"

definition pg_find_settlement_policy ::
  "currency_code \<Rightarrow> store \<Rightarrow> repository_error + settlement_policy option" where
  "pg_find_settlement_policy currency s =
     (case find (\<lambda>p. po_fiat_currency p = currency_as_str currency \<and> po_status p = ''active'')
        (st_policies s) of
        None \<Rightarrow> Inr None
      | Some policy \<Rightarrow>
          let tiers = sort_by (\<lambda>a b. tw_max_fiat_minor a < tw_max_fiat_minor b)
                (filter (\<lambda>t. tw_policy_id t = po_id policy) (st_policy_tiers s))
          in if tiers = [] then Inl (CorruptData ''an active settlement policy has no bands'')
             else Inr (Some \<lparr> sp_id = po_id policy, sp_version = po_version policy,
                  sp_tiers = map (\<lambda>t. \<lparr> st_max_fiat_minor = tw_max_fiat_minor t,
                     st_min_independent_groups =
                       (if tw_min_independent_groups t < 0 then u32_max
                        else nat (tw_min_independent_groups t)),
                     st_require_own_node = tw_require_own_node t,
                     st_require_risk_allow = tw_require_risk_allow t,
                     st_auto_settle = tw_auto_settle t \<rparr>) tiers \<rparr>))"

definition pg_latest_risk :: "uuid \<Rightarrow> store \<Rightarrow> repository_error + risk_decision \<times> uuid option" where
  "pg_latest_risk transfer_id s =
     (case max_by_key rk_evaluated_at (filter (\<lambda>r. rk_transfer_id r = transfer_id \<and>
          rk_evaluated_at r \<ge> st_db_now s - 3600 * nanos_per_sec \<and>
          rk_evaluated_at r \<le> st_db_now s + 30 * nanos_per_sec) (st_risk s)) of
        None \<Rightarrow> Inr (RD_Skipped, None)
      | Some row \<Rightarrow>
          bind_result (map_err (\<lambda>error. CorruptData (settlement_error_display error))
            (risk_decision_parse (rk_decision row))) (\<lambda>decision. Inr (decision, Some (rk_id row))))"

section \<open>Statements\<close>

definition intent_exists :: "uuid \<Rightarrow> store \<Rightarrow> bool" where
  "intent_exists i s = list_ex (\<lambda>r. in_id r = i) (st_intents s)"

definition attempt_exists :: "uuid \<Rightarrow> store \<Rightarrow> bool" where
  "attempt_exists a s = list_ex (\<lambda>r. at_id r = a) (st_attempts s)"

definition transfer_exists :: "uuid \<Rightarrow> store \<Rightarrow> bool" where
  "transfer_exists t s = list_ex (\<lambda>r. tr_id r = t) (st_transfers s)"

definition merchant_exists :: "uuid \<Rightarrow> store \<Rightarrow> bool" where
  "merchant_exists m s = list_ex (\<lambda>r. me_id r = m) (st_merchants s)"

text \<open>A nullable foreign key refers to nothing or to a row that exists.\<close>

definition fk_option :: "(uuid \<Rightarrow> store \<Rightarrow> bool) \<Rightarrow> uuid option \<Rightarrow> store \<Rightarrow> bool" where
  "fk_option row_exists i s = (case i of None \<Rightarrow> True | Some i \<Rightarrow> row_exists i s)"

definition hold_lease :: "component_lease \<Rightarrow> unit repo_tx" where
  "hold_lease lease =
     tx_require (\<lambda>s. list_ex (\<lambda>r. lo_component r = cl_component lease \<and> lo_holder r = cl_holder lease \<and>
       lo_fence_token r = cl_fence_token lease \<and> lo_lease_until r > st_db_now s) (st_component_leases s))
       LeaseLost"

definition payment_event_entry ::
  "uuid option \<Rightarrow> uuid option \<Rightarrow> uuid option \<Rightarrow> uuid option \<Rightarrow> string \<Rightarrow> string option \<Rightarrow> payload
     \<Rightarrow> instant \<Rightarrow> payment_event_row" where
  "payment_event_entry merchant_id payment_intent_id attempt_id transfer_id event_type reason_code payload now =
     \<lparr> pe_merchant_id = merchant_id, pe_payment_intent_id = payment_intent_id,
       pe_attempt_id = attempt_id, pe_transfer_id = transfer_id, pe_event_type = event_type,
       pe_reason_code = reason_code, pe_source = ''system'', pe_actor = SETTLEMENT_ACTOR,
       pe_payload = payload, pe_created_at = now \<rparr>"

definition insert_payment_event ::
  "uuid option \<Rightarrow> uuid option \<Rightarrow> uuid option \<Rightarrow> uuid option \<Rightarrow> string \<Rightarrow> string option \<Rightarrow> payload
     \<Rightarrow> instant \<Rightarrow> unit repo_tx" where
  "insert_payment_event merchant_id payment_intent_id attempt_id transfer_id event_type reason_code payload now =
     tx_then (tx_require (\<lambda>s. fk_option merchant_exists merchant_id s \<and>
         fk_option intent_exists payment_intent_id s \<and> fk_option attempt_exists attempt_id s \<and>
         fk_option transfer_exists transfer_id s) (StorageUnavailable ''payment_events_fkey''))
     (tx_modify (\<lambda>s. s\<lparr> st_events := st_events s @ [payment_event_entry merchant_id payment_intent_id
       attempt_id transfer_id event_type reason_code payload now] \<rparr>))"

definition outbox_entry ::
  "uuid \<Rightarrow> uuid option \<Rightarrow> string \<Rightarrow> string \<Rightarrow> string \<Rightarrow> uuid \<Rightarrow> payload \<Rightarrow> instant \<Rightarrow> outbox_row" where
  "outbox_entry event_id merchant_id channel event_type aggregate_type aggregate_id payload now =
     \<lparr> ob_id = event_id, ob_merchant_id = merchant_id, ob_channel = channel,
       ob_event_type = event_type, ob_aggregate_type = aggregate_type,
       ob_aggregate_id = aggregate_id, ob_payload = payload, ob_available_at = now,
       ob_attempts = 0, ob_last_error = None, ob_claimed_by = None, ob_claimed_until = None,
       ob_delivered_at = None, ob_dead_lettered_at = None, ob_created_at = now,
       ob_target_endpoint_id = None, ob_attempt_floor = 0 \<rparr>"

definition enqueue_outbox ::
  "uuid option \<Rightarrow> string \<Rightarrow> string \<Rightarrow> string \<Rightarrow> uuid \<Rightarrow> payload \<Rightarrow> instant \<Rightarrow> unit repo_tx" where
  "enqueue_outbox merchant_id channel event_type aggregate_type aggregate_id payload now =
     tx_then (tx_require (\<lambda>s. \<not> list_ex (\<lambda>r. ob_id r = st_now_v7 s (st_generated s)) (st_outbox s))
       (StorageUnavailable ''domain_events_pkey''))
     (tx_then (tx_require (fk_option merchant_exists merchant_id)
       (StorageUnavailable ''domain_events_merchant_id_fkey''))
     (tx_modify (\<lambda>s. s\<lparr> st_generated := st_generated s + 1, st_outbox := st_outbox s @
       [outbox_entry (st_now_v7 s (st_generated s)) merchant_id channel event_type aggregate_type
         aggregate_id payload now] \<rparr>)))"

definition i32_max :: nat where
  "i32_max = 2147483647"

definition new_decision ::
  "settlement_command \<Rightarrow> string \<Rightarrow> string \<Rightarrow> raw_amount \<Rightarrow> raw_amount \<Rightarrow> instant \<Rightarrow> decision_row" where
  "new_decision command outcome reason allocated_raw remainder_raw now =
     \<lparr> de_payment_intent_id = sc_payment_intent_id command, de_attempt_id = sc_attempt_id command,
       de_transfer_id = sc_transfer_id command, de_merchant_id = sc_merchant_id command,
       de_fiat_amount_minor = sc_fiat_amount_minor command,
       de_required_policy = sc_policy_version command,
       de_distinct_groups = min (sc_independent_groups command) i32_max,
       de_had_own_node = sc_had_own_node command,
       de_finality_state = transfer_state_as_str (sc_finality_state command),
       de_risk_decision = risk_decision_as_str (sc_risk command),
       de_risk_evaluation_id = sc_risk_evaluation_id command,
       de_attestation_ids = sc_attestation_ids command,
       de_match_strategy = match_strategy_as_str (sc_match_strategy command),
       de_allocated_raw = unat allocated_raw, de_remainder_raw = unat remainder_raw,
       de_outcome = outcome, de_decided_by = SETTLEMENT_ACTOR, de_decided_reason = Some reason,
       de_decided_at = now \<rparr>"

definition same_decision :: "settlement_command \<Rightarrow> decision_row \<Rightarrow> bool" where
  "same_decision command d \<longleftrightarrow> de_payment_intent_id d = sc_payment_intent_id command \<and>
     de_transfer_id d = sc_transfer_id command"

definition upsert_decision :: "settlement_command \<Rightarrow> decision_row \<Rightarrow> decision_row list \<Rightarrow> decision_row list" where
  "upsert_decision command excluded rows =
     (if list_ex (same_decision command) rows then
        sql_update (same_decision command) (\<lambda>d.
          d\<lparr> de_outcome := de_outcome excluded, de_decided_reason := de_decided_reason excluded,
             de_allocated_raw := de_allocated_raw excluded,
             de_remainder_raw := de_remainder_raw excluded,
             de_decided_at := de_decided_at excluded \<rparr>) rows
      else rows @ [excluded])"

definition record_decision ::
  "settlement_command \<Rightarrow> string \<Rightarrow> string \<Rightarrow> raw_amount \<Rightarrow> raw_amount \<Rightarrow> instant \<Rightarrow> unit repo_tx" where
  "record_decision command outcome reason allocated_raw remainder_raw now =
     tx_then (tx_require (\<lambda>s. sc_fiat_amount_minor command > 0)
       (StorageUnavailable ''payment_settlement_decisions_fiat_amount_minor_check''))
     (tx_then (tx_require (\<lambda>s. list_ex (same_decision command) (st_decisions s) \<or>
         intent_exists (sc_payment_intent_id command) s \<and>
         attempt_exists (sc_attempt_id command) s \<and> transfer_exists (sc_transfer_id command) s \<and>
         merchant_exists (sc_merchant_id command) s \<and>
         fk_option (\<lambda>i s. list_ex (\<lambda>r. rk_id r = i) (st_risk s)) (sc_risk_evaluation_id command) s)
         (StorageUnavailable ''payment_settlement_decisions_fkey''))
     (tx_modify (\<lambda>s. s\<lparr> st_decisions := upsert_decision command
       (new_decision command outcome reason allocated_raw remainder_raw now) (st_decisions s) \<rparr>)))"

definition PAYABLE_INTENT_STATES :: "string list" where
  "PAYABLE_INTENT_STATES = [''awaiting_payment'', ''partially_paid'', ''risk_hold'', ''expired'']"

definition ALLOCATABLE_ATTEMPT_STATES :: "string list" where
  "ALLOCATABLE_ATTEMPT_STATES = [''awaiting_payment'', ''expired'']"

text \<open>The foreign key that ties an allocation or a claim to the collector of its transfer.\<close>

definition binding_refused :: repository_error where
  "binding_refused = TransitionRefused ''the transfer is not at the attempt's collector''"

definition require_one_row :: "nat \<Rightarrow> string \<Rightarrow> unit repo_tx" where
  "require_one_row rows what = tx_require (\<lambda>s. rows = 1) (TransitionRefused what)"

definition set_processing :: "uuid \<Rightarrow> string \<Rightarrow> string \<Rightarrow> instant \<Rightarrow> unit repo_tx" where
  "set_processing transfer_id state reason now =
     tx_modify (\<lambda>s. s\<lparr> st_processing := sql_update (\<lambda>p. pr_transfer_id p = transfer_id)
       (\<lambda>p. p\<lparr> pr_state := state, pr_last_error := Some reason, pr_version := pr_version p + 1,
               pr_updated_at := now \<rparr>) (st_processing s) \<rparr>)"

section \<open>Transactions\<close>

text \<open>The rows a payment may move: the attempt of the command and its intent, still open.\<close>

definition open_attempt :: "settlement_command \<Rightarrow> attempt_row \<Rightarrow> bool" where
  "open_attempt command a \<longleftrightarrow> at_id a = sc_attempt_id command \<and>
     at_payment_intent_id a = sc_payment_intent_id command \<and>
     at_status a \<in> set ALLOCATABLE_ATTEMPT_STATES"

definition payable_intent :: "settlement_command \<Rightarrow> intent_row \<Rightarrow> bool" where
  "payable_intent command i \<longleftrightarrow> in_id i = sc_payment_intent_id command \<and>
     in_merchant_id i = sc_merchant_id command \<and> in_status i \<in> set PAYABLE_INTENT_STATES"

definition fulfillment_entry :: "settlement_command \<Rightarrow> instant \<Rightarrow> fulfillment_row" where
  "fulfillment_entry command now =
     \<lparr> fu_payment_intent_id = sc_payment_intent_id command, fu_merchant_id = sc_merchant_id command,
       fu_status = ''claimed'', fu_claimed_at = now, fu_attempts = 0 \<rparr>"

definition advance_to_paid :: "settlement_command \<Rightarrow> instant \<Rightarrow> unit repo_tx" where
  "advance_to_paid command now =
     tx_bind (tx_gets (\<lambda>s. rows_affected (open_attempt command) (st_attempts s))) (\<lambda>attempt_rows.
         tx_then (tx_modify (\<lambda>s. s\<lparr> st_attempts := sql_update (open_attempt command)
           (\<lambda>a. a\<lparr> at_status := ''settled'', at_updated_at := now \<rparr>) (st_attempts s) \<rparr>))
         (tx_then (require_one_row attempt_rows ''the attempt is not open for payment'')
         (tx_bind (tx_gets (\<lambda>s. rows_affected (payable_intent command) (st_intents s))) (\<lambda>intent_rows.
         tx_then (tx_modify (\<lambda>s. s\<lparr> st_intents := sql_update (payable_intent command)
           (\<lambda>i. i\<lparr> in_status := ''paid'', in_version := in_version i + 1, in_updated_at := now \<rparr>)
           (st_intents s) \<rparr>))
         (tx_then (require_one_row intent_rows ''the payment intent is not payable'')
         (tx_bind (tx_gets (\<lambda>s. \<not> list_ex (\<lambda>f. fu_payment_intent_id f = sc_payment_intent_id command)
           (st_fulfillments s))) (\<lambda>claimed.
         tx_then (if claimed then
             tx_then (tx_require (\<lambda>s. intent_exists (sc_payment_intent_id command) s \<and>
               merchant_exists (sc_merchant_id command) s) (StorageUnavailable ''payment_fulfillments_fkey''))
             (tx_modify (\<lambda>s. s\<lparr> st_fulfillments := st_fulfillments s @ [fulfillment_entry command now] \<rparr>))
           else tx_return ())
         (tx_then (insert_payment_event (Some (sc_merchant_id command))
           (Some (sc_payment_intent_id command)) (Some (sc_attempt_id command))
           (Some (sc_transfer_id command)) ''SETTLED''
           (Some (match_strategy_as_str (sc_match_strategy command)))
           [(''policy'', PV_Text (sc_policy_version command)),
            (''independent_groups'', PV_Count (sc_independent_groups command)),
            (''had_own_node'', PV_Bool (sc_had_own_node command)),
            (''risk'', PV_Text (risk_decision_as_str (sc_risk command)))] now)
         (if claimed then enqueue_outbox (Some (sc_merchant_id command)) ''webhook''
            ''payment_intent.paid'' ''payment_intent'' (sc_payment_intent_id command)
            [(''payment_intent_id'', PV_Uuid (sc_payment_intent_id command)),
             (''transfer_id'', PV_Uuid (sc_transfer_id command)),
             (''attempt_id'', PV_Uuid (sc_attempt_id command))] now
          else tx_return ())))))))))"

definition advance_to_partially_paid :: "settlement_command \<Rightarrow> instant \<Rightarrow> unit repo_tx" where
  "advance_to_partially_paid command now =
     tx_bind (tx_gets (\<lambda>s. rows_affected (open_attempt command) (st_attempts s))) (\<lambda>attempt_rows.
         tx_then (tx_modify (\<lambda>s. s\<lparr> st_attempts := sql_update (open_attempt command)
           (\<lambda>a. a\<lparr> at_updated_at := now \<rparr>) (st_attempts s) \<rparr>))
         (tx_then (require_one_row attempt_rows ''the attempt is not open for payment'')
         (tx_bind (tx_gets (\<lambda>s. rows_affected (payable_intent command) (st_intents s))) (\<lambda>intent_rows.
         tx_then (tx_modify (\<lambda>s. s\<lparr> st_intents := sql_update (payable_intent command)
           (\<lambda>i. i\<lparr> in_status := ''partially_paid'', in_version := in_version i + 1, in_updated_at := now \<rparr>)
           (st_intents s) \<rparr>))
         (tx_then (require_one_row intent_rows ''the payment intent is not payable'')
         (tx_then (insert_payment_event (Some (sc_merchant_id command))
           (Some (sc_payment_intent_id command)) (Some (sc_attempt_id command))
           (Some (sc_transfer_id command)) ''PARTIAL''
           (Some (match_strategy_as_str (sc_match_strategy command)))
           [(''policy'', PV_Text (sc_policy_version command))] now)
         (enqueue_outbox (Some (sc_merchant_id command)) ''webhook''
            ''payment_intent.partially_paid'' ''payment_intent'' (sc_payment_intent_id command)
            [(''payment_intent_id'', PV_Uuid (sc_payment_intent_id command)),
             (''transfer_id'', PV_Uuid (sc_transfer_id command))] now)))))))"

text \<open>The owner of the claim after the insert, or nothing when there is no such attempt.\<close>

definition claim_owner :: "uuid \<Rightarrow> store \<Rightarrow> uuid option" where
  "claim_owner transfer_id s =
     map_option cm_payment_intent_id (find (\<lambda>c. cm_transfer_id c = transfer_id) (st_claims s))"

definition claim_entry :: "settlement_command \<Rightarrow> attempt_row \<Rightarrow> instant \<Rightarrow> claim_row" where
  "claim_entry command attempt now =
     \<lparr> cm_transfer_id = sc_transfer_id command,
       cm_payment_intent_id = sc_payment_intent_id command,
       cm_attempt_id = sc_attempt_id command, cm_merchant_id = sc_merchant_id command,
       cm_match_strategy = match_strategy_as_str (sc_match_strategy command),
       cm_claimed_at = now, cm_collector_address_id = at_collector_address_id attempt \<rparr>"

definition insert_claim :: "settlement_command \<Rightarrow> instant \<Rightarrow> unit repo_tx" where
  "insert_claim command now s =
     (case find (\<lambda>a. at_id a = sc_attempt_id command) (st_attempts s) of
        None \<Rightarrow> Inr ((), s)
      | Some attempt \<Rightarrow>
          if claim_owner (sc_transfer_id command) s \<noteq> None then Inr ((), s)
          else if \<not> (list_ex (\<lambda>t. tr_id t = sc_transfer_id command \<and>
                 tr_collector_address_id t = at_collector_address_id attempt) (st_transfers s) \<and>
               intent_exists (sc_payment_intent_id command) s \<and> merchant_exists (sc_merchant_id command) s)
          then Inl binding_refused
          else Inr ((), s\<lparr> st_claims := st_claims s @ [claim_entry command attempt now] \<rparr>))"

definition claim_transfer :: "settlement_command \<Rightarrow> instant \<Rightarrow> bool repo_tx" where
  "claim_transfer command now =
     tx_then (insert_claim command now)
     (tx_bind (tx_read (\<lambda>s. ok_or (StorageUnavailable ''row not found'')
       (claim_owner (sc_transfer_id command) s))) (\<lambda>owner.
      if owner = sc_payment_intent_id command then tx_return True
      else
        tx_then (set_processing (sc_transfer_id command) ''held'' ''claimed_by_another_intent'' now)
        (tx_then (record_decision command ''rejected'' ''claimed_by_another_intent'' raw_ZERO raw_ZERO now)
        (tx_return False))))"

definition record_remainder :: "settlement_command \<Rightarrow> raw_amount \<Rightarrow> instant \<Rightarrow> unit repo_tx" where
  "record_remainder command remainder_raw now =
     tx_then (insert_payment_event (Some (sc_merchant_id command)) (Some (sc_payment_intent_id command))
       (Some (sc_attempt_id command)) (Some (sc_transfer_id command)) ''OVERPAID''
       (Some ''overpay_remainder'') [(''remainder_raw'', PV_Amount remainder_raw)] now)
     (enqueue_outbox (Some (sc_merchant_id command)) ''webhook'' ''OVERPAID'' ''payment_intent''
       (sc_payment_intent_id command)
       [(''payment_intent_id'', PV_Uuid (sc_payment_intent_id command)),
        (''transfer_id'', PV_Uuid (sc_transfer_id command)),
        (''remainder_raw'', PV_Amount remainder_raw)] now)"

text \<open>
  The guarded increase of the allocated total: it reports whether a row moved, which it
  does only while the total stays within the transfer.
\<close>

definition increase_allocated :: "uuid \<Rightarrow> nat \<Rightarrow> string \<Rightarrow> instant \<Rightarrow> bool repo_tx" where
  "increase_allocated transfer_id amount state now s =
     (let within = (\<lambda>p. pr_transfer_id p = transfer_id \<and>
            list_ex (\<lambda>t. tr_id t = pr_transfer_id p \<and> pr_allocated_raw p + amount \<le> tr_amount_raw t)
              (st_transfers s))
      in Inr (list_ex within (st_processing s),
           s\<lparr> st_processing := sql_update within (\<lambda>p. p\<lparr>
                pr_allocated_raw := pr_allocated_raw p + amount, pr_state := state,
                pr_version := pr_version p + 1, pr_updated_at := now \<rparr>) (st_processing s) \<rparr>))"

definition allocation_entry ::
  "settlement_command \<Rightarrow> attempt_row \<Rightarrow> raw_amount \<Rightarrow> string \<Rightarrow> instant \<Rightarrow> allocation_row" where
  "allocation_entry command attempt allocate_raw reason now =
     \<lparr> al_attempt_id = sc_attempt_id command, al_payment_intent_id = sc_payment_intent_id command,
       al_merchant_id = sc_merchant_id command, al_transfer_id = sc_transfer_id command,
       al_allocated_raw = unat allocate_raw, al_allocated_by = SETTLEMENT_ACTOR,
       al_reason = reason, al_created_at = now,
       al_collector_address_id = at_collector_address_id attempt \<rparr>"

text \<open>The insert into \<open>payment_allocations\<close>; it reports the rows it wrote.\<close>

definition insert_allocation :: "settlement_command \<Rightarrow> raw_amount \<Rightarrow> string \<Rightarrow> instant \<Rightarrow> nat repo_tx" where
  "insert_allocation command allocate_raw reason now s =
     (case find (\<lambda>a. at_id a = sc_attempt_id command) (st_attempts s) of
        None \<Rightarrow> Inr (0, s)
      | Some attempt \<Rightarrow>
          if unat allocate_raw = 0
          then Inl (StorageUnavailable ''payment_allocations_allocated_raw_check'')
          else if list_ex (\<lambda>a. al_attempt_id a = sc_attempt_id command \<and>
                 al_transfer_id a = sc_transfer_id command) (st_allocations s)
          then Inr (0, s)
          else if \<not> (list_ex (\<lambda>t. tr_id t = sc_transfer_id command \<and>
                 tr_collector_address_id t = at_collector_address_id attempt) (st_transfers s) \<and>
               intent_exists (sc_payment_intent_id command) s \<and> merchant_exists (sc_merchant_id command) s)
          then Inl binding_refused
          else Inr (1, s\<lparr> st_allocations := st_allocations s @
            [allocation_entry command attempt allocate_raw reason now] \<rparr>))"

definition allocate_and_finish ::
  "settlement_command \<Rightarrow> raw_amount \<Rightarrow> raw_amount \<Rightarrow> string \<Rightarrow> instant \<Rightarrow> settlement_record repo_tx" where
  "allocate_and_finish command allocate_raw remainder_raw outcome now =
     tx_bind (claim_transfer command now) (\<lambda>owned.
     if \<not> owned then tx_return SR_ForeignClaim
     else
     tx_bind (increase_allocated (sc_transfer_id command) (unat allocate_raw)
       (if outcome = ''settled'' then ''settled'' else ''matched'') now) (\<lambda>allocated.
     if \<not> allocated
     then tx_fail (CorruptData ''an allocation would have exceeded the transfer it belongs to'')
     else
     tx_bind (insert_allocation command allocate_raw
       (if outcome = ''settled'' then ''exact'' else if outcome = ''overpaid'' then ''overpay_remainder''
        else ''partial'') now) (\<lambda>inserted.
     if inserted = 0 then tx_return SR_AlreadyProcessed
     else
     tx_bind (if outcome = ''settled'' \<or> outcome = ''overpaid''
       then tx_then (advance_to_paid command now)
              (tx_return (if outcome = ''overpaid'' then SR_Overpaid else SR_Settled))
       else tx_then (advance_to_partially_paid command now) (tx_return SR_PartiallyAllocated)) (\<lambda>record.
     tx_then (record_decision command outcome (match_strategy_as_str (sc_match_strategy command))
       allocate_raw remainder_raw now)
     (tx_then (if \<not> raw_is_zero remainder_raw then record_remainder command remainder_raw now
               else tx_return ())
     (tx_return record))))))"

definition manual_allocate_and_finish ::
  "settlement_command \<Rightarrow> raw_amount \<Rightarrow> raw_amount \<Rightarrow> string \<Rightarrow> string \<Rightarrow> string \<Rightarrow> instant
     \<Rightarrow> settlement_record repo_tx" where
  "manual_allocate_and_finish command allocate_raw remainder_raw outcome actor reason now =
     tx_bind (allocate_and_finish command allocate_raw remainder_raw outcome now) (\<lambda>result.
     if result = SR_ForeignClaim \<or> result = SR_AlreadyProcessed then tx_return result
     else
       tx_then (tx_modify (\<lambda>s. s\<lparr> st_allocations := sql_update
         (\<lambda>a. al_attempt_id a = sc_attempt_id command \<and> al_transfer_id a = sc_transfer_id command)
         (\<lambda>a. a\<lparr> al_allocated_by := actor, al_reason := ''manual'' \<rparr>) (st_allocations s) \<rparr>))
       (tx_then (tx_modify (\<lambda>s. s\<lparr> st_decisions := sql_update
         (\<lambda>d. de_payment_intent_id d = sc_payment_intent_id command \<and>
              de_transfer_id d = sc_transfer_id command)
         (\<lambda>d. d\<lparr> de_decided_by := actor, de_decided_reason := Some reason \<rparr>) (st_decisions s) \<rparr>))
       (tx_return result)))"

definition finish_without_money ::
  "settlement_command \<Rightarrow> string \<Rightarrow> string \<Rightarrow> string \<Rightarrow> instant \<Rightarrow> unit repo_tx" where
  "finish_without_money command processing_state outcome reason now =
     tx_then (set_processing (sc_transfer_id command) processing_state reason now)
     (tx_then (record_decision command outcome reason raw_ZERO raw_ZERO now)
     (insert_payment_event (Some (sc_merchant_id command)) (Some (sc_payment_intent_id command))
       (Some (sc_attempt_id command)) (Some (sc_transfer_id command))
       (if outcome = ''manual_required'' then ''MANUAL_REQUIRED'' else ''RISK_HOLD'') (Some reason)
       [(''reason'', PV_Text reason), (''policy'', PV_Text (sc_policy_version command))] now))"

definition apply_outcome :: "settlement_command \<Rightarrow> instant \<Rightarrow> settlement_record repo_tx" where
  "apply_outcome command now =
     (case sc_outcome command of
        Hold reason \<Rightarrow>
          tx_then (finish_without_money command ''held'' ''held'' (hold_reason_as_str reason) now)
            (tx_return SR_Held)
      | ManualRequired reason \<Rightarrow>
          tx_then (finish_without_money command ''held'' ''manual_required'' (manual_reason_as_str reason) now)
            (tx_return SR_ManualRequired)
      | Settle allocate_raw \<Rightarrow> allocate_and_finish command allocate_raw raw_ZERO ''settled'' now
      | Partial allocate_raw \<Rightarrow> allocate_and_finish command allocate_raw raw_ZERO ''partial'' now
      | Overpaid allocate_raw remainder_raw \<Rightarrow>
          allocate_and_finish command allocate_raw remainder_raw ''overpaid'' now)"

definition processing_state_of :: "uuid \<Rightarrow> store \<Rightarrow> string option" where
  "processing_state_of transfer_id s =
     map_option pr_state (find (\<lambda>p. pr_transfer_id p = transfer_id) (st_processing s))"

definition park_refused :: "component_lease \<Rightarrow> settlement_command \<Rightarrow> string \<Rightarrow> settlement_record repo_tx" where
  "park_refused lease command refusal =
     tx_then (hold_lease lease)
     (tx_bind (tx_read (\<lambda>s. ok_or (CorruptData ''a canonical transfer has no processing row'')
       (processing_state_of (sc_transfer_id command) s))) (\<lambda>state.
      if state \<noteq> ''pending'' then tx_return SR_AlreadyProcessed
      else tx_bind (tx_gets st_now) (\<lambda>now.
        tx_then (finish_without_money command ''held'' ''manual_required''
          (''payment_not_payable: '' @ refusal) now)
        (tx_return SR_ManualRequired))))"

text \<open>
  The first transaction of \<open>settle\<close>; a refused state change abandons it, and
  \<open>park_refused\<close> is the second one.
\<close>

definition settle_attempt :: "component_lease \<Rightarrow> settlement_command \<Rightarrow> settlement_record repo_tx" where
  "settle_attempt lease command =
     tx_then (hold_lease lease)
     (tx_bind (tx_read (\<lambda>s. ok_or (CorruptData ''a canonical transfer has no processing row'')
       (if transfer_exists (sc_transfer_id command) s
        then processing_state_of (sc_transfer_id command) s else None))) (\<lambda>state.
      if state \<noteq> ''pending'' then tx_return SR_AlreadyProcessed
      else tx_bind (tx_gets st_now) (apply_outcome command)))"

definition pg_settle ::
  "component_lease \<Rightarrow> settlement_command \<Rightarrow> store \<Rightarrow> (repository_error + settlement_record) \<times> store" where
  "pg_settle lease command s =
     (case settle_attempt lease command s of
        Inl (TransitionRefused reason) \<Rightarrow> tx_run (park_refused lease command reason) s
      | Inl e \<Rightarrow> (Inl e, s)
      | Inr (record, s') \<Rightarrow> (Inr record, s'))"

definition record_unresolved_tx ::
  "component_lease \<Rightarrow> pending_transfer \<Rightarrow> unresolved_transfer \<Rightarrow> unit repo_tx" where
  "record_unresolved_tx lease transfer unresolved =
     (let facts = pt_facts transfer;
          (event_type, payload) = (case unresolved of
              UT_Ambiguous attempt_ids \<Rightarrow> (''AMBIGUOUS_MATCH'',
                [(''transfer_id'', PV_Uuid (tf_transfer_id facts)),
                 (''amount_raw'', PV_Amount (tf_amount_raw facts)),
                 (''attempt_ids'', PV_Uuids attempt_ids)])
            | UT_Unmatched \<Rightarrow> (''UNMATCHED_INBOUND'',
                [(''transfer_id'', PV_Uuid (tf_transfer_id facts)),
                 (''amount_raw'', PV_Amount (tf_amount_raw facts)),
                 (''block_time'', PV_Time (tf_block_time facts))]))
      in tx_then (hold_lease lease)
         (tx_bind (tx_gets st_now) (\<lambda>now.
         tx_then (tx_modify (\<lambda>s. s\<lparr> st_processing := sql_update
           (\<lambda>p. pr_transfer_id p = tf_transfer_id facts \<and> pr_state p = ''pending'')
           (\<lambda>p. p\<lparr> pr_state := ''unmatched'', pr_last_error := Some (unresolved_as_str unresolved),
                   pr_version := pr_version p + 1, pr_updated_at := now \<rparr>) (st_processing s) \<rparr>))
         (tx_then (insert_payment_event None None None (Some (tf_transfer_id facts)) event_type
           (Some (unresolved_as_str unresolved)) payload now)
         (enqueue_outbox None ''operator'' event_type ''chain_transfer'' (tf_transfer_id facts)
           payload now)))))"

definition pg_record_unresolved ::
  "component_lease \<Rightarrow> pending_transfer \<Rightarrow> unresolved_transfer \<Rightarrow> store
     \<Rightarrow> (repository_error + unit) \<times> store" where
  "pg_record_unresolved lease transfer unresolved s =
     tx_run (record_unresolved_tx lease transfer unresolved) s"

text \<open>The repository the settlement service runs on.\<close>

definition postgres_settlement :: "(string \<Rightarrow> u256 option) \<Rightarrow> store settlement_repository" where
  "postgres_settlement u256_from_str =
     \<lparr> transfers_awaiting_settlement = pg_transfers_awaiting_settlement u256_from_str,
       match_candidates = pg_match_candidates u256_from_str,
       attempt_snapshot_of = pg_attempt_snapshot u256_from_str,
       find_settlement_policy = pg_find_settlement_policy,
       latest_risk = pg_latest_risk,
       settle = pg_settle,
       record_unresolved = pg_record_unresolved \<rparr>"

end
