(* ===== verification/Operator_Store.thy ===== *)
theory Operator_Store
  imports Operations Settlement_Store
begin

text \<open>
  The transactions of an operator on parked money, from
  \<open>crates/gateway-storage/src/operations.rs\<close> and \<open>honor_proposals.rs\<close>: planning and
  carrying out an honor, rejecting a transfer, recording what became of a remainder, and
  proposing, approving and rejecting an honor that needs two operators. Advisory locks only
  serialise transactions and are not state; parsing an amount's text is a parameter.
\<close>

type_synonym 'a op_tx = "(store, operations_error, 'a) tx"

abbreviation corrupt :: "string \<Rightarrow> operations_error" where
  "corrupt message \<equiv> OE_Repository (CorruptData message)"

abbreviation storage :: "string \<Rightarrow> operations_error" where
  "storage constraint \<equiv> OE_Repository (StorageUnavailable constraint)"

section \<open>Amounts\<close>

definition parse_raw :: "(string \<Rightarrow> u256 option) \<Rightarrow> string \<Rightarrow> operations_error + raw_amount" where
  "parse_raw u256_from_str value =
     map_err (\<lambda>e. corrupt (money_error_display e)) (raw_from_str u256_from_str value)"

definition parse_raw_allow_zero :: "(string \<Rightarrow> u256 option) \<Rightarrow> string \<Rightarrow> operations_error + raw_amount" where
  "parse_raw_allow_zero u256_from_str value =
     (if trim_start_matches (CHR ''0'') value = [] then Inr raw_ZERO else parse_raw u256_from_str value)"

definition parse_opt_raw :: "(string \<Rightarrow> u256 option) \<Rightarrow> nat option \<Rightarrow> operations_error + raw_amount option" where
  "parse_opt_raw u256_from_str v =
     (case v of None \<Rightarrow> Inr None
      | Some n \<Rightarrow> bind_result (parse_raw u256_from_str (nat_str n)) (\<lambda>a. Inr (Some a)))"

section \<open>Planning an honor\<close>

record manual_honor_row =
  mh_merchant_id :: uuid
  mh_fiat_amount_minor :: int
  mh_expected_raw :: nat
  mh_attempt_allocated_raw :: nat
  mh_transfer_raw :: nat
  mh_transfer_allocated_raw :: nat
  mh_finality :: string
  mh_processing_state :: string
  mh_bound_to_attempt :: bool
  mh_attempt_status :: string
  mh_intent_status :: string
  mh_within_late_window :: bool

record honor_plan =
  hl_row :: manual_honor_row
  hl_outcome :: settlement_outcome
  hl_outcome_name :: string
  hl_allocate :: raw_amount
  hl_remainder :: raw_amount

definition honor_columns ::
  "attempt_row \<Rightarrow> intent_row \<Rightarrow> quote_row \<Rightarrow> asset_row \<Rightarrow> transfer_row \<Rightarrow> transfer_state_row \<Rightarrow> processing_row
     \<Rightarrow> store \<Rightarrow> manual_honor_row" where
  "honor_columns a i q ca t x p s =
     \<lparr> mh_merchant_id = in_merchant_id i, mh_fiat_amount_minor = in_amount_minor i,
       mh_expected_raw = at_expected_amount_raw a,
       mh_attempt_allocated_raw = attempt_allocated (at_id a) s,
       mh_transfer_raw = tr_amount_raw t, mh_transfer_allocated_raw = pr_allocated_raw p,
       mh_finality = ts_state x, mh_processing_state = pr_state p,
       mh_bound_to_attempt = (tr_collector_address_id t = at_collector_address_id a \<and>
         tr_asset_id t = qu_asset_id q \<and> tr_chain t = ca_chain ca \<and> tr_network t = ca_network ca \<and>
         tr_environment t = ca_environment ca),
       mh_attempt_status = at_status a, mh_intent_status = in_status i,
       mh_within_late_window = (tr_block_time t < at_late_payment_until a) \<rparr>"

text \<open>The joined rows; every table is joined on its key, so there is at most one.\<close>

definition honor_row :: "uuid \<Rightarrow> uuid \<Rightarrow> uuid \<Rightarrow> store \<Rightarrow> manual_honor_row option" where
  "honor_row transfer_id attempt_id intent_id s =
     Option.bind (find (\<lambda>a. at_id a = attempt_id) (st_attempts s)) (\<lambda>a.
     Option.bind (find (\<lambda>i. in_id i = at_payment_intent_id a \<and> in_merchant_id i = at_merchant_id a \<and>
       in_id i = intent_id) (st_intents s)) (\<lambda>i.
     Option.bind (find (\<lambda>q. qu_id q = at_quote_id a \<and> qu_payment_intent_id q = in_id i \<and>
       qu_merchant_id q = at_merchant_id a \<and> qu_collector_address_id q = at_collector_address_id a)
       (st_quotes s)) (\<lambda>q.
     Option.bind (find (\<lambda>ca. ca_id ca = qu_asset_id q) (st_assets s)) (\<lambda>ca.
     Option.bind (find (\<lambda>t. tr_id t = transfer_id) (st_transfers s)) (\<lambda>t.
     Option.bind (find (\<lambda>x. ts_transfer_id x = tr_id t) (st_transfer_states s)) (\<lambda>x.
     Option.bind (find (\<lambda>p. pr_transfer_id p = tr_id t) (st_processing s)) (\<lambda>p.
     Some (honor_columns a i q ca t x p s))))))))"

definition honor_is_bound :: "manual_honor_row \<Rightarrow> bool" where
  "honor_is_bound row \<longleftrightarrow> mh_bound_to_attempt row \<and>
     mh_attempt_status row \<in> set [''awaiting_payment'', ''expired''] \<and>
     mh_intent_status row \<in> set [''awaiting_payment'', ''partially_paid'', ''risk_hold'', ''expired''] \<and>
     mh_within_late_window row"

definition parked_state :: "string \<Rightarrow> bool" where
  "parked_state state \<longleftrightarrow> state \<in> set [''held'', ''unmatched'']"

text \<open>What is left of the obligation and of the transfer decides amount and outcome.\<close>

definition honor_amounts ::
  "manual_honor_row \<Rightarrow> raw_amount \<Rightarrow> u256 \<Rightarrow> u256 \<Rightarrow> operations_error + honor_plan" where
  "honor_amounts row allocate outstanding available =
     (if allocate \<noteq> min outstanding available then Inl OE_ManualResolutionConflict
      else bind_result (ok_or OE_ManualResolutionConflict (checked_sub available allocate)) (\<lambda>remainder_u256.
      let completes = (allocate = outstanding)
      in bind_result (if remainder_u256 = 0 then Inr raw_ZERO
           else map_err (\<lambda>_. OE_ManualResolutionConflict) (raw_positive remainder_u256)) (\<lambda>remainder.
      let (outcome, outcome_name) =
            (if completes \<and> \<not> raw_is_zero remainder then (Overpaid allocate remainder, ''overpaid'')
             else if completes then (Settle allocate, ''settled'')
             else (Partial allocate, ''partial''))
      in Inr \<lparr> hl_row = row, hl_outcome = outcome, hl_outcome_name = outcome_name,
               hl_allocate = allocate, hl_remainder = remainder \<rparr>)))"

definition plan_honor :: "(string \<Rightarrow> u256 option) \<Rightarrow> manual_resolution \<Rightarrow> honor_plan op_tx" where
  "plan_honor u256_from_str resolution = tx_read (\<lambda>s.
     bind_result (ok_or OE_InvalidManualResolution (rn_payment_intent_id resolution)) (\<lambda>intent_id.
     bind_result (ok_or OE_InvalidManualResolution (rn_attempt_id resolution)) (\<lambda>attempt_id.
     bind_result (ok_or OE_InvalidManualResolution (rn_allocate_raw resolution)) (\<lambda>allocate.
     bind_result (ok_or OE_ManualResolutionNotFound
       (honor_row (rn_transfer_id resolution) attempt_id intent_id s)) (\<lambda>row.
     if mh_finality row \<noteq> ''finalized'' \<or> \<not> parked_state (mh_processing_state row)
     then Inl OE_ManualResolutionConflict
     else if \<not> honor_is_bound row then Inl OE_ManualResolutionConflict
     else
     bind_result (parse_raw u256_from_str (nat_str (mh_expected_raw row))) (\<lambda>expected.
     bind_result (parse_raw_allow_zero u256_from_str (nat_str (mh_attempt_allocated_raw row))) (\<lambda>attempt_allocated.
     bind_result (parse_raw u256_from_str (nat_str (mh_transfer_raw row))) (\<lambda>transfer_amount.
     bind_result (parse_raw_allow_zero u256_from_str (nat_str (mh_transfer_allocated_raw row))) (\<lambda>transfer_allocated.
     bind_result (ok_or OE_ManualResolutionConflict (checked_sub expected attempt_allocated)) (\<lambda>outstanding.
     bind_result (ok_or OE_ManualResolutionConflict (checked_sub transfer_amount transfer_allocated)) (\<lambda>available.
     honor_amounts row allocate outstanding available)))))))))))"

definition plan_evidence :: "honor_plan \<Rightarrow> payload" where
  "plan_evidence plan =
     (let row = hl_row plan
      in [(''fiat_amount_minor'', PV_Int (mh_fiat_amount_minor row)),
          (''expected_raw'', PV_Number (mh_expected_raw row)),
          (''attempt_allocated_raw'', PV_Number (mh_attempt_allocated_raw row)),
          (''transfer_raw'', PV_Number (mh_transfer_raw row)),
          (''transfer_allocated_raw'', PV_Number (mh_transfer_allocated_raw row)),
          (''finality'', PV_Text (mh_finality row)),
          (''processing_state'', PV_Text (mh_processing_state row)),
          (''attempt_status'', PV_Text (mh_attempt_status row)),
          (''intent_status'', PV_Text (mh_intent_status row)),
          (''within_late_window'', PV_Bool (mh_within_late_window row)),
          (''outcome'', PV_Text (hl_outcome_name plan)),
          (''remainder_raw'', PV_Amount (hl_remainder plan))])"

section \<open>The record of a resolution\<close>

definition operator_key_exists :: "uuid \<Rightarrow> store \<Rightarrow> bool" where
  "operator_key_exists k s = list_ex (\<lambda>r. ok_id r = k) (st_operator_keys s)"

definition same_request :: "uuid \<Rightarrow> string \<Rightarrow> resolution_row \<Rightarrow> bool" where
  "same_request operator key r \<longleftrightarrow> mr_operator_key_id r = operator \<and> mr_idempotency_key r = key"

definition resolution_entry ::
  "uuid \<Rightarrow> operator_credential \<Rightarrow> string \<Rightarrow> byte list \<Rightarrow> manual_resolution \<Rightarrow> uuid option
     \<Rightarrow> raw_amount option \<Rightarrow> raw_amount option \<Rightarrow> instant \<Rightarrow> resolution_row" where
  "resolution_entry i credential key hash resolution merchant allocated remainder now =
     \<lparr> mr_id = i, mr_operator_key_id = oc_key_id credential, mr_idempotency_key = key,
       mr_request_hash = hash, mr_action = manual_resolution_action_as_str (rn_action resolution),
       mr_transfer_id = rn_transfer_id resolution,
       mr_payment_intent_id = rn_payment_intent_id resolution, mr_attempt_id = rn_attempt_id resolution,
       mr_merchant_id = merchant, mr_allocated_raw = map_option unat allocated,
       mr_remainder_raw = map_option unat remainder,
       mr_disposition = map_option remainder_disposition_as_str (rn_disposition resolution),
       mr_external_reference = rn_external_reference resolution, mr_reason = rn_reason resolution,
       mr_actor_label = oc_label credential, mr_created_at = now \<rparr>"

definition resolution_row_ok :: "resolution_row \<Rightarrow> bool" where
  "resolution_row_ok r \<longleftrightarrow> char_between 16 128 (mr_idempotency_key r) \<and> length (mr_request_hash r) = 32 \<and>
     mr_allocated_raw r \<noteq> Some 0 \<and> mr_remainder_raw r \<noteq> Some 0 \<and>
     (case mr_external_reference r of None \<Rightarrow> True | Some e \<Rightarrow> char_between 1 200 e) \<and>
     char_between 1 1000 (btrim (mr_reason r)) \<and> char_between 1 100 (mr_actor_label r)"

definition resolution_refers :: "resolution_row \<Rightarrow> store \<Rightarrow> bool" where
  "resolution_refers r s \<longleftrightarrow> operator_key_exists (mr_operator_key_id r) s \<and>
     transfer_exists (mr_transfer_id r) s \<and> fk_option intent_exists (mr_payment_intent_id r) s \<and>
     fk_option attempt_exists (mr_attempt_id r) s \<and> fk_option merchant_exists (mr_merchant_id r) s"

definition action_parse :: "string \<Rightarrow> operations_error + manual_resolution_action" where
  "action_parse value =
     (if value = ''honor'' then Inr MRA_Honor else if value = ''reject'' then Inr MRA_Reject
      else if value = ''record_remainder_disposition'' then Inr MRA_RecordRemainderDisposition
      else Inl (corrupt ''unknown manual resolution action''))"

definition load_resolution ::
  "(string \<Rightarrow> u256 option) \<Rightarrow> uuid \<Rightarrow> string \<Rightarrow> byte list \<Rightarrow> bool \<Rightarrow> manual_resolution_result op_tx" where
  "load_resolution u256_from_str operator key hash replayed = tx_read (\<lambda>s.
     bind_result (ok_or (storage ''row not found'') (find (same_request operator key) (st_resolutions s))) (\<lambda>r.
     if mr_request_hash r \<noteq> hash then Inl (OE_Repository IdempotencyConflict)
     else bind_result (action_parse (mr_action r)) (\<lambda>action.
     bind_result (parse_opt_raw u256_from_str (mr_allocated_raw r)) (\<lambda>allocated.
     bind_result (parse_opt_raw u256_from_str (mr_remainder_raw r)) (\<lambda>remainder.
     Inr \<lparr> mt_id = mr_id r, mt_action = action, mt_transfer_id = mr_transfer_id r,
           mt_payment_intent_id = mr_payment_intent_id r, mt_attempt_id = mr_attempt_id r,
           mt_merchant_id = mr_merchant_id r, mt_allocated_raw = allocated,
           mt_remainder_raw = remainder, mt_replayed = replayed \<rparr>)))))"

definition insert_resolution ::
  "(string \<Rightarrow> u256 option) \<Rightarrow> operator_credential \<Rightarrow> string \<Rightarrow> byte list \<Rightarrow> manual_resolution \<Rightarrow> uuid option
     \<Rightarrow> raw_amount option \<Rightarrow> raw_amount option \<Rightarrow> instant \<Rightarrow> manual_resolution_result option op_tx" where
  "insert_resolution u256_from_str credential key hash resolution merchant allocated remainder now =
     tx_bind (tx_gets (\<lambda>s. resolution_entry (st_now_v7 s (st_generated s)) credential key hash resolution
       merchant allocated remainder now)) (\<lambda>r.
     tx_then (tx_require (\<lambda>s. resolution_row_ok r) (storage ''manual_resolution_requests_check''))
     (tx_bind (tx_gets (\<lambda>s. list_ex (same_request (oc_key_id credential) key) (st_resolutions s))) (\<lambda>exists.
     if exists then
       tx_bind (load_resolution u256_from_str (oc_key_id credential) key hash True) (\<lambda>replay. tx_return (Some replay))
     else
       tx_then (tx_require (\<lambda>s. \<not> list_ex (\<lambda>x. mr_id x = mr_id r) (st_resolutions s))
         (storage ''manual_resolution_requests_pkey''))
       (tx_then (tx_require (resolution_refers r) (storage ''manual_resolution_requests_fkey''))
       (tx_then (tx_modify (\<lambda>s. s\<lparr> st_generated := st_generated s + 1,
          st_resolutions := st_resolutions s @ [r] \<rparr>))
       (tx_return None))))))"

definition record_admin_audit ::
  "operator_credential \<Rightarrow> manual_resolution \<Rightarrow> uuid \<Rightarrow> unit op_tx" where
  "record_admin_audit credential resolution resource_id =
     tx_modify (\<lambda>s. s\<lparr> st_audit := st_audit s @ [\<lparr> au_merchant_id = None, au_actor_type = ''operator'',
       au_actor_id = Some (oc_key_id credential),
       au_action = manual_resolution_action_as_str (rn_action resolution),
       au_resource_type = ''manual_resolution'', au_resource_id = resource_id,
       au_reason = Some (rn_reason resolution),
       au_payload = [(''transfer_id'', PV_Uuid (rn_transfer_id resolution)),
         (''external_reference'', PV_OptText (rn_external_reference resolution))] \<rparr>] \<rparr>)"

section \<open>Decisions\<close>

definition honor_command :: "manual_resolution \<Rightarrow> uuid \<Rightarrow> uuid \<Rightarrow> honor_plan \<Rightarrow> settlement_command" where
  "honor_command resolution intent_id attempt_id plan =
     \<lparr> sc_transfer_id = rn_transfer_id resolution, sc_attempt_id = attempt_id,
       sc_payment_intent_id = intent_id, sc_merchant_id = mh_merchant_id (hl_row plan),
       sc_fiat_amount_minor = mh_fiat_amount_minor (hl_row plan), sc_match_strategy = MS_Manual,
       sc_outcome = hl_outcome plan, sc_policy_version = ''manual/operator'', sc_independent_groups = 0,
       sc_had_own_node = False, sc_finality_state = TS_Finalized, sc_risk = RD_Review,
       sc_risk_evaluation_id = None, sc_attestation_ids = [] \<rparr>"

definition honor_refused :: "repository_error \<Rightarrow> operations_error" where
  "honor_refused error =
     (case error of TransitionRefused _ \<Rightarrow> OE_ManualResolutionConflict | other \<Rightarrow> OE_Repository other)"

definition honor_transfer ::
  "(string \<Rightarrow> u256 option) \<Rightarrow> operator_credential \<Rightarrow> string \<Rightarrow> byte list \<Rightarrow> manual_resolution \<Rightarrow> instant
     \<Rightarrow> manual_resolution_result op_tx" where
  "honor_transfer u256_from_str credential key hash resolution now =
     tx_bind (tx_read (\<lambda>s. ok_or OE_InvalidManualResolution (rn_payment_intent_id resolution))) (\<lambda>intent_id.
     tx_bind (tx_read (\<lambda>s. ok_or OE_InvalidManualResolution (rn_attempt_id resolution))) (\<lambda>attempt_id.
     tx_bind (plan_honor u256_from_str resolution) (\<lambda>plan.
     tx_bind (insert_resolution u256_from_str credential key hash resolution (Some (mh_merchant_id (hl_row plan)))
       (Some (hl_allocate plan)) (if raw_is_zero (hl_remainder plan) then None else Some (hl_remainder plan))
       now) (\<lambda>replay.
     case replay of Some replay \<Rightarrow> tx_return replay
     | None \<Rightarrow>
       tx_bind (tx_map_err honor_refused (manual_allocate_and_finish
         (honor_command resolution intent_id attempt_id plan) (hl_allocate plan) (hl_remainder plan)
         (hl_outcome_name plan) (oc_label credential) (rn_reason resolution) now)) (\<lambda>record.
       if record = SR_ForeignClaim \<or> record = SR_AlreadyProcessed then tx_fail OE_ManualResolutionConflict
       else
         tx_then (record_admin_audit credential resolution intent_id)
         (load_resolution u256_from_str (oc_key_id credential) key hash False))))))"

definition reject_transfer ::
  "(string \<Rightarrow> u256 option) \<Rightarrow> operator_credential \<Rightarrow> string \<Rightarrow> byte list \<Rightarrow> manual_resolution \<Rightarrow> instant
     \<Rightarrow> manual_resolution_result op_tx" where
  "reject_transfer u256_from_str credential key hash resolution now =
     tx_bind (tx_read (\<lambda>s. ok_or OE_ManualResolutionNotFound
       (Option.bind (find (\<lambda>x. ts_transfer_id x = rn_transfer_id resolution) (st_transfer_states s)) (\<lambda>x.
        Option.bind (find (\<lambda>p. pr_transfer_id p = ts_transfer_id x) (st_processing s)) (\<lambda>p.
        Some (ts_state x, pr_state p)))))) (\<lambda>(finality, state).
     if finality \<noteq> ''finalized'' \<or> \<not> parked_state state then tx_fail OE_ManualResolutionConflict
     else
     tx_then (tx_require (\<lambda>s. \<not> list_ex (\<lambda>a. al_transfer_id a = rn_transfer_id resolution) (st_allocations s))
       OE_ManualResolutionConflict)
     (tx_bind (insert_resolution u256_from_str credential key hash resolution None None None now) (\<lambda>replay.
      case replay of Some replay \<Rightarrow> tx_return replay
      | None \<Rightarrow>
        tx_then (tx_map_err OE_Repository (set_processing (rn_transfer_id resolution) ''resolved''
          (rn_reason resolution) now))
        (tx_then (record_admin_audit credential resolution (rn_transfer_id resolution))
        (load_resolution u256_from_str (oc_key_id credential) key hash False)))))"

definition disposition_entry ::
  "operator_credential \<Rightarrow> manual_resolution \<Rightarrow> uuid \<Rightarrow> uuid \<Rightarrow> uuid \<Rightarrow> raw_amount \<Rightarrow> remainder_disposition \<Rightarrow> string
     \<Rightarrow> instant \<Rightarrow> disposition_row" where
  "disposition_entry credential resolution resolution_id intent_id merchant_id remainder disposition reference now =
     \<lparr> od_resolution_id = resolution_id, od_transfer_id = rn_transfer_id resolution,
       od_payment_intent_id = intent_id, od_merchant_id = merchant_id, od_remainder_raw = unat remainder,
       od_disposition = remainder_disposition_as_str disposition, od_external_reference = reference,
       od_recorded_by = oc_key_id credential, od_reason = rn_reason resolution, od_recorded_at = now \<rparr>"

text \<open>
  Inserting the disposition: its \<open>external_reference\<close> may not be absent or blank, and one
  disposition exists per resolution and per transfer and intent; a second one is a conflict.
\<close>

definition insert_disposition ::
  "operator_credential \<Rightarrow> manual_resolution \<Rightarrow> uuid \<Rightarrow> uuid \<Rightarrow> uuid \<Rightarrow> raw_amount \<Rightarrow> remainder_disposition
     \<Rightarrow> instant \<Rightarrow> unit op_tx" where
  "insert_disposition credential resolution resolution_id intent_id merchant_id remainder disposition now =
     (case rn_external_reference resolution of
        None \<Rightarrow> tx_fail (storage ''overpayment_remainder_dispositions_not_null'')
      | Some reference \<Rightarrow>
          let r = disposition_entry credential resolution resolution_id intent_id merchant_id remainder
                    disposition reference now
          in tx_then (tx_require (\<lambda>s. 0 < od_remainder_raw r \<and> char_between 1 200 (btrim reference))
               (storage ''overpayment_remainder_dispositions_check''))
             (tx_then (tx_require (\<lambda>s. \<not> list_ex (\<lambda>x. od_resolution_id x = resolution_id \<or>
                 od_transfer_id x = od_transfer_id r \<and> od_payment_intent_id x = intent_id) (st_dispositions s))
               OE_ManualResolutionConflict)
             (tx_then (tx_require (\<lambda>s. transfer_exists (od_transfer_id r) s \<and> intent_exists intent_id s \<and>
                 merchant_exists merchant_id s \<and> operator_key_exists (oc_key_id credential) s)
               (storage ''overpayment_remainder_dispositions_fkey''))
             (tx_modify (\<lambda>s. s\<lparr> st_dispositions := st_dispositions s @ [r] \<rparr>)))))"

definition close_matched :: "uuid \<Rightarrow> processing_row \<Rightarrow> bool" where
  "close_matched transfer_id p \<longleftrightarrow> pr_transfer_id p = transfer_id \<and> pr_state p = ''matched''"

definition record_external_disposition ::
  "(string \<Rightarrow> u256 option) \<Rightarrow> operator_credential \<Rightarrow> string \<Rightarrow> byte list \<Rightarrow> manual_resolution \<Rightarrow> instant
     \<Rightarrow> manual_resolution_result op_tx" where
  "record_external_disposition u256_from_str credential key hash resolution now =
     tx_bind (tx_read (\<lambda>s. ok_or OE_InvalidManualResolution (rn_payment_intent_id resolution))) (\<lambda>intent_id.
     tx_bind (tx_read (\<lambda>s. ok_or OE_InvalidManualResolution (rn_remainder_raw resolution))) (\<lambda>remainder.
     tx_bind (tx_read (\<lambda>s. ok_or OE_InvalidManualResolution (rn_disposition resolution))) (\<lambda>disposition.
     tx_bind (tx_read (\<lambda>s. ok_or OE_ManualResolutionNotFound
       (find (\<lambda>d. de_transfer_id d = rn_transfer_id resolution \<and> de_payment_intent_id d = intent_id \<and>
          de_outcome d = ''overpaid'') (st_decisions s)))) (\<lambda>decision.
     tx_bind (tx_read (\<lambda>s. parse_raw u256_from_str (nat_str (de_remainder_raw decision)))) (\<lambda>recorded.
     if recorded \<noteq> remainder then tx_fail OE_ManualResolutionConflict
     else
     tx_bind (insert_resolution u256_from_str credential key hash resolution (Some (de_merchant_id decision)) None
       (Some remainder) now) (\<lambda>replay.
     case replay of Some replay \<Rightarrow> tx_return replay
     | None \<Rightarrow>
       tx_bind (tx_read (\<lambda>s. ok_or (storage ''row not found'')
         (map_option mr_id (find (same_request (oc_key_id credential) key) (st_resolutions s))))) (\<lambda>resolution_id.
       tx_then (insert_disposition credential resolution resolution_id intent_id (de_merchant_id decision)
         remainder disposition now)
       (tx_then (tx_require (\<lambda>s. rows_affected (close_matched (rn_transfer_id resolution)) (st_processing s) = 1)
         OE_ManualResolutionConflict)
       (tx_then (tx_modify (\<lambda>s. s\<lparr> st_processing := sql_update (close_matched (rn_transfer_id resolution))
         (\<lambda>p. p\<lparr> pr_state := ''resolved'', pr_last_error := None, pr_version := pr_version p + 1,
                 pr_updated_at := now \<rparr>) (st_processing s) \<rparr>))
       (tx_then (record_admin_audit credential resolution intent_id)
       (load_resolution u256_from_str (oc_key_id credential) key hash False)))))))))))"

definition resolve_manual_tx ::
  "(string \<Rightarrow> u256 option) \<Rightarrow> operator_credential \<Rightarrow> string \<Rightarrow> byte list \<Rightarrow> manual_resolution \<Rightarrow> instant
     \<Rightarrow> manual_resolution_result op_tx" where
  "resolve_manual_tx u256_from_str credential key hash resolution decided_at =
     tx_bind (tx_gets (\<lambda>s. list_ex (same_request (oc_key_id credential) key) (st_resolutions s))) (\<lambda>exists.
     if exists then load_resolution u256_from_str (oc_key_id credential) key hash True
     else (case rn_action resolution of
         MRA_Honor \<Rightarrow> honor_transfer u256_from_str credential key hash resolution decided_at
       | MRA_Reject \<Rightarrow> reject_transfer u256_from_str credential key hash resolution decided_at
       | MRA_RecordRemainderDisposition \<Rightarrow>
           record_external_disposition u256_from_str credential key hash resolution decided_at))"

definition pg_resolve_manual ::
  "(string \<Rightarrow> u256 option) \<Rightarrow> operator_credential \<Rightarrow> string \<Rightarrow> byte list \<Rightarrow> manual_resolution \<Rightarrow> instant
     \<Rightarrow> store \<Rightarrow> (operations_error + manual_resolution_result) \<times> store" where
  "pg_resolve_manual u256_from_str credential key hash resolution decided_at =
     tx_run (resolve_manual_tx u256_from_str credential key hash resolution decided_at)"

section \<open>Honors that need two operators\<close>

record honor_proposal =
  hq_id :: uuid
  hq_transfer_id :: uuid
  hq_payment_intent_id :: uuid
  hq_attempt_id :: uuid
  hq_merchant_id :: uuid
  hq_allocate_raw :: raw_amount
  hq_threshold_raw :: raw_amount
  hq_reason :: string
  hq_evidence :: payload
  hq_proposed_by_key_id :: uuid
  hq_proposed_by_label :: string
  hq_status :: proposal_status
  hq_created_at :: instant
  hq_expires_at :: instant
  hq_decided_by_key_id :: "uuid option"
  hq_decided_by_label :: "string option"
  hq_decision_reason :: "string option"
  hq_decided_at :: "instant option"
  hq_resolution_id :: "uuid option"
  hq_replayed :: bool

definition into_proposal ::
  "(string \<Rightarrow> u256 option) \<Rightarrow> honor_proposal_row \<Rightarrow> bool \<Rightarrow> operations_error + honor_proposal" where
  "into_proposal u256_from_str row replayed =
     bind_result (parse_raw u256_from_str (nat_str (hp_allocate_raw row))) (\<lambda>allocate_raw.
     bind_result (if nat_str (hp_threshold_raw row) = ''0'' then Inr raw_ZERO
       else parse_raw u256_from_str (nat_str (hp_threshold_raw row))) (\<lambda>threshold_raw.
     bind_result (map_err OE_Repository (proposal_status_parse (hp_status row))) (\<lambda>status.
     Inr \<lparr> hq_id = hp_id row, hq_transfer_id = hp_transfer_id row,
       hq_payment_intent_id = hp_payment_intent_id row, hq_attempt_id = hp_attempt_id row,
       hq_merchant_id = hp_merchant_id row, hq_allocate_raw = allocate_raw,
       hq_threshold_raw = threshold_raw, hq_reason = hp_reason row, hq_evidence = hp_evidence row,
       hq_proposed_by_key_id = hp_proposer_key_id row, hq_proposed_by_label = hp_proposer_label row,
       hq_status = status, hq_created_at = hp_created_at row, hq_expires_at = hp_expires_at row,
       hq_decided_by_key_id = hp_decided_by_key_id row, hq_decided_by_label = hp_decided_by_label row,
       hq_decision_reason = hp_decision_reason row, hq_decided_at = hp_decided_at row,
       hq_resolution_id = hp_resolution_id row, hq_replayed = replayed \<rparr>)))"

definition proposal_request_hash :: "honor_proposal_row \<Rightarrow> operations_error + byte list" where
  "proposal_request_hash row =
     (if length (hp_request_hash row) = 32 then Inr (hp_request_hash row)
      else Inl (corrupt ''a proposal hash is not 32 bytes''))"

definition locked_proposal :: "uuid \<Rightarrow> honor_proposal_row op_tx" where
  "locked_proposal proposal_id = tx_read (\<lambda>s.
     ok_or OE_HonorProposalNotFound (find (\<lambda>r. hp_id r = proposal_id) (st_proposals s)))"

definition proposal_audit ::
  "operator_credential \<Rightarrow> uuid \<Rightarrow> string \<Rightarrow> uuid \<Rightarrow> string \<Rightarrow> payload \<Rightarrow> unit op_tx" where
  "proposal_audit operator merchant_id action proposal_id reason payload =
     tx_then (tx_require (merchant_exists merchant_id) (storage ''audit_events_merchant_id_fkey''))
     (tx_modify (\<lambda>s. s\<lparr> st_audit := st_audit s @ [\<lparr> au_merchant_id = Some merchant_id,
       au_actor_type = ''operator'', au_actor_id = Some (oc_key_id operator), au_action = action,
       au_resource_type = ''manual_honor_proposal'', au_resource_id = proposal_id,
       au_reason = Some reason, au_payload = payload \<rparr>] \<rparr>))"

definition proposal_entry ::
  "uuid \<Rightarrow> operator_credential \<Rightarrow> string \<Rightarrow> byte list \<Rightarrow> manual_resolution \<Rightarrow> uuid \<Rightarrow> uuid \<Rightarrow> raw_amount
     \<Rightarrow> honor_plan \<Rightarrow> raw_amount \<Rightarrow> instant \<Rightarrow> instant \<Rightarrow> honor_proposal_row" where
  "proposal_entry i proposer key hash resolution intent_id attempt_id allocate plan threshold_raw now expires_at =
     \<lparr> hp_id = i, hp_proposer_key_id = oc_key_id proposer, hp_proposer_label = oc_label proposer,
       hp_idempotency_key = key, hp_request_hash = hash, hp_transfer_id = rn_transfer_id resolution,
       hp_payment_intent_id = intent_id, hp_attempt_id = attempt_id,
       hp_merchant_id = mh_merchant_id (hl_row plan), hp_allocate_raw = unat allocate,
       hp_threshold_raw = unat threshold_raw, hp_reason = rn_reason resolution,
       hp_evidence = plan_evidence plan, hp_status = ''pending'', hp_created_at = now,
       hp_expires_at = expires_at, hp_decided_by_key_id = None, hp_decided_by_label = None,
       hp_decision_idempotency_key = None, hp_decision_reason = None, hp_decided_at = None,
       hp_resolution_id = None \<rparr>"

definition proposal_row_ok :: "honor_proposal_row \<Rightarrow> bool" where
  "proposal_row_ok r \<longleftrightarrow> char_between 1 100 (hp_proposer_label r) \<and> char_between 16 128 (hp_idempotency_key r) \<and>
     length (hp_request_hash r) = 32 \<and> 0 < hp_allocate_raw r \<and> char_between 1 1000 (btrim (hp_reason r)) \<and>
     hp_created_at r < hp_expires_at r"

definition proposal_unique :: "honor_proposal_row \<Rightarrow> store \<Rightarrow> bool" where
  "proposal_unique r s \<longleftrightarrow> \<not> list_ex (\<lambda>x. hp_id x = hp_id r \<or>
     hp_proposer_key_id x = hp_proposer_key_id r \<and> hp_idempotency_key x = hp_idempotency_key r \<or>
     hp_transfer_id x = hp_transfer_id r \<and> hp_status x = ''pending'') (st_proposals s)"

definition proposal_refers :: "honor_proposal_row \<Rightarrow> store \<Rightarrow> bool" where
  "proposal_refers r s \<longleftrightarrow> operator_key_exists (hp_proposer_key_id r) s \<and>
     transfer_exists (hp_transfer_id r) s \<and> intent_exists (hp_payment_intent_id r) s \<and>
     attempt_exists (hp_attempt_id r) s \<and> merchant_exists (hp_merchant_id r) s"

definition expire_proposals :: "uuid \<Rightarrow> instant \<Rightarrow> unit op_tx" where
  "expire_proposals transfer_id now = tx_modify (\<lambda>s. s\<lparr> st_proposals := sql_update
     (\<lambda>r. hp_transfer_id r = transfer_id \<and> hp_status r = ''pending'' \<and> hp_expires_at r \<le> now)
     (\<lambda>r. r\<lparr> hp_status := ''expired'', hp_decided_at := Some now \<rparr>) (st_proposals s) \<rparr>)"

definition propose_honor_tx ::
  "(string \<Rightarrow> u256 option) \<Rightarrow> operator_credential \<Rightarrow> string \<Rightarrow> byte list \<Rightarrow> manual_resolution \<Rightarrow> raw_amount
     \<Rightarrow> instant \<Rightarrow> instant \<Rightarrow> (honor_proposal_row \<times> bool) op_tx" where
  "propose_honor_tx u256_from_str proposer key hash resolution threshold_raw now expires_at =
     (case (rn_action resolution, rn_payment_intent_id resolution, rn_attempt_id resolution,
            rn_allocate_raw resolution) of
        (MRA_Honor, Some intent_id, Some attempt_id, Some allocate) \<Rightarrow>
          tx_bind (tx_gets (\<lambda>s. find (\<lambda>r. hp_proposer_key_id r = oc_key_id proposer \<and>
            hp_idempotency_key r = key) (st_proposals s))) (\<lambda>existing.
          case existing of
            Some row \<Rightarrow> if hp_request_hash row \<noteq> hash then tx_fail (OE_Repository IdempotencyConflict)
                        else tx_return (row, True)
          | None \<Rightarrow>
            tx_bind (plan_honor u256_from_str resolution) (\<lambda>plan.
            tx_then (expire_proposals (rn_transfer_id resolution) now)
            (tx_bind (tx_gets (\<lambda>s. proposal_entry (st_now_v7 s (st_generated s)) proposer key hash resolution
              intent_id attempt_id allocate plan threshold_raw now expires_at)) (\<lambda>row.
            tx_then (tx_require (\<lambda>s. proposal_row_ok row) (storage ''manual_honor_proposals_check''))
            (tx_then (tx_require (proposal_unique row) OE_ManualResolutionConflict)
            (tx_then (tx_require (proposal_refers row) (storage ''manual_honor_proposals_fkey''))
            (tx_then (tx_modify (\<lambda>s. s\<lparr> st_generated := st_generated s + 1,
              st_proposals := st_proposals s @ [row] \<rparr>))
            (tx_then (proposal_audit proposer (mh_merchant_id (hl_row plan)) ''honor.propose'' (hp_id row)
              (rn_reason resolution) [(''transfer_id'', PV_Uuid (rn_transfer_id resolution)),
                (''payment_intent_id'', PV_Uuid intent_id), (''attempt_id'', PV_Uuid attempt_id),
                (''allocate_raw'', PV_Amount allocate), (''threshold_raw'', PV_Amount threshold_raw),
                (''expires_at'', PV_Time expires_at)])
            (tx_return (row, False))))))))))
      | _ \<Rightarrow> tx_fail OE_InvalidManualResolution)"

text \<open>The stored row is converted after the commit.\<close>

definition converted ::
  "(string \<Rightarrow> u256 option) \<Rightarrow> (operations_error + honor_proposal_row \<times> bool) \<times> store
     \<Rightarrow> (operations_error + honor_proposal) \<times> store" where
  "converted u256_from_str r =
     (bind_result (fst r) (\<lambda>(row, replayed). into_proposal u256_from_str row replayed), snd r)"

definition pg_propose_honor ::
  "(string \<Rightarrow> u256 option) \<Rightarrow> operator_credential \<Rightarrow> string \<Rightarrow> byte list \<Rightarrow> manual_resolution \<Rightarrow> raw_amount
     \<Rightarrow> instant \<Rightarrow> instant \<Rightarrow> store \<Rightarrow> (operations_error + honor_proposal) \<times> store" where
  "pg_propose_honor u256_from_str proposer key hash resolution threshold_raw now expires_at s =
     converted u256_from_str
       (tx_run (propose_honor_tx u256_from_str proposer key hash resolution threshold_raw now expires_at) s)"

definition proposed_resolution :: "honor_proposal_row \<Rightarrow> raw_amount \<Rightarrow> manual_resolution" where
  "proposed_resolution proposal allocate =
     \<lparr> rn_action = MRA_Honor, rn_transfer_id = hp_transfer_id proposal,
       rn_payment_intent_id = Some (hp_payment_intent_id proposal),
       rn_attempt_id = Some (hp_attempt_id proposal), rn_allocate_raw = Some allocate,
       rn_remainder_raw = None, rn_disposition = None, rn_external_reference = None,
       rn_reason = hp_reason proposal \<rparr>"

definition approved_row :: "operator_credential \<Rightarrow> string \<Rightarrow> string \<Rightarrow> instant \<Rightarrow> uuid \<Rightarrow> honor_proposal_row \<Rightarrow> honor_proposal_row" where
  "approved_row approver key reason now resolution_id r =
     r\<lparr> hp_status := ''approved'', hp_decided_by_key_id := Some (oc_key_id approver),
        hp_decided_by_label := Some (oc_label approver), hp_decision_idempotency_key := Some key,
        hp_decision_reason := Some reason, hp_decided_at := Some now, hp_resolution_id := Some resolution_id \<rparr>"

definition approve_row ::
  "uuid \<Rightarrow> operator_credential \<Rightarrow> string \<Rightarrow> string \<Rightarrow> instant \<Rightarrow> uuid \<Rightarrow> unit op_tx" where
  "approve_row proposal_id approver key reason now resolution_id =
     tx_then (tx_require (\<lambda>s. \<not> list_ex (\<lambda>r. hp_id r \<noteq> proposal_id \<and> hp_resolution_id r = Some resolution_id)
       (st_proposals s)) (storage ''manual_honor_proposals_resolution_id_key''))
     (tx_modify (\<lambda>s. s\<lparr> st_proposals := sql_update (\<lambda>r. hp_id r = proposal_id)
       (approved_row approver key reason now resolution_id) (st_proposals s) \<rparr>))"

definition approve_honor_tx ::
  "(string \<Rightarrow> u256 option) \<Rightarrow> operator_credential \<Rightarrow> uuid \<Rightarrow> string \<Rightarrow> string \<Rightarrow> instant
     \<Rightarrow> manual_resolution_result op_tx" where
  "approve_honor_tx u256_from_str approver proposal_id key reason now =
     tx_bind (tx_gets (\<lambda>s. map_option mr_id (find (same_request (oc_key_id approver) key) (st_resolutions s)))) (\<lambda>spent.
     tx_bind (locked_proposal proposal_id) (\<lambda>proposal.
     tx_bind (tx_read (\<lambda>s. proposal_request_hash proposal)) (\<lambda>hash.
     case spent of
       Some resolution_id \<Rightarrow>
         if hp_resolution_id proposal \<noteq> Some resolution_id then tx_fail (OE_Repository IdempotencyConflict)
         else load_resolution u256_from_str (oc_key_id approver) key hash True
     | None \<Rightarrow>
         if oc_key_id approver = hp_proposer_key_id proposal then tx_fail OE_SameOperator
         else
         tx_bind (tx_read (\<lambda>s. map_err OE_Repository (proposal_status_parse (hp_status proposal)))) (\<lambda>status.
         if status \<noteq> PS_Pending then tx_fail OE_HonorProposalNotPending
         else if now \<ge> hp_expires_at proposal then tx_fail OE_HonorProposalExpired
         else
         tx_bind (tx_read (\<lambda>s. parse_raw u256_from_str (nat_str (hp_allocate_raw proposal)))) (\<lambda>allocate.
         tx_bind (honor_transfer u256_from_str approver key hash (proposed_resolution proposal allocate) now) (\<lambda>result.
         tx_then (approve_row proposal_id approver key reason now (mt_id result))
         (tx_then (proposal_audit approver (hp_merchant_id proposal) ''honor.approve'' proposal_id reason
           [(''transfer_id'', PV_Uuid (hp_transfer_id proposal)),
            (''proposed_by'', PV_Uuid (hp_proposer_key_id proposal)),
            (''resolution_id'', PV_Uuid (mt_id result)),
            (''allocated_raw'', PV_Number (hp_allocate_raw proposal))])
         (tx_return result))))))))"

definition pg_approve_honor ::
  "(string \<Rightarrow> u256 option) \<Rightarrow> operator_credential \<Rightarrow> uuid \<Rightarrow> string \<Rightarrow> string \<Rightarrow> instant
     \<Rightarrow> store \<Rightarrow> (operations_error + manual_resolution_result) \<times> store" where
  "pg_approve_honor u256_from_str approver proposal_id key reason now =
     tx_run (approve_honor_tx u256_from_str approver proposal_id key reason now)"

definition rejected_row :: "operator_credential \<Rightarrow> string \<Rightarrow> string \<Rightarrow> instant \<Rightarrow> honor_proposal_row \<Rightarrow> honor_proposal_row" where
  "rejected_row operator key reason now r =
     r\<lparr> hp_status := ''rejected'', hp_decided_by_key_id := Some (oc_key_id operator),
        hp_decided_by_label := Some (oc_label operator), hp_decision_idempotency_key := Some key,
        hp_decision_reason := Some reason, hp_decided_at := Some now \<rparr>"

definition reject_honor_tx ::
  "operator_credential \<Rightarrow> uuid \<Rightarrow> string \<Rightarrow> string \<Rightarrow> instant \<Rightarrow> (honor_proposal_row \<times> bool) op_tx" where
  "reject_honor_tx operator proposal_id key reason now =
     tx_bind (locked_proposal proposal_id) (\<lambda>proposal.
     tx_bind (tx_read (\<lambda>s. map_err OE_Repository (proposal_status_parse (hp_status proposal)))) (\<lambda>status.
     if status = PS_Rejected \<and> hp_decided_by_key_id proposal = Some (oc_key_id operator) \<and>
        hp_decision_idempotency_key proposal = Some key
     then (if hp_decision_reason proposal \<noteq> Some reason then tx_fail (OE_Repository IdempotencyConflict)
           else tx_return (proposal, True))
     else if status \<noteq> PS_Pending then tx_fail OE_HonorProposalNotPending
     else
       tx_then (tx_require (operator_key_exists (oc_key_id operator)) (storage ''manual_honor_proposals_fkey''))
       (tx_then (tx_modify (\<lambda>s. s\<lparr> st_proposals := sql_update (\<lambda>r. hp_id r = proposal_id)
          (rejected_row operator key reason now) (st_proposals s) \<rparr>))
       (tx_then (proposal_audit operator (hp_merchant_id proposal) ''honor.reject'' proposal_id reason
          [(''transfer_id'', PV_Uuid (hp_transfer_id proposal)),
           (''proposed_by'', PV_Uuid (hp_proposer_key_id proposal))])
       (tx_return (rejected_row operator key reason now proposal, False))))))"

definition pg_reject_honor ::
  "(string \<Rightarrow> u256 option) \<Rightarrow> operator_credential \<Rightarrow> uuid \<Rightarrow> string \<Rightarrow> string \<Rightarrow> instant
     \<Rightarrow> store \<Rightarrow> (operations_error + honor_proposal) \<times> store" where
  "pg_reject_honor u256_from_str operator proposal_id key reason now s =
     converted u256_from_str (tx_run (reject_honor_tx operator proposal_id key reason now) s)"

definition pg_pending_honor_proposals ::
  "(string \<Rightarrow> u256 option) \<Rightarrow> nat \<Rightarrow> uuid option \<Rightarrow> instant \<Rightarrow> store \<Rightarrow> operations_error + honor_proposal list" where
  "pg_pending_honor_proposals u256_from_str limit before now s =
     collect_results (map (\<lambda>row. into_proposal u256_from_str row False) (take (limit + 1) (rev (sort_key hp_id
       (filter (\<lambda>r. hp_status r = ''pending'' \<and> hp_expires_at r > now \<and>
          (case before of None \<Rightarrow> True | Some b \<Rightarrow> hp_id r < b)) (st_proposals s))))))"

section \<open>The operator service\<close>

definition service_resolve_manual ::
  "(string \<Rightarrow> u256 option) \<Rightarrow> (byte list \<Rightarrow> byte list) \<Rightarrow> (u256 \<Rightarrow> string) \<Rightarrow> (uuid \<Rightarrow> string) \<Rightarrow> honor_approval_policy
     \<Rightarrow> operator_credential \<Rightarrow> string \<Rightarrow> manual_resolution \<Rightarrow> store
     \<Rightarrow> (operations_error + manual_resolution_result) \<times> store" where
  "service_resolve_manual u256_from_str sha256 display_u256 display_uuid policy credential key resolution s =
     (case bind_result (require_scope credential OS_Admin) (\<lambda>_.
           bind_result (operator_key_ok key) (\<lambda>_.
           bind_result (validate_reason (rn_reason resolution)) (\<lambda>_.
           bind_result (validate_manual_resolution resolution) (\<lambda>_.
           if rn_action resolution = MRA_Honor \<and>
              (case rn_allocate_raw resolution of None \<Rightarrow> False
               | Some amount \<Rightarrow> requires_second_operator policy amount)
           then Inl OE_DualControlRequired else Inr ())))) of
        Inl e \<Rightarrow> (Inl e, s)
      | Inr _ \<Rightarrow> pg_resolve_manual u256_from_str credential key
                  (manual_resolution_hash sha256 display_u256 display_uuid resolution) resolution (st_now s) s)"

definition service_propose_honor ::
  "(string \<Rightarrow> u256 option) \<Rightarrow> (byte list \<Rightarrow> byte list) \<Rightarrow> (u256 \<Rightarrow> string) \<Rightarrow> (uuid \<Rightarrow> string)
     \<Rightarrow> (instant \<Rightarrow> int \<Rightarrow> instant option) \<Rightarrow> honor_approval_policy \<Rightarrow> operator_credential \<Rightarrow> string
     \<Rightarrow> manual_resolution \<Rightarrow> store \<Rightarrow> (operations_error + honor_proposal) \<times> store" where
  "service_propose_honor u256_from_str sha256 display_u256 display_uuid add_secs policy credential key resolution s =
     (case bind_result (require_scope credential OS_Admin) (\<lambda>_.
           bind_result (operator_key_ok key) (\<lambda>_.
           bind_result (validate_reason (rn_reason resolution)) (\<lambda>_.
           if rn_action resolution \<noteq> MRA_Honor then Inl OE_InvalidManualResolution
           else bind_result (validate_manual_resolution resolution) (\<lambda>_.
           ok_or OE_InvalidManualResolution (add_secs (st_now s) HONOR_PROPOSAL_TTL))))) of
        Inl e \<Rightarrow> (Inl e, s)
      | Inr expires_at \<Rightarrow> pg_propose_honor u256_from_str credential key
          (manual_resolution_hash sha256 display_u256 display_uuid resolution) resolution
          (ha_dual_control_min_raw policy) (st_now s) expires_at s)"

definition service_approve_honor ::
  "(string \<Rightarrow> u256 option) \<Rightarrow> operator_credential \<Rightarrow> uuid \<Rightarrow> string \<Rightarrow> string \<Rightarrow> store
     \<Rightarrow> (operations_error + manual_resolution_result) \<times> store" where
  "service_approve_honor u256_from_str credential proposal_id key reason s =
     (case bind_result (require_scope credential OS_Admin) (\<lambda>_.
           bind_result (operator_key_ok key) (\<lambda>_. validate_reason reason)) of
        Inl e \<Rightarrow> (Inl e, s)
      | Inr _ \<Rightarrow> pg_approve_honor u256_from_str credential proposal_id key reason (st_now s) s)"

definition service_reject_honor ::
  "(string \<Rightarrow> u256 option) \<Rightarrow> operator_credential \<Rightarrow> uuid \<Rightarrow> string \<Rightarrow> string \<Rightarrow> store
     \<Rightarrow> (operations_error + honor_proposal) \<times> store" where
  "service_reject_honor u256_from_str credential proposal_id key reason s =
     (case bind_result (require_scope credential OS_Admin) (\<lambda>_.
           bind_result (operator_key_ok key) (\<lambda>_. validate_reason reason)) of
        Inl e \<Rightarrow> (Inl e, s)
      | Inr _ \<Rightarrow> pg_reject_honor u256_from_str credential proposal_id key reason (st_now s) s)"

end
