(* ===== verification/Money_Invariant.thy ===== *)
theory Money_Invariant
  imports Settlement_Store
begin

text \<open>
  What the money tables always satisfy, and that every settlement transaction keeps it for
  any command whatever: the ledger of each transfer is the sum of its allocations and
  never exceeds the transfer; a transfer is allocated at most once, to an attempt at its
  own collector, under a claim of the attempt's intent; an undecided transfer has no
  money taken from it; and an intent is announced as paid at most once.

  The predicates are stated over tables, so that a step is judged by the tables it
  rewrites; \<open>money_inv\<close> collects them for a store.
\<close>

section \<open>The invariant\<close>

definition ledger_ok :: "transfer_row list \<Rightarrow> processing_row list \<Rightarrow> allocation_row list \<Rightarrow> bool" where
  "ledger_ok trs prs als \<longleftrightarrow>
     (\<forall>p\<in>set prs. pr_allocated_raw p = sql_sum al_allocated_raw (\<lambda>a. al_transfer_id a = pr_transfer_id p) als \<and>
        (\<forall>t\<in>set trs. tr_id t = pr_transfer_id p \<longrightarrow> pr_allocated_raw p \<le> tr_amount_raw t))"

definition open_state :: "string \<Rightarrow> bool" where
  "open_state state \<longleftrightarrow> state = ''pending'' \<or> state = ''unmatched'' \<or> state = ''held''"

definition open_ok :: "processing_row list \<Rightarrow> bool" where
  "open_ok prs \<longleftrightarrow> (\<forall>p\<in>set prs. open_state (pr_state p) \<longrightarrow> pr_allocated_raw p = 0)"

definition bound_ok ::
  "transfer_row list \<Rightarrow> processing_row list \<Rightarrow> claim_row list \<Rightarrow> attempt_row list \<Rightarrow> allocation_row list
     \<Rightarrow> bool" where
  "bound_ok trs prs cls ats als \<longleftrightarrow>
     (\<forall>a\<in>set als. 0 < al_allocated_raw a \<and>
        (\<exists>p\<in>set prs. pr_transfer_id p = al_transfer_id a) \<and>
        (\<exists>c\<in>set cls. cm_transfer_id c = al_transfer_id a \<and> cm_payment_intent_id c = al_payment_intent_id a) \<and>
        (\<exists>t\<in>set trs. tr_id t = al_transfer_id a \<and> tr_collector_address_id t = al_collector_address_id a) \<and>
        (\<exists>x\<in>set ats. at_id x = al_attempt_id a \<and> at_payment_intent_id x = al_payment_intent_id a \<and>
           at_collector_address_id x = al_collector_address_id a))"

definition claims_ok :: "claim_row list \<Rightarrow> allocation_row list \<Rightarrow> bool" where
  "claims_ok cls als \<longleftrightarrow> (\<forall>c\<in>set cls. \<exists>a\<in>set als. al_transfer_id a = cm_transfer_id c)"

definition fulfilled :: "fulfillment_row list \<Rightarrow> uuid \<Rightarrow> bool" where
  "fulfilled fus i \<longleftrightarrow> (\<exists>f\<in>set fus. fu_payment_intent_id f = i)"

definition is_paid_event :: "uuid \<Rightarrow> outbox_row \<Rightarrow> bool" where
  "is_paid_event i event \<longleftrightarrow> ob_event_type event = ''payment_intent.paid'' \<and> ob_aggregate_id event = i"

definition paid_ok ::
  "intent_row list \<Rightarrow> attempt_row list \<Rightarrow> fulfillment_row list \<Rightarrow> outbox_row list \<Rightarrow> bool" where
  "paid_ok ins ats fus obs \<longleftrightarrow>
     (\<forall>i\<in>set ins. in_status i = ''paid'' \<longleftrightarrow> fulfilled fus (in_id i)) \<and>
     (\<forall>a\<in>set ats. at_status a = ''settled'' \<longrightarrow> fulfilled fus (at_payment_intent_id a)) \<and>
     (\<forall>i. rows_affected (is_paid_event i) obs \<le> (if fulfilled fus i then 1 else 0))"

definition keys_ok :: "store \<Rightarrow> bool" where
  "keys_ok s \<longleftrightarrow> distinct (map tr_id (st_transfers s)) \<and> distinct (map pr_transfer_id (st_processing s)) \<and>
     distinct (map cm_transfer_id (st_claims s)) \<and> distinct (map al_transfer_id (st_allocations s)) \<and>
     distinct (map at_id (st_attempts s)) \<and> distinct (map in_id (st_intents s))"

definition money_inv :: "store \<Rightarrow> bool" where
  "money_inv s \<longleftrightarrow> keys_ok s \<and>
     ledger_ok (st_transfers s) (st_processing s) (st_allocations s) \<and>
     open_ok (st_processing s) \<and>
     bound_ok (st_transfers s) (st_processing s) (st_claims s) (st_attempts s) (st_allocations s) \<and>
     claims_ok (st_claims s) (st_allocations s) \<and>
     paid_ok (st_intents s) (st_attempts s) (st_fulfillments s) (st_outbox s)"

text \<open>Tables the invariant does not read.\<close>

lemma money_inv_frame [simp]:
  "money_inv (s\<lparr> st_decisions := d \<rparr>) = money_inv s"
  "money_inv (s\<lparr> st_events := e \<rparr>) = money_inv s"
  "money_inv (s\<lparr> st_generated := g \<rparr>) = money_inv s"
  "money_inv (s\<lparr> st_audit := au \<rparr>) = money_inv s"
  "money_inv (s\<lparr> st_idempotency := ir \<rparr>) = money_inv s"
  "money_inv (s\<lparr> st_resolutions := r \<rparr>) = money_inv s"
  "money_inv (s\<lparr> st_dispositions := od \<rparr>) = money_inv s"
  "money_inv (s\<lparr> st_amount_leases := al \<rparr>) = money_inv s"
  "money_inv (s\<lparr> st_lease_history := lh \<rparr>) = money_inv s"
  "money_inv (s\<lparr> st_quotes := q \<rparr>) = money_inv s"
  "money_inv (s\<lparr> st_proposals := hp \<rparr>) = money_inv s"
  by (simp_all add: money_inv_def keys_ok_def)

section \<open>Tables\<close>

lemma open_no_allocation:
  assumes "ledger_ok trs prs als" "open_ok prs" "bound_ok trs prs cls ats als"
    and "p \<in> set prs" "open_state (pr_state p)" "a \<in> set als"
  shows "al_transfer_id a \<noteq> pr_transfer_id p"
proof
  assume eq: "al_transfer_id a = pr_transfer_id p"
  have "sql_sum al_allocated_raw (\<lambda>a. al_transfer_id a = pr_transfer_id p) als = 0"
    using assms(1,2,4,5) by (simp add: ledger_ok_def open_ok_def)
  from sql_sum_0D [OF this assms(6)] eq have "al_allocated_raw a = 0" by simp
  moreover have "0 < al_allocated_raw a" using assms(3,6) by (simp add: bound_ok_def)
  ultimately show False by simp
qed

lemma ledger_okD:
  assumes "ledger_ok trs prs als" "p \<in> set prs"
  shows "pr_allocated_raw p = sql_sum al_allocated_raw (\<lambda>a. al_transfer_id a = pr_transfer_id p) als"
    "t \<in> set trs \<Longrightarrow> tr_id t = pr_transfer_id p \<Longrightarrow> pr_allocated_raw p \<le> tr_amount_raw t"
  using assms unfolding ledger_ok_def by blast+

lemma ledger_ok_allocate:
  fixes n :: nat and within :: "processing_row \<Rightarrow> bool"
  assumes "ledger_ok trs prs als" "distinct (map tr_id trs)" "distinct (map pr_transfer_id prs)"
    and within: "within = (\<lambda>p. pr_transfer_id p = t \<and>
      list_ex (\<lambda>r. tr_id r = pr_transfer_id p \<and> pr_allocated_raw p + n \<le> tr_amount_raw r) trs)"
    and "list_ex within prs" "al_transfer_id a = t" "al_allocated_raw a = n"
    and f: "\<And>p. pr_transfer_id (f p) = pr_transfer_id p" "\<And>p. pr_allocated_raw (f p) = pr_allocated_raw p + n"
  shows "ledger_ok trs (sql_update within f prs) (als @ [a])"
proof -
  obtain p0 where p0: "p0 \<in> set prs" "within p0" using assms(5) by (auto simp: list_ex_iff)
  have other: "pr_transfer_id p \<noteq> t" if "p \<in> set prs" "\<not> within p" for p
    using distinct_key_eq [OF assms(3) that(1) p0(1)] p0(2) that(2) by (auto simp: within)
  have bound: "pr_allocated_raw p + n \<le> tr_amount_raw r"
    if "within p" "r \<in> set trs" "tr_id r = pr_transfer_id p" for p r
  proof -
    from that(1) obtain r' where "r' \<in> set trs" "tr_id r' = pr_transfer_id p"
      "pr_allocated_raw p + n \<le> tr_amount_raw r'" by (auto simp: within list_ex_iff)
    with distinct_key_eq [OF assms(2) this(1) that(2)] that(3) show ?thesis by simp
  qed
  show ?thesis
    unfolding ledger_ok_def
  proof
    fix q assume "q \<in> set (sql_update within f prs)"
    then obtain p where p: "p \<in> set prs" "q = (if within p then f p else p)" by (auto simp: in_sql_update)
    have l: "pr_allocated_raw p = sql_sum al_allocated_raw (\<lambda>a. al_transfer_id a = pr_transfer_id p) als"
      "\<forall>r\<in>set trs. tr_id r = pr_transfer_id p \<longrightarrow> pr_allocated_raw p \<le> tr_amount_raw r"
      using ledger_okD [OF assms(1) p(1)] by blast+
    show "pr_allocated_raw q = sql_sum al_allocated_raw (\<lambda>a. al_transfer_id a = pr_transfer_id q) (als @ [a]) \<and>
        (\<forall>r\<in>set trs. tr_id r = pr_transfer_id q \<longrightarrow> pr_allocated_raw q \<le> tr_amount_raw r)"
    proof (cases "within p")
      case True
      then have "pr_transfer_id p = t" by (simp add: within)
      with True p(2) l bound [OF True] show ?thesis by (simp add: f assms(6,7))
    next
      case False
      with other [OF p(1)] p(2) l show ?thesis by (simp add: assms(6))
    qed
  qed
qed

lemma ledger_ok_state:
  assumes "ledger_ok trs prs als"
    and "\<And>p. pr_transfer_id (f p) = pr_transfer_id p \<and> pr_allocated_raw (f p) = pr_allocated_raw p"
  shows "ledger_ok trs (sql_update P f prs) als"
  unfolding ledger_ok_def
proof
  fix q assume "q \<in> set (sql_update P f prs)"
  then obtain p where p: "p \<in> set prs" "q = (if P p then f p else p)" by (auto simp: in_sql_update)
  then have q: "pr_transfer_id q = pr_transfer_id p" "pr_allocated_raw q = pr_allocated_raw p"
    using assms(2) by simp_all
  show "pr_allocated_raw q = sql_sum al_allocated_raw (\<lambda>a. al_transfer_id a = pr_transfer_id q) als \<and>
      (\<forall>t\<in>set trs. tr_id t = pr_transfer_id q \<longrightarrow> pr_allocated_raw q \<le> tr_amount_raw t)"
    unfolding q using ledger_okD [OF assms(1) p(1)] by blast
qed

lemma bound_ok_mono:
  assumes "bound_ok trs prs cls ats als"
    and "set (map pr_transfer_id prs) \<subseteq> set (map pr_transfer_id prs')"
    and "set cls \<subseteq> set cls'"
    and "\<And>x. x \<in> set ats \<Longrightarrow> \<exists>y\<in>set ats'. at_id y = at_id x \<and> at_payment_intent_id y = at_payment_intent_id x \<and>
      at_collector_address_id y = at_collector_address_id x"
  shows "bound_ok trs prs' cls' ats' als"
  unfolding bound_ok_def
proof (intro ballI conjI)
  fix a assume a: "a \<in> set als"
  note b = assms(1) [unfolded bound_ok_def, rule_format, OF a]
  show "0 < al_allocated_raw a" using b by blast
  show "\<exists>p\<in>set prs'. pr_transfer_id p = al_transfer_id a"
    using b assms(2) by (metis (no_types, lifting) image_iff list.set_map subset_iff)
  show "\<exists>c\<in>set cls'. cm_transfer_id c = al_transfer_id a \<and> cm_payment_intent_id c = al_payment_intent_id a"
    using b assms(3) by blast
  show "\<exists>t\<in>set trs. tr_id t = al_transfer_id a \<and> tr_collector_address_id t = al_collector_address_id a"
    using b by blast
  from b obtain x where "x \<in> set ats" "at_id x = al_attempt_id a"
    "at_payment_intent_id x = al_payment_intent_id a" "at_collector_address_id x = al_collector_address_id a"
    by blast
  with assms(4) [OF this(1)]
  show "\<exists>x\<in>set ats'. at_id x = al_attempt_id a \<and> at_payment_intent_id x = al_payment_intent_id a \<and>
      at_collector_address_id x = al_collector_address_id a" by auto
qed

lemma bound_ok_append:
  "bound_ok trs prs cls ats (als @ [a]) \<longleftrightarrow> bound_ok trs prs cls ats als \<and> bound_ok trs prs cls ats [a]"
  by (auto simp: bound_ok_def)

lemma attempts_kept:
  assumes "\<And>x. at_id (f x) = at_id x \<and> at_payment_intent_id (f x) = at_payment_intent_id x \<and>
      at_collector_address_id (f x) = at_collector_address_id x" "x \<in> set ats"
  shows "\<exists>y\<in>set (sql_update P f ats). at_id y = at_id x \<and> at_payment_intent_id y = at_payment_intent_id x \<and>
      at_collector_address_id y = at_collector_address_id x"
proof
  show "(if P x then f x else x) \<in> set (sql_update P f ats)" using assms(2) by (auto simp: in_sql_update)
qed (simp add: assms(1))

lemma PAYABLE_not_paid: "in_status i \<in> set PAYABLE_INTENT_STATES \<Longrightarrow> in_status i \<noteq> ''paid''"
  by (auto simp: PAYABLE_INTENT_STATES_def)

lemma paid_ok_append [simp]:
  "ob_event_type ob \<noteq> ''payment_intent.paid'' \<Longrightarrow> paid_ok ins ats fus (obs @ [ob]) = paid_ok ins ats fus obs"
  by (simp add: paid_ok_def is_paid_event_def)

lemma paid_ok_intents:
  assumes "paid_ok ins ats fus obs"
    and "\<And>i. P i \<Longrightarrow> in_status i \<noteq> ''paid'' \<and> in_status (f i) \<noteq> ''paid'' \<and> in_id (f i) = in_id i"
  shows "paid_ok (sql_update P f ins) ats fus obs"
  using assms(1) unfolding paid_ok_def
proof (elim conjE, intro conjI)
  assume *: "\<forall>i\<in>set ins. (in_status i = ''paid'') = fulfilled fus (in_id i)"
  show "\<forall>i\<in>set (sql_update P f ins). (in_status i = ''paid'') = fulfilled fus (in_id i)"
  proof
    fix j assume "j \<in> set (sql_update P f ins)"
    then obtain i where i: "i \<in> set ins" "j = (if P i then f i else i)" by (auto simp: in_sql_update)
    show "(in_status j = ''paid'') = fulfilled fus (in_id j)"
      using * i assms(2) [of i] by (cases "P i") simp_all
  qed
qed

lemma paid_ok_attempts:
  assumes "paid_ok ins ats fus obs"
    and "\<And>a. P a \<Longrightarrow> at_payment_intent_id (f a) = at_payment_intent_id a \<and>
      (at_status (f a) = ''settled'' \<longrightarrow> at_status a = ''settled'')"
  shows "paid_ok ins (sql_update P f ats) fus obs"
  using assms(1) unfolding paid_ok_def
proof (elim conjE, intro conjI)
  assume *: "\<forall>a\<in>set ats. at_status a = ''settled'' \<longrightarrow> fulfilled fus (at_payment_intent_id a)"
  show "\<forall>a\<in>set (sql_update P f ats). at_status a = ''settled'' \<longrightarrow> fulfilled fus (at_payment_intent_id a)"
  proof
    fix b assume "b \<in> set (sql_update P f ats)"
    then obtain a where a: "a \<in> set ats" "b = (if P a then f a else a)" by (auto simp: in_sql_update)
    show "at_status b = ''settled'' \<longrightarrow> fulfilled fus (at_payment_intent_id b)"
      using * a assms(2) [of a] by (cases "P a") simp_all
  qed
qed

lemma payable_not_fulfilled:
  assumes "paid_ok ins ats fus obs" "rows_affected (payable_intent command) ins = 1"
  shows "\<not> fulfilled fus (sc_payment_intent_id command)"
proof -
  from rows_affected_pos [OF assms(2)] obtain i where "i \<in> set ins" "payable_intent command i" by blast
  then show ?thesis using assms(1) PAYABLE_not_paid [of i] by (auto simp: paid_ok_def payable_intent_def)
qed

lemma fulfilled_append [simp]:
  "fulfilled (fus @ [f]) i \<longleftrightarrow> fulfilled fus i \<or> fu_payment_intent_id f = i"
  by (auto simp: fulfilled_def)

lemma paid_ok_pay:
  assumes "paid_ok ins ats fus obs" "distinct (map in_id ins)"
    and one: "rows_affected (payable_intent command) ins = 1"
    and f: "\<And>i. in_id (f i) = in_id i \<and> in_status (f i) = ''paid''"
    and g: "\<And>a. at_payment_intent_id (g a) = at_payment_intent_id a"
    and "fu_payment_intent_id fu = sc_payment_intent_id command"
    and "ob_event_type ob = ''payment_intent.paid''" "ob_aggregate_id ob = sc_payment_intent_id command"
  shows "paid_ok (sql_update (payable_intent command) f ins) (sql_update (open_attempt command) g ats)
      (fus @ [fu]) (obs @ [ob])"
  unfolding paid_ok_def
proof (intro conjI ballI allI)
  note p = assms(1) [unfolded paid_ok_def]
  obtain i0 where i0: "i0 \<in> set ins" "payable_intent command i0" using rows_affected_pos [OF one] by blast
  {
    fix j assume "j \<in> set (sql_update (payable_intent command) f ins)"
    then obtain i where i: "i \<in> set ins" "j = (if payable_intent command i then f i else i)"
      by (auto simp: in_sql_update)
    show "(in_status j = ''paid'') = fulfilled (fus @ [fu]) (in_id j)"
    proof (cases "payable_intent command i")
      case True
      with i f assms(6) show ?thesis by (auto simp: payable_intent_def)
    next
      case False
      have "in_id i \<noteq> sc_payment_intent_id command"
        using distinct_key_eq [OF assms(2) i(1) i0(1)] i0(2) False by (auto simp: payable_intent_def)
      with False i p assms(6) show ?thesis by auto
    qed
  next
    fix b assume "b \<in> set (sql_update (open_attempt command) g ats)"
    then obtain a where a: "a \<in> set ats" "b = (if open_attempt command a then g a else a)"
      by (auto simp: in_sql_update)
    show "at_status b = ''settled'' \<longrightarrow> fulfilled (fus @ [fu]) (at_payment_intent_id b)"
      using a p assms(6) g by (cases "open_attempt command a") (auto simp: open_attempt_def)
  next
    fix i
    have "\<not> fulfilled fus (sc_payment_intent_id command)" by (rule payable_not_fulfilled [OF assms(1) one])
    moreover have "rows_affected (is_paid_event i) obs \<le> (if fulfilled fus i then 1 else 0)" using p by blast
    moreover have "is_paid_event i ob \<longleftrightarrow> i = sc_payment_intent_id command"
      using assms(7,8) by (auto simp: is_paid_event_def)
    ultimately show "rows_affected (is_paid_event i) (obs @ [ob]) \<le> (if fulfilled (fus @ [fu]) i then 1 else 0)"
      using assms(6) by (cases "i = sc_payment_intent_id command") (auto split: if_splits)
  }
qed

section \<open>What each statement writes\<close>

lemma record_decision_effect:
  "record_decision command outcome reason a r now s = Inr (u, s') \<Longrightarrow>
     s' = s\<lparr> st_decisions := upsert_decision command (new_decision command outcome reason a r now) (st_decisions s) \<rparr>"
  by (auto simp: record_decision_def tx_simps)

lemma insert_payment_event_effect:
  "insert_payment_event m i a t e r p now s = Inr (u, s') \<Longrightarrow>
     s' = s\<lparr> st_events := st_events s @ [payment_event_entry m i a t e r p now] \<rparr>"
  by (auto simp: insert_payment_event_def tx_simps)

lemma enqueue_outbox_effect:
  "enqueue_outbox m c e ty aid p now s = Inr (u, s') \<Longrightarrow>
     s' = s\<lparr> st_generated := st_generated s + 1,
       st_outbox := st_outbox s @ [outbox_entry (st_now_v7 s (st_generated s)) m c e ty aid p now] \<rparr>"
  by (auto simp: enqueue_outbox_def tx_simps)

lemma require_one_row_effect: "require_one_row n what s = Inr (u, s') \<Longrightarrow> n = 1 \<and> s' = s"
  by (simp add: require_one_row_def tx_simps)

lemma set_processing_effect:
  "set_processing t state reason now s = Inr (u, s') \<Longrightarrow>
     s' = s\<lparr> st_processing := sql_update (\<lambda>p. pr_transfer_id p = t)
       (\<lambda>p. p\<lparr> pr_state := state, pr_last_error := Some reason, pr_version := pr_version p + 1,
               pr_updated_at := now \<rparr>) (st_processing s) \<rparr>"
  by (auto simp: set_processing_def tx_simps)

lemmas statement_effects = record_decision_effect insert_payment_event_effect enqueue_outbox_effect
  require_one_row_effect set_processing_effect

lemma outbox_entry_simps [simp]:
  "ob_id (outbox_entry i m c e ty aid p now) = i"
  "ob_merchant_id (outbox_entry i m c e ty aid p now) = m"
  "ob_channel (outbox_entry i m c e ty aid p now) = c"
  "ob_event_type (outbox_entry i m c e ty aid p now) = e"
  "ob_aggregate_id (outbox_entry i m c e ty aid p now) = aid"
  "ob_payload (outbox_entry i m c e ty aid p now) = p"
  by (simp_all add: outbox_entry_def)

text \<open>The webhook events a payment owes its merchant.\<close>

definition paid_notice :: "settlement_command \<Rightarrow> uuid \<Rightarrow> instant \<Rightarrow> outbox_row" where
  "paid_notice command event_id now =
     outbox_entry event_id (Some (sc_merchant_id command)) ''webhook'' ''payment_intent.paid''
       ''payment_intent'' (sc_payment_intent_id command)
       [(''payment_intent_id'', PV_Uuid (sc_payment_intent_id command)),
        (''transfer_id'', PV_Uuid (sc_transfer_id command)),
        (''attempt_id'', PV_Uuid (sc_attempt_id command))] now"

definition partial_notice :: "settlement_command \<Rightarrow> uuid \<Rightarrow> instant \<Rightarrow> outbox_row" where
  "partial_notice command event_id now =
     outbox_entry event_id (Some (sc_merchant_id command)) ''webhook'' ''payment_intent.partially_paid''
       ''payment_intent'' (sc_payment_intent_id command)
       [(''payment_intent_id'', PV_Uuid (sc_payment_intent_id command)),
        (''transfer_id'', PV_Uuid (sc_transfer_id command))] now"

definition overpaid_notice :: "settlement_command \<Rightarrow> raw_amount \<Rightarrow> uuid \<Rightarrow> instant \<Rightarrow> outbox_row" where
  "overpaid_notice command remainder_raw event_id now =
     outbox_entry event_id (Some (sc_merchant_id command)) ''webhook'' ''OVERPAID''
       ''payment_intent'' (sc_payment_intent_id command)
       [(''payment_intent_id'', PV_Uuid (sc_payment_intent_id command)),
        (''transfer_id'', PV_Uuid (sc_transfer_id command)),
        (''remainder_raw'', PV_Amount remainder_raw)] now"

text \<open>The entries of the payment journal.\<close>

definition journal_entry :: "settlement_command \<Rightarrow> string \<Rightarrow> string \<Rightarrow> payload \<Rightarrow> instant \<Rightarrow> payment_event_row" where
  "journal_entry command event_type reason p now =
     payment_event_entry (Some (sc_merchant_id command)) (Some (sc_payment_intent_id command))
       (Some (sc_attempt_id command)) (Some (sc_transfer_id command)) event_type (Some reason) p now"

definition settled_event :: "settlement_command \<Rightarrow> instant \<Rightarrow> payment_event_row" where
  "settled_event command now =
     journal_entry command ''SETTLED'' (match_strategy_as_str (sc_match_strategy command))
       [(''policy'', PV_Text (sc_policy_version command)),
        (''independent_groups'', PV_Count (sc_independent_groups command)),
        (''had_own_node'', PV_Bool (sc_had_own_node command)),
        (''risk'', PV_Text (risk_decision_as_str (sc_risk command)))] now"

definition partial_event :: "settlement_command \<Rightarrow> instant \<Rightarrow> payment_event_row" where
  "partial_event command now =
     journal_entry command ''PARTIAL'' (match_strategy_as_str (sc_match_strategy command))
       [(''policy'', PV_Text (sc_policy_version command))] now"

definition overpaid_event :: "settlement_command \<Rightarrow> raw_amount \<Rightarrow> instant \<Rightarrow> payment_event_row" where
  "overpaid_event command r now =
     journal_entry command ''OVERPAID'' ''overpay_remainder'' [(''remainder_raw'', PV_Amount r)] now"

lemmas entry_defs = journal_entry_def settled_event_def partial_event_def overpaid_event_def
  paid_notice_def partial_notice_def overpaid_notice_def

lemma notice_simps [simp]:
  "ob_event_type (paid_notice command i now) = ''payment_intent.paid''"
  "ob_aggregate_id (paid_notice command i now) = sc_payment_intent_id command"
  "ob_event_type (partial_notice command i now) = ''payment_intent.partially_paid''"
  "ob_event_type (overpaid_notice command r i now) = ''OVERPAID''"
  by (simp_all add: paid_notice_def partial_notice_def overpaid_notice_def)

lemma record_remainder_effect:
  assumes "record_remainder command r now s = Inr (u, s')"
  shows "s' = s\<lparr> st_events := st_events s @ [overpaid_event command r now], st_generated := st_generated s + 1,
    st_outbox := st_outbox s @ [overpaid_notice command r (st_now_v7 s (st_generated s)) now] \<rparr>"
  using assms by (auto simp: record_remainder_def entry_defs tx_simps dest!: statement_effects)

definition pay_intent :: "settlement_command \<Rightarrow> instant \<Rightarrow> string \<Rightarrow> intent_row list \<Rightarrow> intent_row list" where
  "pay_intent command now status = sql_update (payable_intent command)
     (\<lambda>i. i\<lparr> in_status := status, in_version := in_version i + 1, in_updated_at := now \<rparr>)"

definition settle_attempt_row :: "settlement_command \<Rightarrow> instant \<Rightarrow> attempt_row list \<Rightarrow> attempt_row list" where
  "settle_attempt_row command now = sql_update (open_attempt command)
     (\<lambda>a. a\<lparr> at_status := ''settled'', at_updated_at := now \<rparr>)"

definition touch_attempt_row :: "settlement_command \<Rightarrow> instant \<Rightarrow> attempt_row list \<Rightarrow> attempt_row list" where
  "touch_attempt_row command now = sql_update (open_attempt command) (\<lambda>a. a\<lparr> at_updated_at := now \<rparr>)"

definition advanced :: "settlement_command \<Rightarrow> bool \<Rightarrow> instant \<Rightarrow> store \<Rightarrow> store" where
  "advanced command paid now s =
     (let event_id = st_now_v7 s (st_generated s)
      in if paid then
           s\<lparr> st_attempts := settle_attempt_row command now (st_attempts s),
              st_intents := pay_intent command now ''paid'' (st_intents s),
              st_fulfillments := st_fulfillments s @ [fulfillment_entry command now],
              st_events := st_events s @ [settled_event command now],
              st_generated := st_generated s + 1,
              st_outbox := st_outbox s @ [paid_notice command event_id now] \<rparr>
         else
           s\<lparr> st_attempts := touch_attempt_row command now (st_attempts s),
              st_intents := pay_intent command now ''partially_paid'' (st_intents s),
              st_events := st_events s @ [partial_event command now],
              st_generated := st_generated s + 1,
              st_outbox := st_outbox s @ [partial_notice command event_id now] \<rparr>)"

lemma advance_to_partially_paid_effect:
  assumes "advance_to_partially_paid command now s = Inr (u, s')"
  shows "rows_affected (open_attempt command) (st_attempts s) = 1"
    "rows_affected (payable_intent command) (st_intents s) = 1"
    "s' = advanced command False now s"
  using assms
  unfolding advance_to_partially_paid_def advanced_def pay_intent_def touch_attempt_row_def entry_defs
  by (auto simp: tx_simps dest!: statement_effects)

lemma advance_to_paid_rows:
  "advance_to_paid command now s = Inr (u, s') \<Longrightarrow> rows_affected (payable_intent command) (st_intents s) = 1"
  unfolding advance_to_paid_def by (auto simp: tx_simps dest!: require_one_row_effect)

lemma advance_to_paid_effect:
  assumes "paid_ok (st_intents s) ats (st_fulfillments s) obs"
    and "advance_to_paid command now s = Inr (u, s')"
  shows "rows_affected (open_attempt command) (st_attempts s) = 1"
    "rows_affected (payable_intent command) (st_intents s) = 1"
    "s' = advanced command True now s"
proof -
  have c: "\<not> list_ex (\<lambda>f. fu_payment_intent_id f = sc_payment_intent_id command) (st_fulfillments s)"
    using payable_not_fulfilled [OF assms(1) advance_to_paid_rows [OF assms(2)]]
    by (auto simp: fulfilled_def list_ex_iff)
  show "rows_affected (open_attempt command) (st_attempts s) = 1"
    "rows_affected (payable_intent command) (st_intents s) = 1"
    "s' = advanced command True now s"
    using assms(2) c
    unfolding advance_to_paid_def advanced_def pay_intent_def settle_attempt_row_def entry_defs
    by (auto simp: tx_simps dest!: statement_effects)
qed

section \<open>Allocating an undecided transfer\<close>

definition open_transfer :: "uuid \<Rightarrow> store \<Rightarrow> bool" where
  "open_transfer t s \<longleftrightarrow> (\<exists>p\<in>set (st_processing s). pr_transfer_id p = t \<and> open_state (pr_state p))"

lemma money_invD:
  assumes "money_inv s"
  shows "keys_ok s" "ledger_ok (st_transfers s) (st_processing s) (st_allocations s)"
    "open_ok (st_processing s)"
    "bound_ok (st_transfers s) (st_processing s) (st_claims s) (st_attempts s) (st_allocations s)"
    "claims_ok (st_claims s) (st_allocations s)"
    "paid_ok (st_intents s) (st_attempts s) (st_fulfillments s) (st_outbox s)"
  using assms by (simp_all add: money_inv_def)

lemma open_transfer_untouched:
  assumes "money_inv s" "open_transfer t s"
  shows "a \<in> set (st_allocations s) \<Longrightarrow> al_transfer_id a \<noteq> t"
    "c \<in> set (st_claims s) \<Longrightarrow> cm_transfer_id c \<noteq> t" "claim_owner t s = None"
proof -
  from assms(2) obtain p where p: "p \<in> set (st_processing s)" "pr_transfer_id p = t" "open_state (pr_state p)"
    by (auto simp: open_transfer_def)
  note inv = money_invD [OF assms(1)]
  have al: "al_transfer_id a \<noteq> t" if "a \<in> set (st_allocations s)" for a
    using open_no_allocation [OF inv(2,3,4) p(1,3) that] p(2) by simp
  then show "a \<in> set (st_allocations s) \<Longrightarrow> al_transfer_id a \<noteq> t" .
  have cm: "cm_transfer_id c \<noteq> t" if "c \<in> set (st_claims s)" for c
    using inv(5) al that by (auto simp: claims_ok_def)
  then show "c \<in> set (st_claims s) \<Longrightarrow> cm_transfer_id c \<noteq> t" .
  show "claim_owner t s = None" using cm by (auto simp: claim_owner_def find_None_iff)
qed

definition same_collector :: "settlement_command \<Rightarrow> attempt_row \<Rightarrow> store \<Rightarrow> bool" where
  "same_collector command attempt s \<longleftrightarrow> at_id attempt = sc_attempt_id command \<and> attempt \<in> set (st_attempts s) \<and>
     (\<exists>t\<in>set (st_transfers s). tr_id t = sc_transfer_id command \<and>
        tr_collector_address_id t = at_collector_address_id attempt)"

lemma claim_transfer_open:
  assumes "money_inv s" "open_transfer (sc_transfer_id command) s"
    and "claim_transfer command now s = Inr (owned, s')"
  obtains attempt where "find (\<lambda>a. at_id a = sc_attempt_id command) (st_attempts s) = Some attempt"
    "same_collector command attempt s" "owned"
    "s' = s\<lparr> st_claims := st_claims s @ [claim_entry command attempt now] \<rparr>"
proof (cases "find (\<lambda>a. at_id a = sc_attempt_id command) (st_attempts s)")
  case None
  then have "insert_claim command now s = Inr ((), s)" by (simp add: insert_claim_def)
  with assms(3) open_transfer_untouched(3) [OF assms(1,2)] have False
    by (simp add: claim_transfer_def tx_simps)
  then show ?thesis ..
next
  case (Some attempt)
  let ?s = "s\<lparr> st_claims := st_claims s @ [claim_entry command attempt now] \<rparr>"
  note fresh = open_transfer_untouched [OF assms(1,2)]
  have ins: "insert_claim command now s = Inr ((), s1) \<longleftrightarrow> s1 = ?s \<and>
      list_ex (\<lambda>t. tr_id t = sc_transfer_id command \<and>
        tr_collector_address_id t = at_collector_address_id attempt) (st_transfers s) \<and>
      intent_exists (sc_payment_intent_id command) s \<and> merchant_exists (sc_merchant_id command) s" for s1
    using Some fresh(3) by (auto simp: insert_claim_def)
  have owner: "claim_owner (sc_transfer_id command) ?s = Some (sc_payment_intent_id command)"
    using fresh(3) by (simp add: claim_owner_def claim_entry_def find_append)
  from assms(3) have r: "s' = ?s \<and> owned \<and> list_ex (\<lambda>t. tr_id t = sc_transfer_id command \<and>
        tr_collector_address_id t = at_collector_address_id attempt) (st_transfers s)"
    by (auto simp: claim_transfer_def tx_simps ins owner)
  moreover have "same_collector command attempt s"
    using r find_SomeD [OF Some] by (auto simp: same_collector_def list_ex_iff)
  ultimately show ?thesis using that Some by blast
qed

definition grown_processing :: "uuid \<Rightarrow> nat \<Rightarrow> string \<Rightarrow> instant \<Rightarrow> store \<Rightarrow> processing_row list" where
  "grown_processing t n state now s =
     sql_update (\<lambda>p. pr_transfer_id p = t \<and>
       list_ex (\<lambda>r. tr_id r = pr_transfer_id p \<and> pr_allocated_raw p + n \<le> tr_amount_raw r) (st_transfers s))
       (\<lambda>p. p\<lparr> pr_allocated_raw := pr_allocated_raw p + n, pr_state := state,
               pr_version := pr_version p + 1, pr_updated_at := now \<rparr>) (st_processing s)"

definition room_for :: "uuid \<Rightarrow> nat \<Rightarrow> store \<Rightarrow> bool" where
  "room_for t n s \<longleftrightarrow> list_ex (\<lambda>p. pr_transfer_id p = t \<and>
     list_ex (\<lambda>r. tr_id r = pr_transfer_id p \<and> pr_allocated_raw p + n \<le> tr_amount_raw r) (st_transfers s))
     (st_processing s)"

lemma increase_allocated_effect:
  "increase_allocated t n state now s = Inr (b, s') \<longleftrightarrow>
     b = room_for t n s \<and> s' = s\<lparr> st_processing := grown_processing t n state now s \<rparr>"
  by (auto simp: increase_allocated_def Let_def room_for_def grown_processing_def)

lemma insert_allocation_fresh:
  assumes "find (\<lambda>a. at_id a = sc_attempt_id command) (st_attempts s) = Some attempt"
    and "\<And>a. a \<in> set (st_allocations s) \<Longrightarrow> al_transfer_id a \<noteq> sc_transfer_id command"
    and "insert_allocation command x reason now s = Inr (n, s')"
  shows "n = 1 \<and> x \<noteq> 0 \<and> s' = s\<lparr> st_allocations := st_allocations s @
      [allocation_entry command attempt x reason now] \<rparr>"
proof -
  have "\<not> list_ex (\<lambda>a. al_attempt_id a = sc_attempt_id command \<and> al_transfer_id a = sc_transfer_id command)
      (st_allocations s)" using assms(2) by (auto simp: list_ex_iff)
  with assms(1,3) show ?thesis by (auto simp: insert_allocation_def unat_eq_0 split: if_splits)
qed

text \<open>
  The store after a successful allocation of an undecided transfer. A payment that
  completes the obligation is told from a partial one by the outcome.
\<close>

definition allocation_reason :: "string \<Rightarrow> string" where
  "allocation_reason outcome =
     (if outcome = ''settled'' then ''exact'' else if outcome = ''overpaid'' then ''overpay_remainder''
      else ''partial'')"

definition money_moved ::
  "settlement_command \<Rightarrow> attempt_row \<Rightarrow> raw_amount \<Rightarrow> string \<Rightarrow> instant \<Rightarrow> store \<Rightarrow> store" where
  "money_moved command attempt x outcome now s =
     s\<lparr> st_claims := st_claims s @ [claim_entry command attempt now],
        st_processing := grown_processing (sc_transfer_id command) (unat x)
          (if outcome = ''settled'' then ''settled'' else ''matched'') now s,
        st_allocations := st_allocations s @
          [allocation_entry command attempt x (allocation_reason outcome) now] \<rparr>"

definition completes :: "string \<Rightarrow> bool" where
  "completes outcome \<longleftrightarrow> outcome = ''settled'' \<or> outcome = ''overpaid''"

definition allocated_store ::
  "settlement_command \<Rightarrow> attempt_row \<Rightarrow> raw_amount \<Rightarrow> raw_amount \<Rightarrow> string \<Rightarrow> instant \<Rightarrow> store \<Rightarrow> store" where
  "allocated_store command attempt x r outcome now s =
     (let s1 = advanced command (completes outcome) now (money_moved command attempt x outcome now s);
          s2 = s1\<lparr> st_decisions := upsert_decision command (new_decision command outcome
                 (match_strategy_as_str (sc_match_strategy command)) x r now) (st_decisions s1) \<rparr>
      in if r = 0 then s2
         else s2\<lparr> st_events := st_events s2 @ [overpaid_event command r now],
                  st_generated := st_generated s2 + 1,
                  st_outbox := st_outbox s2 @ [overpaid_notice command r (st_now_v7 s2 (st_generated s2)) now] \<rparr>)"

definition allocated_record :: "string \<Rightarrow> settlement_record" where
  "allocated_record outcome =
     (if outcome = ''settled'' then SR_Settled else if outcome = ''overpaid'' then SR_Overpaid
      else SR_PartiallyAllocated)"

lemma allocate_and_finish_open:
  assumes inv: "money_inv s" and op: "open_transfer (sc_transfer_id command) s"
    and run: "allocate_and_finish command x r outcome now s = Inr (rec, s')"
  obtains attempt where "find (\<lambda>a. at_id a = sc_attempt_id command) (st_attempts s) = Some attempt"
    "same_collector command attempt s" "x \<noteq> 0" "room_for (sc_transfer_id command) (unat x) s"
    "rows_affected (open_attempt command) (st_attempts s) = 1"
    "rows_affected (payable_intent command) (st_intents s) = 1"
    "s' = allocated_store command attempt x r outcome now s" "rec = allocated_record outcome"
proof -
  let ?state = "if outcome = ''settled'' then ''settled'' else ''matched''"
  let ?strategy = "match_strategy_as_str (sc_match_strategy command)"
  from run obtain owned s1 where cl: "claim_transfer command now s = Inr (owned, s1)"
    by (auto simp: allocate_and_finish_def tx_simps)
  obtain attempt where at: "find (\<lambda>a. at_id a = sc_attempt_id command) (st_attempts s) = Some attempt"
    "same_collector command attempt s" "owned"
    "s1 = s\<lparr> st_claims := st_claims s @ [claim_entry command attempt now] \<rparr>"
    by (rule claim_transfer_open [OF inv op cl])
  define s2 where "s2 = s1\<lparr> st_processing := grown_processing (sc_transfer_id command) (unat x) ?state now s1 \<rparr>"
  obtain n s3 where room: "room_for (sc_transfer_id command) (unat x) s1"
    and ia: "insert_allocation command x (allocation_reason outcome) now s2 = Inr (n, s3)"
    and fin: "(if n = 0 then tx_return SR_AlreadyProcessed
      else tx_bind (if completes outcome then tx_then (advance_to_paid command now)
              (tx_return (if outcome = ''overpaid'' then SR_Overpaid else SR_Settled))
           else tx_then (advance_to_partially_paid command now) (tx_return SR_PartiallyAllocated)) (\<lambda>record.
      tx_then (record_decision command outcome ?strategy x r now)
      (tx_then (if \<not> raw_is_zero r then record_remainder command r now else tx_return ())
      (tx_return record)))) s3 = Inr (rec, s')"
    using run cl at(3)
    by (auto simp: allocate_and_finish_def tx_simps increase_allocated_effect s2_def allocation_reason_def
        completes_def split: if_splits)
  have room': "room_for (sc_transfer_id command) (unat x) s" using room by (simp add: at(4) room_for_def)
  have ia': "n = 1 \<and> x \<noteq> 0 \<and> s3 = s2\<lparr> st_allocations := st_allocations s2 @
      [allocation_entry command attempt x (allocation_reason outcome) now] \<rparr>"
    by (rule insert_allocation_fresh [OF _ _ ia]) (use at(1,4) open_transfer_untouched(1) [OF inv op] s2_def in auto)
  then have s3: "s3 = money_moved command attempt x outcome now s"
    by (simp add: money_moved_def s2_def at(4) grown_processing_def)
  obtain s4 s5 where
    adv: "(if completes outcome then advance_to_paid command now s3
           else advance_to_partially_paid command now s3) = Inr ((), s4)"
    and rec: "rec = allocated_record outcome"
    and dec: "record_decision command outcome ?strategy x r now s4 = Inr ((), s5)"
    and rem: "(if r \<noteq> 0 then record_remainder command r now else tx_return ()) s5 = Inr ((), s')"
    using fin ia' by (auto simp: tx_simps raw_is_zero_def completes_def allocated_record_def split: if_splits)
  have same: "st_attempts s3 = st_attempts s" "st_intents s3 = st_intents s" "st_fulfillments s3 = st_fulfillments s"
    by (simp_all add: s3 money_moved_def)
  have p: "paid_ok (st_intents s3) (st_attempts s) (st_fulfillments s3) (st_outbox s)"
    using money_invD(6) [OF inv] by (simp add: same)
  have s4: "rows_affected (open_attempt command) (st_attempts s) = 1"
    "rows_affected (payable_intent command) (st_intents s) = 1" "s4 = advanced command (completes outcome) now s3"
    using adv advance_to_paid_effect [OF p, of command now] advance_to_partially_paid_effect [of command now s3]
    by (cases "completes outcome"; simp add: same)+
  have "s' = allocated_store command attempt x r outcome now s"
    using rem record_remainder_effect [of command r now s5] record_decision_effect [OF dec]
    unfolding allocated_store_def Let_def s3 [symmetric] s4(3) [symmetric]
    by (cases "r = 0") (simp_all add: tx_simps)
  with at(1,2) ia' room' s4(1,2) rec show ?thesis using that by blast
qed

section \<open>Every settlement transaction keeps the invariant\<close>

lemma entry_simps [simp]:
  "cm_transfer_id (claim_entry command attempt now) = sc_transfer_id command"
  "cm_payment_intent_id (claim_entry command attempt now) = sc_payment_intent_id command"
  "al_attempt_id (allocation_entry command attempt x reason now) = sc_attempt_id command"
  "al_transfer_id (allocation_entry command attempt x reason now) = sc_transfer_id command"
  "al_payment_intent_id (allocation_entry command attempt x reason now) = sc_payment_intent_id command"
  "al_allocated_raw (allocation_entry command attempt x reason now) = unat x"
  "al_collector_address_id (allocation_entry command attempt x reason now) = at_collector_address_id attempt"
  "fu_payment_intent_id (fulfillment_entry command now) = sc_payment_intent_id command"
  by (simp_all add: claim_entry_def allocation_entry_def fulfillment_entry_def)

lemma row_keys [simp]:
  "map pr_transfer_id (grown_processing t n state now s) = map pr_transfer_id (st_processing s)"
  "map at_id (settle_attempt_row command now ats) = map at_id ats"
  "map at_id (touch_attempt_row command now ats) = map at_id ats"
  "map in_id (pay_intent command now status ins) = map in_id ins"
  by (simp_all add: grown_processing_def settle_attempt_row_def touch_attempt_row_def pay_intent_def map_sql_update)

lemma open_ok_update:
  assumes "open_ok prs"
    and "\<And>p. p \<in> set prs \<Longrightarrow> P p \<Longrightarrow> open_state (pr_state (f p)) \<Longrightarrow> pr_allocated_raw (f p) = 0"
  shows "open_ok (sql_update P f prs)"
  unfolding open_ok_def
proof
  fix q assume "q \<in> set (sql_update P f prs)"
  then obtain p where "p \<in> set prs" "q = (if P p then f p else p)" by (auto simp: in_sql_update)
  with assms show "open_state (pr_state q) \<longrightarrow> pr_allocated_raw q = 0" by (cases "P p") (simp_all add: open_ok_def)
qed

lemma open_ok_grown:
  assumes "open_ok (st_processing s)" "\<not> open_state state"
  shows "open_ok (grown_processing t n state now s)"
  unfolding grown_processing_def by (rule open_ok_update [OF assms(1)]) (use assms(2) in simp)

lemma bound_ok_moved:
  assumes inv: "money_inv s" and op: "open_transfer (sc_transfer_id command) s"
    and at: "same_collector command attempt s" and x: "x \<noteq> 0"
    and one: "rows_affected (open_attempt command) (st_attempts s) = 1"
  shows "bound_ok (st_transfers s) (grown_processing (sc_transfer_id command) n state now s)
      (st_claims s @ [claim_entry command attempt now]) (st_attempts s)
      (st_allocations s @ [allocation_entry command attempt x reason now])"
proof -
  have keys: "distinct (map at_id (st_attempts s))" using money_invD(1) [OF inv] by (simp add: keys_ok_def)
  obtain b where b: "b \<in> set (st_attempts s)" "open_attempt command b" using rows_affected_pos [OF one] by blast
  have "b = attempt"
    by (rule distinct_key_eq [OF keys b(1)]) (use at b(2) in \<open>auto simp: same_collector_def open_attempt_def\<close>)
  with b have ap: "at_payment_intent_id attempt = sc_payment_intent_id command" by (simp add: open_attempt_def)
  have "sc_transfer_id command \<in> set (map pr_transfer_id (grown_processing (sc_transfer_id command) n state now s))"
    unfolding row_keys using op by (force simp: open_transfer_def)
  then have pids: "\<exists>p\<in>set (grown_processing (sc_transfer_id command) n state now s).
      pr_transfer_id p = sc_transfer_id command" by (auto simp del: row_keys)
  have "bound_ok (st_transfers s) (grown_processing (sc_transfer_id command) n state now s)
      (st_claims s @ [claim_entry command attempt now]) (st_attempts s) (st_allocations s)"
    by (rule bound_ok_mono [OF money_invD(4) [OF inv]]) (auto simp del: set_map)
  moreover have "bound_ok (st_transfers s) (grown_processing (sc_transfer_id command) n state now s)
      (st_claims s @ [claim_entry command attempt now]) (st_attempts s)
      [allocation_entry command attempt x reason now]"
    unfolding bound_ok_def
    using at x pids ap by (auto simp: same_collector_def unat_gt_0)
  ultimately show ?thesis by (simp add: bound_ok_append)
qed

lemma bound_ok_attempts:
  assumes "bound_ok trs prs cls ats als"
  shows "bound_ok trs prs cls (settle_attempt_row command now ats) als"
    "bound_ok trs prs cls (touch_attempt_row command now ats) als"
  unfolding settle_attempt_row_def touch_attempt_row_def
  by (rule bound_ok_mono [OF assms]; (rule attempts_kept)?; simp)+

lemma paid_ok_partial:
  assumes "paid_ok ins ats fus obs"
  shows "paid_ok (pay_intent command now ''partially_paid'' ins) (touch_attempt_row command now ats) fus obs"
  unfolding pay_intent_def touch_attempt_row_def
  by (intro paid_ok_intents paid_ok_attempts assms)
    (use PAYABLE_not_paid in \<open>auto simp: payable_intent_def\<close>)

lemma money_inv_advanced:
  assumes inv: "money_inv s" and op: "open_transfer (sc_transfer_id command) s"
    and at: "same_collector command attempt s" and x: "x \<noteq> 0"
    and room: "room_for (sc_transfer_id command) (unat x) s"
    and one: "rows_affected (open_attempt command) (st_attempts s) = 1"
      "rows_affected (payable_intent command) (st_intents s) = 1"
  shows "money_inv (advanced command paid now (money_moved command attempt x outcome now s))"
proof -
  let ?m = "money_moved command attempt x outcome now s"
  let ?state = "if outcome = ''settled'' then ''settled'' else ''matched''"
  let ?g = "grown_processing (sc_transfer_id command) (unat x) ?state now s"
  let ?al = "allocation_entry command attempt x (allocation_reason outcome) now"
  note invs = money_invD [OF inv]
  note fresh = open_transfer_untouched [OF inv op]
  have "sc_transfer_id command \<notin> set (map cm_transfer_id (st_claims s))"
    "sc_transfer_id command \<notin> set (map al_transfer_id (st_allocations s))"
    by (auto dest: fresh(1,2))
  with invs(1) have keys: "keys_ok (advanced command paid now ?m)"
    by (simp add: keys_ok_def advanced_def money_moved_def Let_def)
  have ledger: "ledger_ok (st_transfers s) ?g (st_allocations s @ [?al])"
    unfolding grown_processing_def
    by (rule ledger_ok_allocate [OF invs(2) _ _ refl]) (use invs(1) room in \<open>simp_all add: keys_ok_def room_for_def\<close>)
  have opn: "open_ok ?g" by (rule open_ok_grown [OF invs(3)]) (simp add: open_state_def)
  have bound: "bound_ok (st_transfers s) ?g (st_claims s @ [claim_entry command attempt now]) (st_attempts s)
      (st_allocations s @ [?al])"
    by (rule bound_ok_moved [OF inv op at x one(1)])
  have claims: "claims_ok (st_claims s @ [claim_entry command attempt now]) (st_allocations s @ [?al])"
    using invs(5) by (auto simp: claims_ok_def)
  have paid: "paid_ok (pay_intent command now ''paid'' (st_intents s)) (settle_attempt_row command now (st_attempts s))
      (st_fulfillments s @ [fulfillment_entry command now]) (st_outbox s @ [paid_notice command i now])" for i
    unfolding pay_intent_def settle_attempt_row_def
    by (rule paid_ok_pay [OF invs(6) _ one(2)]) (use invs(1) in \<open>simp_all add: keys_ok_def\<close>)
  show ?thesis
    using keys ledger opn bound claims paid paid_ok_partial [OF invs(6)] bound_ok_attempts [OF bound]
    unfolding money_inv_def by (cases paid) (simp_all add: advanced_def money_moved_def Let_def)
qed

lemma money_inv_outbox:
  "st_outbox s = obs \<Longrightarrow> ob_event_type ob \<noteq> ''payment_intent.paid'' \<Longrightarrow>
     money_inv (s\<lparr> st_outbox := obs @ [ob] \<rparr>) = money_inv s"
  by (auto simp: money_inv_def keys_ok_def)

lemma allocate_and_finish_keeps:
  assumes "money_inv s" "open_transfer (sc_transfer_id command) s"
    and "allocate_and_finish command x r outcome now s = Inr (rec, s')"
  shows "money_inv s'"
proof -
  obtain attempt where a: "same_collector command attempt s" "x \<noteq> 0" "room_for (sc_transfer_id command) (unat x) s"
    "rows_affected (open_attempt command) (st_attempts s) = 1"
    "rows_affected (payable_intent command) (st_intents s) = 1"
    "s' = allocated_store command attempt x r outcome now s"
    by (rule allocate_and_finish_open [OF assms])
  have "money_inv (advanced command (completes outcome) now (money_moved command attempt x outcome now s))"
    by (rule money_inv_advanced [OF assms(1,2) a(1-5)])
  then show ?thesis
    unfolding a(6) allocated_store_def Let_def by (simp add: money_inv_def keys_ok_def)
qed

text \<open>Changing the state of transfers is harmless if no transfer with money becomes undecided.\<close>

lemma money_inv_processing:
  assumes inv: "money_inv s"
    and f: "\<And>p. pr_transfer_id (f p) = pr_transfer_id p" "\<And>p. pr_allocated_raw (f p) = pr_allocated_raw p"
    and op: "\<And>p. p \<in> set (st_processing s) \<Longrightarrow> P p \<Longrightarrow> open_state (pr_state (f p)) \<Longrightarrow> pr_allocated_raw p = 0"
  shows "money_inv (s\<lparr> st_processing := sql_update P f (st_processing s) \<rparr>)"
    (is "money_inv (s\<lparr> st_processing := ?prs \<rparr>)")
proof -
  note invs = money_invD [OF inv]
  have k: "map pr_transfer_id ?prs = map pr_transfer_id (st_processing s)" by (rule map_sql_update) (rule f)
  have "open_ok ?prs" by (rule open_ok_update [OF invs(3)]) (use op in \<open>simp add: f\<close>)
  moreover have "ledger_ok (st_transfers s) ?prs (st_allocations s)"
    by (rule ledger_ok_state [OF invs(2)]) (simp add: f)
  moreover have "bound_ok (st_transfers s) ?prs (st_claims s) (st_attempts s) (st_allocations s)"
    by (rule bound_ok_mono [OF invs(4)]) (unfold k, auto)
  moreover have "keys_ok (s\<lparr> st_processing := ?prs \<rparr>)" using invs(1) k by (simp add: keys_ok_def)
  ultimately show ?thesis using invs(5,6) by (simp add: money_inv_def)
qed

lemma open_transfer_zero:
  assumes "money_inv s" "open_transfer t s" "q \<in> set (st_processing s)" "pr_transfer_id q = t"
  shows "pr_allocated_raw q = 0" "open_state (pr_state q)"
proof -
  note invs = money_invD [OF assms(1)]
  obtain p where p: "p \<in> set (st_processing s)" "pr_transfer_id p = t" "open_state (pr_state p)"
    using assms(2) by (auto simp: open_transfer_def)
  have "distinct (map pr_transfer_id (st_processing s))" using invs(1) by (simp add: keys_ok_def)
  from distinct_key_eq [OF this assms(3) p(1)] assms(4) p(2) have "q = p" by simp
  with p invs(3) show "pr_allocated_raw q = 0" "open_state (pr_state q)" by (simp_all add: open_ok_def)
qed

lemma set_processing_keeps:
  assumes "money_inv s" "open_transfer t s" "set_processing t state reason now s = Inr (u, s')"
  shows "money_inv s'"
  unfolding set_processing_effect [OF assms(3)]
  by (rule money_inv_processing [OF assms(1)]) (use open_transfer_zero(1) [OF assms(1,2)] in simp_all)

lemma finish_without_money_effect:
  assumes "finish_without_money command state outcome reason now s = Inr (u, s')"
  obtains s1 where "set_processing (sc_transfer_id command) state reason now s = Inr ((), s1)"
    "s' = s1\<lparr> st_decisions := st_decisions s', st_events := st_events s' \<rparr>"
  using assms by (auto simp: finish_without_money_def tx_simps dest!: record_decision_effect insert_payment_event_effect)

lemma finish_without_money_keeps:
  assumes "money_inv s" "open_transfer (sc_transfer_id command) s"
    and "finish_without_money command state outcome reason now s = Inr (u, s')"
  shows "money_inv s'"
proof -
  obtain s1 where s1: "set_processing (sc_transfer_id command) state reason now s = Inr ((), s1)"
    "s' = s1\<lparr> st_decisions := st_decisions s', st_events := st_events s' \<rparr>"
    by (rule finish_without_money_effect [OF assms(3)])
  have "money_inv s1" by (rule set_processing_keeps [OF assms(1,2) s1(1)])
  then have "money_inv (s1\<lparr> st_decisions := st_decisions s', st_events := st_events s' \<rparr>)" by simp
  then show ?thesis by (simp flip: s1(2))
qed

lemma apply_outcome_keeps:
  assumes "money_inv s" "open_transfer (sc_transfer_id command) s"
    and "apply_outcome command now s = Inr (rec, s')"
  shows "money_inv s'"
  using assms(3) unfolding apply_outcome_def
  by (auto split: settlement_outcome.splits simp: tx_simps
      intro: finish_without_money_keeps [OF assms(1,2)] allocate_and_finish_keeps [OF assms(1,2)])

lemma pending_open: "processing_state_of t s = Some ''pending'' \<Longrightarrow> open_transfer t s"
  by (auto simp: processing_state_of_def open_transfer_def open_state_def dest: find_SomeD)

lemma hold_lease_effect: "hold_lease lease s = Inr (u, s') \<Longrightarrow> s' = s"
  by (simp add: hold_lease_def tx_simps)

lemma settle_attempt_cases:
  assumes "settle_attempt lease command s = Inr (rec, s')"
  obtains "processing_state_of (sc_transfer_id command) s = Some ''pending''"
    "apply_outcome command (st_now s) s = Inr (rec, s')"
  | state where "processing_state_of (sc_transfer_id command) s = Some state" "state \<noteq> ''pending''"
    "rec = SR_AlreadyProcessed" "s' = s"
  using assms
  by (auto simp: settle_attempt_def tx_simps result_simps split: if_splits dest!: hold_lease_effect)

lemma settle_attempt_keeps: "tx_keeps money_inv (settle_attempt lease command)"
  by (rule tx_keepsI) (auto elim!: settle_attempt_cases dest: pending_open apply_outcome_keeps)

lemma park_refused_cases:
  assumes "park_refused lease command refusal s = Inr (rec, s')"
  obtains "processing_state_of (sc_transfer_id command) s = Some ''pending''" "rec = SR_ManualRequired"
    "finish_without_money command ''held'' ''manual_required'' (''payment_not_payable: '' @ refusal) (st_now s) s
       = Inr ((), s')"
  | state where "processing_state_of (sc_transfer_id command) s = Some state" "state \<noteq> ''pending''"
    "rec = SR_AlreadyProcessed" "s' = s"
  using assms by (auto simp: park_refused_def tx_simps result_simps split: if_splits dest!: hold_lease_effect)

lemma park_refused_keeps: "tx_keeps money_inv (park_refused lease command refusal)"
  by (rule tx_keepsI) (auto elim!: park_refused_cases dest: pending_open finish_without_money_keeps)

lemma pg_settle_keeps:
  assumes "money_inv s" "pg_settle lease command s = (r, s')"
  shows "money_inv s'"
  using assms(2) tx_keepsD [OF settle_attempt_keeps assms(1)] tx_keeps_run [OF park_refused_keeps assms(1)] assms(1)
  unfolding pg_settle_def by (auto split: sum.splits repository_error.splits)

lemma unmatched_keeps:
  assumes "money_inv s"
  shows "money_inv (s\<lparr> st_processing := sql_update (\<lambda>p. pr_transfer_id p = t \<and> pr_state p = ''pending'')
    (\<lambda>p. p\<lparr> pr_state := ''unmatched'', pr_last_error := e, pr_version := pr_version p + 1, pr_updated_at := now \<rparr>)
    (st_processing s) \<rparr>)"
  by (rule money_inv_processing [OF assms])
    (use money_invD(3) [OF assms] in \<open>simp_all add: open_ok_def open_state_def\<close>)

lemma record_unresolved_keeps: "tx_keeps money_inv (record_unresolved_tx lease transfer unresolved)"
proof (rule tx_keepsI)
  fix s u s' assume inv: "money_inv s" and run: "record_unresolved_tx lease transfer unresolved s = Inr (u, s')"
  show "money_inv s'"
    using run unmatched_keeps [OF inv] unfolding record_unresolved_tx_def
    by (auto simp: tx_simps Let_def money_inv_outbox split: unresolved_transfer.splits
        dest!: hold_lease_effect insert_payment_event_effect enqueue_outbox_effect)
qed

end
