(* ===== verification/Lease_Store.thy ===== *)
theory Lease_Store
  imports Settlement_Store
begin

text \<open>
  Component leases: \<open>acquire_component_lease\<close> of \<open>crates/gateway-storage/src/observations.rs\<close>
  and the check \<open>hold_lease\<close> that every write transaction starts with.

  A component has one row, so at most one holder and token pass the check. A renewal keeps
  the token and a takeover increases it, so a lease that was taken over never passes the
  check again, whatever happens later.
\<close>

section \<open>Acquiring\<close>

definition acquire_component_lease ::
  "(instant \<Rightarrow> int \<Rightarrow> instant option) \<Rightarrow> string \<Rightarrow> string \<Rightarrow> int \<Rightarrow> instant
     \<Rightarrow> component_lease option repo_tx" where
  "acquire_component_lease add_secs component holder ttl_seconds now s =
     (if ttl_seconds \<le> 0 then Inl (CorruptData ''a component lease needs a positive duration'')
      else bind_result (ok_or (CorruptData ''component lease duration overflowed'')
        (add_secs now ttl_seconds)) (\<lambda>lease_until.
        case find (\<lambda>r. lo_component r = component) (st_component_leases s) of
          None \<Rightarrow>
            if \<not> (1 \<le> char_count component \<and> char_count component \<le> 120 \<and>
                  1 \<le> char_count holder \<and> char_count holder \<le> 200)
            then Inl (StorageUnavailable ''component_leases_check'')
            else Inr (Some \<lparr> cl_component = component, cl_holder = holder, cl_fence_token = 1,
                            cl_lease_until = lease_until \<rparr>,
                 s\<lparr> st_component_leases := st_component_leases s @
                   [\<lparr> lo_component = component, lo_holder = holder, lo_fence_token = 1,
                      lo_lease_until = lease_until \<rparr>] \<rparr>)
        | Some row \<Rightarrow>
            if \<not> (1 \<le> char_count holder \<and> char_count holder \<le> 200)
            then Inl (StorageUnavailable ''component_leases_check'')
            else if lo_holder row = holder \<or> lo_lease_until row < now then
              let token = (if lo_holder row = holder then lo_fence_token row else lo_fence_token row + 1)
              in Inr (Some \<lparr> cl_component = component, cl_holder = holder, cl_fence_token = token,
                            cl_lease_until = lease_until \<rparr>,
                   s\<lparr> st_component_leases := sql_update (\<lambda>r. lo_component r = component)
                     (\<lambda>r. r\<lparr> lo_holder := holder, lo_lease_until := lease_until, lo_fence_token := token \<rparr>)
                     (st_component_leases s) \<rparr>)
            else Inr (None, s)))"

section \<open>One holder\<close>

definition leases_unique :: "store \<Rightarrow> bool" where
  "leases_unique s \<longleftrightarrow> distinct (map lo_component (st_component_leases s))"

definition lease_held :: "component_lease \<Rightarrow> store \<Rightarrow> bool" where
  "lease_held lease s \<longleftrightarrow> (\<exists>r\<in>set (st_component_leases s). lo_component r = cl_component lease \<and>
     lo_holder r = cl_holder lease \<and> lo_fence_token r = cl_fence_token lease \<and> st_db_now s < lo_lease_until r)"

lemma hold_lease_iff: "hold_lease lease s = (if lease_held lease s then Inr ((), s) else Inl LeaseLost)"
  by (auto simp: hold_lease_def tx_require_def lease_held_def list_ex_iff)

lemma find_component:
  assumes "leases_unique s" "r \<in> set (st_component_leases s)"
  shows "find (\<lambda>x. lo_component x = lo_component r) (st_component_leases s) = Some r"
  using find_key [OF _ assms(2) refl] assms(1) by (simp add: leases_unique_def)

lemma lease_held_unique:
  assumes "leases_unique s" "lease_held l s" "lease_held l' s" "cl_component l = cl_component l'"
  shows "cl_holder l = cl_holder l' \<and> cl_fence_token l = cl_fence_token l'"
proof -
  obtain r r' where r: "r \<in> set (st_component_leases s)" "lo_component r = cl_component l" "lo_holder r = cl_holder l"
    "lo_fence_token r = cl_fence_token l" and r': "r' \<in> set (st_component_leases s)" "lo_component r' = cl_component l'"
    "lo_holder r' = cl_holder l'" "lo_fence_token r' = cl_fence_token l'"
    using assms(2,3) by (auto simp: lease_held_def)
  have "r = r'"
    by (rule distinct_key_eq [of lo_component]) (use assms(1,4) r r' in \<open>simp_all add: leases_unique_def\<close>)
  with r r' show ?thesis by auto
qed

text \<open>The lease is past: the component's token is higher.\<close>

definition lease_past :: "component_lease \<Rightarrow> store \<Rightarrow> bool" where
  "lease_past lease s \<longleftrightarrow> (\<exists>r\<in>set (st_component_leases s). lo_component r = cl_component lease \<and>
     cl_fence_token lease < lo_fence_token r)"

lemma lease_past_not_held:
  assumes "leases_unique s" "lease_past lease s"
  shows "\<not> lease_held lease s"
proof
  assume "lease_held lease s"
  then obtain r where r: "r \<in> set (st_component_leases s)" "lo_component r = cl_component lease"
    "lo_fence_token r = cl_fence_token lease" by (auto simp: lease_held_def)
  from assms(2) obtain r' where r': "r' \<in> set (st_component_leases s)" "lo_component r' = cl_component lease"
    "cl_fence_token lease < lo_fence_token r'" by (auto simp: lease_past_def)
  have "r = r'"
    by (rule distinct_key_eq [of lo_component]) (use assms(1) r r' in \<open>simp_all add: leases_unique_def\<close>)
  with r r' show False by simp
qed

lemma acquire_cases:
  assumes "acquire_component_lease add_secs component holder ttl now s = Inr (res, s')"
  obtains (fresh) until where "find (\<lambda>r. lo_component r = component) (st_component_leases s) = None"
      "s' = s\<lparr> st_component_leases := st_component_leases s @ [\<lparr> lo_component = component, lo_holder = holder,
         lo_fence_token = 1, lo_lease_until = until \<rparr>] \<rparr>"
  | (taken) row token until where "find (\<lambda>r. lo_component r = component) (st_component_leases s) = Some row"
      "token = (if lo_holder row = holder then lo_fence_token row else lo_fence_token row + 1)"
      "s' = s\<lparr> st_component_leases := sql_update (\<lambda>r. lo_component r = component)
         (\<lambda>r. r\<lparr> lo_holder := holder, lo_lease_until := until, lo_fence_token := token \<rparr>) (st_component_leases s) \<rparr>"
  | (refused) "res = None" "s' = s"
proof (cases "add_secs now ttl")
  case None
  with assms show ?thesis by (simp add: acquire_component_lease_def split: if_splits)
next
  case (Some until)
  note run = assms [unfolded acquire_component_lease_def Some ok_or_simps bind_result_simps]
  show ?thesis
  proof (cases "find (\<lambda>r. lo_component r = component) (st_component_leases s)")
    case None
    with run have "s' = s\<lparr> st_component_leases := st_component_leases s @ [\<lparr> lo_component = component,
        lo_holder = holder, lo_fence_token = 1, lo_lease_until = until \<rparr>] \<rparr>"
      by (simp split: if_splits)
    with None show ?thesis by (rule fresh)
  next
    case (Some row)
    show ?thesis
    proof (cases "lo_holder row = holder \<or> lo_lease_until row < now")
      case True
      from run Some True show ?thesis
        by (intro taken [OF Some refl, of until]) (simp_all add: Let_def split: if_splits)
    next
      case False
      from run Some False show ?thesis by (intro refused) (simp_all split: if_splits)
    qed
  qed
qed

lemma acquire_unique:
  assumes "acquire_component_lease add_secs component holder ttl now s = Inr (res, s')" "leases_unique s"
  shows "leases_unique s'"
  using assms(1)
proof (cases rule: acquire_cases)
  case (fresh until)
  then show ?thesis using assms(2) by (auto simp: leases_unique_def find_None_iff)
next
  case (taken row token until)
  then show ?thesis using assms(2) by (simp add: leases_unique_def map_sql_update)
qed (use assms(2) in simp)

lemma acquire_past:
  assumes "acquire_component_lease add_secs component holder ttl now s = Inr (res, s')"
    and "leases_unique s" "lease_past lease s"
  shows "lease_past lease s'"
proof -
  obtain r where r: "r \<in> set (st_component_leases s)" "lo_component r = cl_component lease"
    "cl_fence_token lease < lo_fence_token r" using assms(3) by (auto simp: lease_past_def)
  show ?thesis
    using assms(1)
  proof (cases rule: acquire_cases)
    case (fresh until)
    with r show ?thesis by (auto simp: lease_past_def)
  next
    case (taken row token until)
    let ?f = "\<lambda>r. r\<lparr> lo_holder := holder, lo_lease_until := until, lo_fence_token := token \<rparr>"
    let ?r = "if lo_component r = component then ?f r else r"
    have "?r \<in> set (st_component_leases s')" using r(1) taken(3) by (auto simp: in_sql_update)
    moreover have "lo_component r = component \<Longrightarrow> row = r"
      using find_component [OF assms(2) r(1)] taken(1) by simp
    ultimately show ?thesis using r taken(2) unfolding lease_past_def by (intro bexI [of _ ?r]) auto
  qed (use assms(3) in simp)
qed

text \<open>Later stores: leases are acquired, and anything else may happen in between.\<close>

inductive lease_path :: "(instant \<Rightarrow> int \<Rightarrow> instant option) \<Rightarrow> store \<Rightarrow> store \<Rightarrow> bool" for add_secs where
  stay: "lease_path add_secs s s"
| other: "lease_path add_secs s s' \<Longrightarrow> st_component_leases s'' = st_component_leases s' \<Longrightarrow> lease_path add_secs s s''"
| acquire: "lease_path add_secs s s' \<Longrightarrow>
    acquire_component_lease add_secs component holder ttl now s' = Inr (res, s'') \<Longrightarrow> lease_path add_secs s s''"

lemma lease_path_past:
  assumes "lease_path add_secs s s'" "leases_unique s" "lease_past lease s"
  shows "leases_unique s' \<and> lease_past lease s'"
  using assms
proof (induction rule: lease_path.induct)
  case (acquire s s' component holder ttl now res s'')
  then show ?case by (meson acquire_unique acquire_past)
qed (auto simp: leases_unique_def lease_past_def)

lemma takeover_past:
  assumes "leases_unique s" "lease_held lease s" "cl_holder lease \<noteq> holder"
    and "acquire_component_lease add_secs (cl_component lease) holder ttl now s = Inr (Some new, s')"
  shows "lease_past lease s'"
proof -
  obtain r where r: "r \<in> set (st_component_leases s)" "lo_component r = cl_component lease"
    "lo_holder r = cl_holder lease" "lo_fence_token r = cl_fence_token lease"
    using assms(2) by (auto simp: lease_held_def)
  have f: "find (\<lambda>x. lo_component x = cl_component lease) (st_component_leases s) = Some r"
    using find_component [OF assms(1) r(1)] r(2) by simp
  show ?thesis
    using assms(4)
  proof (cases rule: acquire_cases)
    case (taken row token until)
    with f have row: "row = r" by simp
    let ?r = "r\<lparr> lo_holder := holder, lo_lease_until := until, lo_fence_token := token \<rparr>"
    have "?r \<in> set (st_component_leases s')" using r(1,2) unfolding taken(3) by (auto simp: in_sql_update)
    moreover have "cl_fence_token lease < lo_fence_token ?r" using taken(2) r(3,4) assms(3) row by simp
    ultimately show ?thesis using r(2) unfolding lease_past_def by (intro bexI [of _ ?r]) simp_all
  qed (use f in auto)
qed

end
