(* ===== verification/Sample_Store.thy ===== *)
theory Sample_Store
  imports Store
begin

text \<open>
  A small concrete store on which the properties of the repositories are instantiated: one
  merchant with one order awaiting \<open>1000\<close> raw units on one collector, two operator keys,
  one settlement policy, and the given inbound transfers, final and not yet decided.
\<close>

definition sample_inbound :: "uuid \<Rightarrow> nat \<Rightarrow> transfer_row" where
  "sample_inbound i amount =
     \<lparr> tr_id = i, tr_asset_id = 4, tr_collector_address_id = 5, tr_chain = ''tron'', tr_network = ''nile'',
       tr_environment = ''testnet'', tr_block_time = 100, tr_amount_raw = amount, tr_memo = None \<rparr>"

definition sample_processing :: "uuid \<Rightarrow> processing_row" where
  "sample_processing i =
     \<lparr> pr_transfer_id = i, pr_allocated_raw = 0, pr_state = ''pending'', pr_last_error = None,
       pr_version = 0, pr_updated_at = 0 \<rparr>"

definition sample_attempt :: attempt_row where
  "sample_attempt =
     \<lparr> at_id = 3, at_merchant_id = 1, at_payment_intent_id = 2, at_quote_id = 6, at_collector_address_id = 5,
       at_expected_amount_raw = 1000, at_memo_reference = None, at_status = ''awaiting_payment'',
       at_quote_expires_at = 200, at_late_payment_until = 300, at_created_at = 0, at_updated_at = 0,
       at_checkout_token = ''t'' \<rparr>"

definition sample_intent :: intent_row where
  "sample_intent =
     \<lparr> in_id = 2, in_merchant_id = 1, in_amount_minor = 60, in_currency = ''USD'', in_status = ''awaiting_payment'',
       in_reference = ''order-1'', in_description = None, in_metadata = JObject [], in_version = 0,
       in_created_at = 0, in_updated_at = 0 \<rparr>"

definition sample_operator_key :: "uuid \<Rightarrow> string \<Rightarrow> operator_key_row" where
  "sample_operator_key i label =
     \<lparr> ok_id = i, ok_secret_hash = [], ok_label = label, ok_scopes = [''read'', ''admin''],
       ok_last_used_at = None, ok_revoked_at = None \<rparr>"

definition sample_store :: "transfer_row list \<Rightarrow> store" where
  "sample_store transfers =
     \<lparr> st_db_now = 1000, st_now = 1000, st_now_v7 = (\<lambda>n. 100 + of_nat n), st_generated = 0,
       st_merchants = [\<lparr> me_id = 1, me_status = ''active'', me_collector_policy = ''shared'' \<rparr>],
       st_intents = [sample_intent], st_idempotency = [], st_audit = [],
       st_assets = [\<lparr> ca_id = 4, ca_chain = ''tron'', ca_network = ''nile'', ca_environment = ''testnet'',
         ca_contract_address_key = [0x41], ca_display_symbol = ''USDT'', ca_decimals = 6, ca_status = ''active'' \<rparr>],
       st_collectors = [\<lparr> co_id = 5, co_asset_id = 4, co_address_text = ''T-collector'', co_state = ''active'',
         co_valid_from = 0, co_merchant_id = None \<rparr>],
       st_quotes = [\<lparr> qu_id = 6, qu_merchant_id = 1, qu_payment_intent_id = 2, qu_asset_id = 4,
         qu_collector_address_id = 5, qu_price_snapshot_id = 13, qu_quote_policy_id = 14, qu_rail_health_snapshot_id = 15,
         qu_fiat_currency = ''USD'', qu_fiat_amount_minor = 60, qu_base_amount_raw = 1000, qu_amount_raw = 1000,
         qu_rate_numerator = 50, qu_rate_denominator = 3, qu_price_sources = JArray [], qu_price_observed_at = 0,
         qu_policy_version = ''q1'', qu_rail_health_observed_at = 0, qu_created_at = 0, qu_expires_at = 200,
         qu_late_payment_until = 300 \<rparr>],
       st_attempts = [sample_attempt],
       st_amount_leases = [\<lparr> le_id = 8, le_collector_address_id = 5, le_amount_raw = 1000, le_attempt_id = 3,
         le_leased_from = 0, le_lease_until = 300 \<rparr>],
       st_lease_history = [],
       st_component_leases = [\<lparr> lo_component = ''settlement'', lo_holder = ''worker-1'', lo_fence_token = 7,
         lo_lease_until = 2000 \<rparr>],
       st_transfers = transfers,
       st_transfer_states = map (\<lambda>t. \<lparr> ts_transfer_id = tr_id t, ts_state = ''finalized'' \<rparr>) transfers,
       st_processing = map (\<lambda>t. sample_processing (tr_id t)) transfers,
       st_attestations = [\<lparr> ta_id = 11, ta_transfer_id = 7, ta_provider_group = ''a'', ta_source_kind = ''own_node'' \<rparr>,
         \<lparr> ta_id = 12, ta_transfer_id = 7, ta_provider_group = ''b'', ta_source_kind = ''public'' \<rparr>],
       st_policies = [\<lparr> po_id = 9, po_fiat_currency = ''USD'', po_version = ''v1'', po_status = ''active'' \<rparr>],
       st_policy_tiers = [\<lparr> tw_policy_id = 9, tw_max_fiat_minor = 10000, tw_min_independent_groups = 2,
         tw_require_own_node = True, tw_require_risk_allow = False, tw_auto_settle = True \<rparr>],
       st_risk = [], st_claims = [], st_allocations = [], st_decisions = [], st_fulfillments = [],
       st_events = [], st_outbox = [], st_operator_keys = [sample_operator_key 21 ''alice'', sample_operator_key 22 ''bob''], st_resolutions = [], st_dispositions = [],
       st_api_keys = [], st_proposals = [], st_risk_bindings = [], st_price_snapshots = [],
       st_price_readings = [], st_quote_policies = [], st_rail_health = [], st_rail_stops = [],
       st_endpoints = [], st_deliveries = [], st_redeliveries = [] \<rparr>"

lemmas sample_rows = sample_inbound_def sample_processing_def sample_attempt_def sample_intent_def
  sample_operator_key_def sample_store_def

end
