(* ===== verification/Settlement_Pass.thy ===== *)
theory Settlement_Pass
  imports Money_Invariant Lease_Store Sample_Store
begin

text \<open>
  The settlement service running on the \<open>PostgreSQL\<close> repository: the composition of
  \<open>Settlement_Service\<close> with \<open>Settlement_Store\<close>.

  A pass keeps the money invariant, whatever happens in it; a pass that no other writer
  interferes with also keeps every obligation exact: no attempt receives more than it
  asked for, and a settled one received precisely that. Settling is fenced by the lease,
  happens at most once per transfer, and moves everything or nothing.
\<close>

section \<open>The repository keeps its contract\<close>

lemma pg_settle_error:
  assumes "pg_settle lease command s = (Inl e, s')" shows "s' = s"
  using assms unfolding pg_settle_def
  by (auto simp: tx_run_Inl_iff split: sum.splits repository_error.splits)

lemma pg_record_unresolved_error:
  "pg_record_unresolved lease transfer u s = (Inl e, s') \<Longrightarrow> s' = s"
  by (simp add: pg_record_unresolved_def tx_run_Inl_iff)

lemma pg_awaiting_bounded:
  "pg_transfers_awaiting_settlement f limit s = Inr ts \<Longrightarrow> length ts \<le> limit"
  by (auto simp: pg_transfers_awaiting_settlement_def dest!: collect_results_length)

lemmas postgres_simps = postgres_settlement_def

interpretation money: settlement_repository "postgres_settlement u256_from_str" money_inv for u256_from_str
  by unfold_locales
    (auto simp: postgres_simps pg_record_unresolved_def
      dest: pg_settle_keeps tx_keeps_run [OF record_unresolved_keeps] pg_settle_error pg_awaiting_bounded
        tx_run_Inl_iff [THEN iffD1])

section \<open>Exact obligations\<close>

definition obligation_ok :: "store \<Rightarrow> bool" where
  "obligation_ok s \<longleftrightarrow> (\<forall>a\<in>set (st_attempts s). attempt_allocated (at_id a) s \<le> at_expected_amount_raw a \<and>
     (at_status a = ''settled'' \<longrightarrow> attempt_allocated (at_id a) s = at_expected_amount_raw a))"

definition exact_inv :: "store \<Rightarrow> bool" where
  "exact_inv s \<longleftrightarrow> money_inv s \<and> obligation_ok s"

lemma obligation_frame:
  assumes "st_attempts s' = st_attempts s" "st_allocations s' = st_allocations s"
  shows "obligation_ok s' = obligation_ok s"
  using assms by (simp add: obligation_ok_def attempt_allocated_def)

lemma allocated_store_tables:
  "st_allocations (allocated_store command attempt x r outcome now s) =
     st_allocations s @ [allocation_entry command attempt x (allocation_reason outcome) now]"
  "st_attempts (allocated_store command attempt x r outcome now s) =
     (if completes outcome then settle_attempt_row command now (st_attempts s)
      else touch_attempt_row command now (st_attempts s))"
  by (simp_all add: allocated_store_def Let_def advanced_def money_moved_def)

lemma attempt_allocated_store:
  "attempt_allocated a (allocated_store command attempt x r outcome now s) =
     attempt_allocated a s + (if a = sc_attempt_id command then unat x else 0)"
  by (simp add: attempt_allocated_def allocated_store_tables)

lemma obligation_allocated:
  assumes "obligation_ok s" "distinct (map at_id (st_attempts s))"
    and at: "find (\<lambda>a. at_id a = sc_attempt_id command) (st_attempts s) = Some attempt"
    and le: "attempt_allocated (sc_attempt_id command) s + unat x \<le> at_expected_amount_raw attempt"
    and eq: "completes outcome \<longrightarrow>
      attempt_allocated (sc_attempt_id command) s + unat x = at_expected_amount_raw attempt"
    and op: "rows_affected (open_attempt command) (st_attempts s) = 1"
  shows "obligation_ok (allocated_store command attempt x r outcome now s)"
  unfolding obligation_ok_def
proof
  fix b assume "b \<in> set (st_attempts (allocated_store command attempt x r outcome now s))"
  then obtain a where a: "a \<in> set (st_attempts s)"
    "b = (if open_attempt command a then (if completes outcome then a\<lparr> at_status := ''settled'', at_updated_at := now \<rparr>
          else a\<lparr> at_updated_at := now \<rparr>) else a)"
    by (auto simp: allocated_store_tables settle_attempt_row_def touch_attempt_row_def in_sql_update split: if_splits)
  have b: "at_id b = at_id a" "at_expected_amount_raw b = at_expected_amount_raw a" using a(2) by simp_all
  note old = assms(1) [unfolded obligation_ok_def, rule_format, OF a(1)]
  obtain o' where o': "o' \<in> set (st_attempts s)" "open_attempt command o'" using rows_affected_pos [OF op] by blast
  show "attempt_allocated (at_id b) (allocated_store command attempt x r outcome now s) \<le> at_expected_amount_raw b \<and>
      (at_status b = ''settled'' \<longrightarrow>
       attempt_allocated (at_id b) (allocated_store command attempt x r outcome now s) = at_expected_amount_raw b)"
  proof (cases "at_id a = sc_attempt_id command")
    case True
    have "a = o'" by (rule distinct_key_eq [OF assms(2) a(1) o'(1)]) (use True o'(2) in \<open>simp add: open_attempt_def\<close>)
    with o'(2) have op_a: "open_attempt command a" by simp
    have "a = attempt"
      by (rule distinct_key_eq [OF assms(2) a(1)]) (use find_SomeD [OF at] True in auto)
    with op_a True b le eq a(2) show ?thesis
      by (auto simp: attempt_allocated_store open_attempt_def ALLOCATABLE_ATTEMPT_STATES_def split: if_splits)
  next
    case False
    then have "b = a" using a(2) by (auto simp: open_attempt_def)
    with False old show ?thesis by (simp add: attempt_allocated_store)
  qed
qed

section \<open>Commands decided on the current attempt\<close>

lemma parse_amount_nat:
  assumes "u256_text d f"
  shows "parse_amount f (nat_str n) = Inr a \<longleftrightarrow> unat a = n \<and> a \<noteq> 0"
  using u256_text.raw_from_str_iff [OF assms, of "nat_str n" a]
  by (auto simp: parse_amount_def result_simps)

lemma parse_total_nat:
  assumes "u256_text d f" "parse_total f (nat_str n) = Inr a"
  shows "unat a = n"
proof (cases "trim_start_matches (CHR ''0'') (nat_str n) = []")
  case True
  then have "dropWhile (\<lambda>c. c = CHR ''0'') (nat_str n) = []" by (simp add: trim_start_matches_def)
  then have "dec_val (nat_str n) = 0" using dec_val_dropWhile_0 [of "nat_str n"] by (simp only: dec_val_Nil)
  with True assms(2) show ?thesis by (simp add: parse_total_def raw_ZERO_def)
next
  case False
  with assms(2) parse_amount_nat [OF assms(1)] show ?thesis by (simp add: parse_total_def)
qed

lemma pg_attempt_snapshot_exact:
  assumes "u256_text d f" "pg_attempt_snapshot f a s = Inr (Some snapshot)"
  obtains attempt where "find (\<lambda>x. at_id x = a) (st_attempts s) = Some attempt"
    "as_attempt_id snapshot = a" "unat (as_expected_amount_raw snapshot) = at_expected_amount_raw attempt"
    "unat (as_allocated_raw snapshot) = attempt_allocated a s"
    "as_payment_intent_id snapshot = at_payment_intent_id attempt"
  using assms(2) parse_amount_nat [OF assms(1)] parse_total_nat [OF assms(1)]
  by (auto simp: pg_attempt_snapshot_def result_simps split: option.splits dest: find_SomeD)

text \<open>What an outcome allocates: amount, remainder and the text stored as its outcome.\<close>

fun outcome_money :: "settlement_outcome \<Rightarrow> (raw_amount \<times> raw_amount \<times> string) option" where
  "outcome_money (Settle x) = Some (x, 0, ''settled'')"
| "outcome_money (Partial x) = Some (x, 0, ''partial'')"
| "outcome_money (Overpaid x r) = Some (x, r, ''overpaid'')"
| "outcome_money _ = None"

lemma decided_command_exact:
  assumes "u256_text d f" "decided_command (postgres_settlement f) s command"
    and "outcome_money (sc_outcome command) = Some (x, r, outcome)"
  obtains attempt where
    "find (\<lambda>a. at_id a = sc_attempt_id command) (st_attempts s) = Some attempt"
    "attempt_allocated (sc_attempt_id command) s + unat x \<le> at_expected_amount_raw attempt"
    "completes outcome \<longrightarrow> attempt_allocated (sc_attempt_id command) s + unat x = at_expected_amount_raw attempt"
proof -
  from assms(2) obtain transfer a snapshot policy strategy out risk rid late where
    sn: "pg_attempt_snapshot f a s = Inr (Some snapshot)"
    and dec: "decide_settlement (evidence_of transfer snapshot risk late) policy = Inr out"
    and c: "command = command_of transfer snapshot policy strategy out risk rid"
    unfolding decided_command_def postgres_settlement_def by auto
  obtain attempt where at: "find (\<lambda>x. at_id x = a) (st_attempts s) = Some attempt"
    "as_attempt_id snapshot = a" "unat (as_expected_amount_raw snapshot) = at_expected_amount_raw attempt"
    "unat (as_allocated_raw snapshot) = attempt_allocated a s"
    by (rule pg_attempt_snapshot_exact [OF assms(1) sn])
  have id: "sc_attempt_id command = a" "sc_outcome command = out" by (simp_all add: c command_of_def at(2))
  have "attempt_allocated a s + unat x \<le> at_expected_amount_raw attempt \<and>
      (completes outcome \<longrightarrow> attempt_allocated a s + unat x = at_expected_amount_raw attempt)"
    using decide_settlement_accounts [OF dec] assms(3) at(3,4) unfolding id
    by (cases out) (auto simp: evidence_of_def completes_def)
  with at(1) show ?thesis using that unfolding id by blast
qed

section \<open>What one settlement does\<close>

lemma apply_outcome_moves:
  "outcome_money (sc_outcome command) = Some (x, r, outcome) \<Longrightarrow>
     apply_outcome command now = allocate_and_finish command x r outcome now"
  by (cases "sc_outcome command") (auto simp: apply_outcome_def raw_ZERO_def)

text \<open>Tables that change only when money moves.\<close>

definition money_unmoved :: "store \<Rightarrow> store \<Rightarrow> bool" where
  "money_unmoved s s' \<longleftrightarrow> st_allocations s' = st_allocations s \<and> st_claims s' = st_claims s \<and>
     st_attempts s' = st_attempts s \<and> st_intents s' = st_intents s \<and>
     st_fulfillments s' = st_fulfillments s \<and> st_outbox s' = st_outbox s \<and> st_transfers s' = st_transfers s"

lemma processing_state_set:
  assumes "set_processing t state reason now s = Inr (u, s')" "processing_state_of t s = Some old"
  shows "processing_state_of t s' = Some state"
proof -
  from assms(2) obtain p where p: "find (\<lambda>p. pr_transfer_id p = t) (st_processing s) = Some p"
    by (auto simp: processing_state_of_def)
  from find_SomeD [OF p] p show ?thesis
    unfolding set_processing_effect [OF assms(1)] processing_state_of_def by (simp add: find_sql_update)
qed

lemma finish_without_money_parks:
  assumes "finish_without_money command state outcome reason now s = Inr (u, s')"
    and "processing_state_of (sc_transfer_id command) s = Some old"
  shows "money_unmoved s s'" "processing_state_of (sc_transfer_id command) s' = Some state"
proof -
  obtain s1 where s1: "set_processing (sc_transfer_id command) state reason now s = Inr ((), s1)"
    "s' = s1\<lparr> st_decisions := st_decisions s', st_events := st_events s' \<rparr>"
    by (rule finish_without_money_effect [OF assms(1)])
  have m: "money_unmoved s s1" using set_processing_effect [OF s1(1)] by (simp add: money_unmoved_def)
  have p: "processing_state_of (sc_transfer_id command) s1 = Some state"
    by (rule processing_state_set [OF s1(1) assms(2)])
  have "money_unmoved s (s1\<lparr> st_decisions := d, st_events := e \<rparr>)"
    "processing_state_of (sc_transfer_id command) (s1\<lparr> st_decisions := d, st_events := e \<rparr>) = Some state" for d e
    using m p by (simp_all add: money_unmoved_def processing_state_of_def)
  then show "money_unmoved s s'" "processing_state_of (sc_transfer_id command) s' = Some state"
    using s1(2) by metis+
qed

lemma allocated_store_state:
  assumes "room_for (sc_transfer_id command) (unat x) s" "keys_ok s"
  shows "processing_state_of (sc_transfer_id command) (allocated_store command attempt x r outcome now s) =
    Some (if outcome = ''settled'' then ''settled'' else ''matched'')"
proof -
  let ?t = "sc_transfer_id command"
  let ?w = "\<lambda>p. list_ex (\<lambda>r. tr_id r = pr_transfer_id p \<and> pr_allocated_raw p + unat x \<le> tr_amount_raw r) (st_transfers s)"
  obtain p where p: "p \<in> set (st_processing s)" "pr_transfer_id p = ?t" "?w p"
    using assms(1) unfolding room_for_def list_ex_iff [of _ "st_processing s"] by blast
  have "distinct (map pr_transfer_id (st_processing s))" using assms(2) by (simp add: keys_ok_def)
  from find_key [OF this p(1,2)] p(2,3) show ?thesis
    by (simp add: processing_state_of_def allocated_store_def Let_def advanced_def money_moved_def
        grown_processing_def find_sql_update)
qed

text \<open>
  The three ways a settlement of a pending transfer can end: the money moves completely,
  or the transfer is parked and nothing moves.
\<close>

lemma settle_pending_transfer_cases:
  assumes inv: "money_inv s" and pend: "processing_state_of (sc_transfer_id command) s = Some ''pending''"
    and run: "pg_settle lease command s = (Inr rec, s')"
  obtains (moved) attempt x r outcome where
      "outcome_money (sc_outcome command) = Some (x, r, outcome)" "rec = allocated_record outcome"
      "find (\<lambda>a. at_id a = sc_attempt_id command) (st_attempts s) = Some attempt"
      "same_collector command attempt s" "x \<noteq> 0" "room_for (sc_transfer_id command) (unat x) s"
      "rows_affected (open_attempt command) (st_attempts s) = 1"
      "rows_affected (payable_intent command) (st_intents s) = 1"
      "s' = allocated_store command attempt x r outcome (st_now s) s"
  | (parked) "rec = SR_Held \<or> rec = SR_ManualRequired" "money_unmoved s s'"
      "processing_state_of (sc_transfer_id command) s' = Some ''held''"
proof (cases "settle_attempt lease command s")
  case (Inl e)
  with run obtain refusal where "park_refused lease command refusal s = Inr (rec, s')"
    by (auto simp: pg_settle_def tx_run_Inr_iff split: repository_error.splits)
  then show ?thesis
    by (cases rule: park_refused_cases) (use pend finish_without_money_parks [OF _ pend] parked in auto)
next
  case (Inr res)
  with run have at: "settle_attempt lease command s = Inr (rec, s')" by (cases res) (auto simp: pg_settle_def)
  then have ap: "apply_outcome command (st_now s) s = Inr (rec, s')"
    using pend by (auto elim: settle_attempt_cases)
  show ?thesis
  proof (cases "outcome_money (sc_outcome command)")
    case None
    with ap finish_without_money_parks [OF _ pend] show ?thesis
      by (cases "sc_outcome command") (auto simp: apply_outcome_def tx_simps intro!: parked)
  next
    case (Some m)
    obtain x r outcome where m: "m = (x, r, outcome)" by (cases m) auto
    with Some ap have "allocate_and_finish command x r outcome (st_now s) s = Inr (rec, s')"
      by (simp add: apply_outcome_moves)
    from allocate_and_finish_open [OF inv pending_open [OF pend] this] Some m moved show ?thesis by metis
  qed
qed

lemma pg_settle_not_pending:
  assumes "pg_settle lease command s = (Inr rec, s')"
    and "processing_state_of (sc_transfer_id command) s \<noteq> Some ''pending''"
  shows "rec = SR_AlreadyProcessed \<and> s' = s"
proof (cases "settle_attempt lease command s")
  case (Inl e)
  with assms(1) obtain refusal where "park_refused lease command refusal s = Inr (rec, s')"
    by (auto simp: pg_settle_def tx_run_Inr_iff split: repository_error.splits)
  with assms(2) show ?thesis by (auto elim: park_refused_cases)
next
  case (Inr res)
  with assms(1) have "settle_attempt lease command s = Inr (rec, s')" by (cases res) (auto simp: pg_settle_def)
  with assms(2) show ?thesis by (auto elim: settle_attempt_cases)
qed

lemma pg_settle_exact:
  assumes "u256_text d f" "exact_inv s" "decided_command (postgres_settlement f) s command"
    and "pg_settle lease command s = (res, s')"
  shows "exact_inv s'"
proof (cases res)
  case (Inl e)
  with assms(2,4) pg_settle_error show ?thesis by blast
next
  case (Inr rec)
  have inv: "money_inv s" "obligation_ok s" using assms(2) by (simp_all add: exact_inv_def)
  note run = assms(4) [unfolded Inr]
  have "obligation_ok s'"
  proof (cases "processing_state_of (sc_transfer_id command) s = Some ''pending''")
    case True
    show ?thesis
    proof (cases rule: settle_pending_transfer_cases [OF inv(1) True run, case_names moved parked])
      case (moved attempt x r outcome)
      obtain a where "find (\<lambda>a. at_id a = sc_attempt_id command) (st_attempts s) = Some a"
        "attempt_allocated (sc_attempt_id command) s + unat x \<le> at_expected_amount_raw a"
        "completes outcome \<longrightarrow> attempt_allocated (sc_attempt_id command) s + unat x = at_expected_amount_raw a"
        by (rule decided_command_exact [OF assms(1,3) moved(1)])
      with moved(3,7,9) money_invD(1) [OF inv(1)] show ?thesis
        by (auto simp: keys_ok_def intro!: obligation_allocated inv(2))
    next
      case parked
      then have "st_attempts s' = st_attempts s" "st_allocations s' = st_allocations s"
        by (simp_all add: money_unmoved_def)
      from obligation_frame [OF this] inv(2) show ?thesis by simp
    qed
  qed (use pg_settle_not_pending [OF run] inv in auto)
  with pg_settle_keeps [OF inv(1) run] show ?thesis by (simp add: exact_inv_def)
qed

lemma pg_record_unresolved_exact:
  assumes "exact_inv s" "pg_record_unresolved lease transfer u s = (res, s')"
  shows "exact_inv s'"
proof (cases res)
  case (Inl e)
  with assms pg_record_unresolved_error show ?thesis by blast
next
  case (Inr v)
  with assms(2) have run: "record_unresolved_tx lease transfer u s = Inr (v, s')"
    by (simp add: pg_record_unresolved_def tx_run_Inr_iff)
  then have "st_attempts s' = st_attempts s" "st_allocations s' = st_allocations s"
    unfolding record_unresolved_tx_def
    by (auto simp: tx_simps Let_def split: unresolved_transfer.splits
        dest!: hold_lease_effect insert_payment_event_effect enqueue_outbox_effect)
  then have "obligation_ok s' = obligation_ok s" by (rule obligation_frame)
  with assms(1) tx_keepsD [OF record_unresolved_keeps _ run] show ?thesis by (simp add: exact_inv_def)
qed

lemma exact_repository:
  assumes "u256_text d f"
  shows "settlement_repository (postgres_settlement f) exact_inv"
  by unfold_locales
    (auto simp: postgres_simps dest: pg_settle_exact [OF assms, unfolded postgres_simps]
      pg_record_unresolved_exact pg_settle_error pg_record_unresolved_error pg_awaiting_bounded)

sublocale u256_text \<subseteq> exact: settlement_repository "postgres_settlement u256_from_str" exact_inv
  by (rule exact_repository [OF u256_text_axioms])

section \<open>A sample command\<close>

definition sample_lease :: component_lease where
  "sample_lease = \<lparr> cl_component = ''settlement'', cl_holder = ''worker-1'', cl_fence_token = 7, cl_lease_until = 2000 \<rparr>"

definition sample_command :: "uuid \<Rightarrow> settlement_outcome \<Rightarrow> settlement_command" where
  "sample_command transfer outcome =
     \<lparr> sc_transfer_id = transfer, sc_attempt_id = 3, sc_payment_intent_id = 2, sc_merchant_id = 1,
       sc_fiat_amount_minor = 60, sc_match_strategy = MS_ExactAmount, sc_outcome = outcome,
       sc_policy_version = ''v1'', sc_independent_groups = 2, sc_had_own_node = True,
       sc_finality_state = TS_Finalized, sc_risk = RD_Skipped, sc_risk_evaluation_id = None,
       sc_attestation_ids = [11, 12] \<rparr>"

lemmas sample_defs = sample_rows sample_lease_def sample_command_def

lemma sample_exact:
  assumes "distinct (map tr_id transfers)"
  shows "exact_inv (sample_store transfers)"
  using assms
  by (auto simp: exact_inv_def money_inv_def keys_ok_def ledger_ok_def open_ok_def bound_ok_def claims_ok_def
      paid_ok_def obligation_ok_def attempt_allocated_def sample_defs fulfilled_def comp_def)

lemmas tx_eval = tx_then_def tx_bind_def tx_return_def tx_fail_def tx_gets_def tx_read_def tx_modify_def
  tx_require_def tx_map_err_def tx_run_def

lemmas settle_eval = tx_eval pg_settle_def settle_attempt_def hold_lease_def processing_state_of_def
  transfer_exists_def apply_outcome_def allocate_and_finish_def claim_transfer_def insert_claim_def
  claim_owner_def intent_exists_def merchant_exists_def attempt_exists_def claim_entry_def
  increase_allocated_def insert_allocation_def allocation_entry_def advance_to_paid_def
  advance_to_partially_paid_def open_attempt_def payable_intent_def ALLOCATABLE_ATTEMPT_STATES_def
  PAYABLE_INTENT_STATES_def require_one_row_def fulfillment_entry_def insert_payment_event_def
  fk_option_def enqueue_outbox_def record_decision_def raw_is_zero_def raw_ZERO_def same_decision_def
  Let_def

lemma sample_settles:
  "fst (pg_settle sample_lease (sample_command 7 (Settle 1000)) (sample_store [sample_inbound 7 1000]))
     = Inr SR_Settled"
  by (simp add: settle_eval sample_defs)

section \<open>Properties\<close>

text \<open>C4: A settlement moves all of the money or none of it. Settling a pending transfer
  either performs the whole decided payment (the claim, the increased ledger, the
  allocation, the attempt and intent, the fulfilment, the journal, the decision and the
  webhooks are exactly those of the outcome, at an attempt on the transfer's own collector),
  or parks the transfer as held and changes no claim, allocation, attempt, intent,
  fulfilment or webhook.\<close>

theorem settle_all_or_nothing:
  assumes "money_inv s" "processing_state_of (sc_transfer_id command) s = Some ''pending''"
    and "pg_settle lease command s = (Inr rec, s')"
  shows "(\<exists>attempt x r outcome. outcome_money (sc_outcome command) = Some (x, r, outcome) \<and>
           rec = allocated_record outcome \<and> same_collector command attempt s \<and> 0 < x \<and>
           s' = allocated_store command attempt x r outcome (st_now s) s) \<or>
         ((rec = SR_Held \<or> rec = SR_ManualRequired) \<and> money_unmoved s s' \<and>
           processing_state_of (sc_transfer_id command) s' = Some ''held'')"
  by (cases rule: settle_pending_transfer_cases [OF assms, case_names moved parked])
    (auto simp: word_greater_zero_iff)

theorem settle_all_or_nothing_witness:
  "\<exists>attempt x r outcome. outcome_money (Settle 1000) = Some (x, r, outcome) \<and>
     SR_Settled = allocated_record outcome \<and>
     same_collector (sample_command 7 (Settle 1000)) attempt (sample_store [sample_inbound 7 1000]) \<and> 0 < x \<and>
     snd (pg_settle sample_lease (sample_command 7 (Settle 1000)) (sample_store [sample_inbound 7 1000])) =
       allocated_store (sample_command 7 (Settle 1000)) attempt x r outcome 1000
         (sample_store [sample_inbound 7 1000])"
proof -
  let ?c = "sample_command 7 (Settle 1000)" and ?s = "sample_store [sample_inbound 7 1000]"
  have inv: "money_inv ?s" using sample_exact [of "[sample_inbound 7 1000]"] by (simp add: exact_inv_def)
  have pend: "processing_state_of (sc_transfer_id ?c) ?s = Some ''pending''"
    by (simp add: processing_state_of_def sample_defs)
  have run: "pg_settle sample_lease ?c ?s = (Inr SR_Settled, snd (pg_settle sample_lease ?c ?s))"
    using sample_settles by (simp add: prod_eq_iff)
  have o: "sc_outcome ?c = Settle 1000" "st_now ?s = 1000" by (simp_all add: sample_defs)
  show ?thesis using settle_all_or_nothing [OF inv pend run] unfolding o by simp
qed

lemma settle_needs_transfer:
  assumes "pg_settle lease command s = (Inr rec, s')"
  shows "transfer_exists (sc_transfer_id command) s" "processing_state_of (sc_transfer_id command) s \<noteq> None"
proof -
  have "\<exists>e. settle_attempt lease command s = Inl e \<and> (\<forall>x. e \<noteq> TransitionRefused x)"
    if "\<not> transfer_exists (sc_transfer_id command) s \<or> processing_state_of (sc_transfer_id command) s = None"
    using that by (auto simp: settle_attempt_def tx_then_def tx_bind_def tx_read_def hold_lease_iff)
  moreover have "\<not> (\<exists>e. settle_attempt lease command s = Inl e \<and> (\<forall>x. e \<noteq> TransitionRefused x))"
    using assms by (auto simp: pg_settle_def split: repository_error.splits)
  ultimately show "transfer_exists (sc_transfer_id command) s"
    "processing_state_of (sc_transfer_id command) s \<noteq> None" by blast+
qed

lemma settled_not_pending:
  assumes "money_inv s" "pg_settle lease command s = (Inr rec, s')"
  obtains state where "processing_state_of (sc_transfer_id command) s' = Some state" "state \<noteq> ''pending''"
    "transfer_exists (sc_transfer_id command) s'"
proof (cases "processing_state_of (sc_transfer_id command) s = Some ''pending''")
  case True
  show ?thesis
  proof (cases rule: settle_pending_transfer_cases [OF assms(1) True assms(2), case_names moved parked])
    case (moved attempt x r outcome)
    have "st_transfers s' = st_transfers s"
      by (simp add: moved(9) allocated_store_def Let_def advanced_def money_moved_def)
    with settle_needs_transfer(1) [OF assms(2)] allocated_store_state [OF moved(6) money_invD(1) [OF assms(1)]]
    show ?thesis using that unfolding moved(9) by (auto simp: transfer_exists_def split: if_splits)
  next
    case parked
    with settle_needs_transfer(1) [OF assms(2)] show ?thesis
      using that by (auto simp: transfer_exists_def money_unmoved_def)
  qed
next
  case False
  with pg_settle_not_pending [OF assms(2)] settle_needs_transfer [OF assms(2)] show ?thesis using that by auto
qed

text \<open>C5: A transfer is settled at most once. After a settlement answered, whatever it
  answered, every further settlement of the same transfer by any lease holder, with any
  command, answers that it was already processed and changes nothing.\<close>

theorem settle_at_most_once:
  assumes "money_inv s" "pg_settle lease command s = (Inr rec, s')"
    and "sc_transfer_id command' = sc_transfer_id command" "lease_held lease' s'"
  shows "pg_settle lease' command' s' = (Inr SR_AlreadyProcessed, s')"
proof -
  obtain state where "processing_state_of (sc_transfer_id command) s' = Some state" "state \<noteq> ''pending''"
    "transfer_exists (sc_transfer_id command) s'" by (rule settled_not_pending [OF assms(1,2)])
  then have "settle_attempt lease' command' s' = Inr (SR_AlreadyProcessed, s')"
    using assms(3,4) by (simp add: settle_attempt_def tx_then_def tx_bind_def tx_read_def tx_return_def hold_lease_iff)
  then show ?thesis by (simp add: pg_settle_def)
qed

theorem settle_at_most_once_witness:
  "pg_settle sample_lease (sample_command 7 (Partial 400))
     (snd (pg_settle sample_lease (sample_command 7 (Settle 1000)) (sample_store [sample_inbound 7 1000]))) =
   (Inr SR_AlreadyProcessed,
     snd (pg_settle sample_lease (sample_command 7 (Settle 1000)) (sample_store [sample_inbound 7 1000])))"
proof (rule settle_at_most_once)
  show "money_inv (sample_store [sample_inbound 7 1000])"
    using sample_exact [of "[sample_inbound 7 1000]"] by (simp add: exact_inv_def)
  show "pg_settle sample_lease (sample_command 7 (Settle 1000)) (sample_store [sample_inbound 7 1000]) =
      (Inr SR_Settled, snd (pg_settle sample_lease (sample_command 7 (Settle 1000)) (sample_store [sample_inbound 7 1000])))"
    using sample_settles by (simp add: prod_eq_iff)
  show "lease_held sample_lease
      (snd (pg_settle sample_lease (sample_command 7 (Settle 1000)) (sample_store [sample_inbound 7 1000])))"
    by (simp add: settle_eval sample_defs lease_held_def)
qed (simp add: sample_command_def)

lemma lost_lease:
  assumes "\<not> lease_held lease s"
  shows "pg_settle lease command s = (Inl LeaseLost, s)" "pg_record_unresolved lease transfer u s = (Inl LeaseLost, s)"
    "tx_run (park_refused lease command refusal) s = (Inl LeaseLost, s)"
  using assms
  by (simp_all add: pg_settle_def settle_attempt_def pg_record_unresolved_def record_unresolved_tx_def
      park_refused_def tx_run_def tx_then_def tx_bind_def hold_lease_iff Let_def split: unresolved_transfer.split)

text \<open>C6: A worker that lost its lease can no longer write. Once another holder took over the
  component of a lease, then in that store and in every later one, however the leases are
  acquired and whatever else happens, a settlement, the parking of a refused one and the
  recording of an unresolved transfer under the old lease fail and change nothing.\<close>

theorem takeover_fences:
  assumes "leases_unique s" "lease_held lease s" "cl_holder lease \<noteq> holder"
    and "acquire_component_lease add_secs (cl_component lease) holder ttl now s = Inr (Some new, s1)"
    and "lease_path add_secs s1 s2"
  shows "pg_settle lease command s2 = (Inl LeaseLost, s2) \<and>
    tx_run (park_refused lease command refusal) s2 = (Inl LeaseLost, s2) \<and>
    pg_record_unresolved lease transfer u s2 = (Inl LeaseLost, s2)"
proof -
  have "lease_past lease s1" by (rule takeover_past [OF assms(1-4)])
  then have "\<not> lease_held lease s2"
    using lease_path_past [OF assms(5)] acquire_unique [OF assms(4,1)] lease_past_not_held by blast
  then show ?thesis by (simp add: lost_lease)
qed

theorem takeover_fences_witness:
  "fst (pg_settle sample_lease (sample_command 7 (Settle 1000))
     ((sample_store [sample_inbound 7 1000])\<lparr> st_component_leases := [\<lparr> lo_component = ''settlement'',
        lo_holder = ''worker-2'', lo_fence_token = 8, lo_lease_until = 3000 + 60 * nanos_per_sec \<rparr>] \<rparr>)) = Inl LeaseLost"
proof -
  let ?s = "sample_store [sample_inbound 7 1000]"
  let ?s1 = "?s\<lparr> st_component_leases := [\<lparr> lo_component = ''settlement'', lo_holder = ''worker-2'',
    lo_fence_token = 8, lo_lease_until = 3000 + 60 * nanos_per_sec \<rparr>] \<rparr>"
  have "leases_unique ?s" "lease_held sample_lease ?s" "cl_holder sample_lease \<noteq> ''worker-2''"
    by (simp_all add: leases_unique_def lease_held_def sample_defs)
  moreover have "acquire_component_lease ref_add_secs (cl_component sample_lease) ''worker-2'' 60 3000 ?s =
      Inr (Some \<lparr> cl_component = ''settlement'', cl_holder = ''worker-2'', cl_fence_token = 8,
        cl_lease_until = 3000 + 60 * nanos_per_sec \<rparr>, ?s1)"
    by (simp add: acquire_component_lease_def sample_defs ref_add_secs_def instant_min_def instant_max_def
        nanos_per_sec_def char_count_def)
  ultimately show ?thesis
    using takeover_fences [OF _ _ _ _ lease_path.stay, of ?s sample_lease "''worker-2''" ref_add_secs 60 3000 _ ?s1] by simp
qed

text \<open>C3: A settlement pass keeps the books. Whatever the pass meets and however it ends, the
  store still satisfies the money invariant; a completed pass examined at most the batch
  limit, and every examined transfer is counted in exactly one column of its report.\<close>

theorem settlement_pass_keeps_money:
  assumes "money_inv s" "settle_pending (postgres_settlement u256_from_str) lease limit s = (out, s')"
  shows "money_inv s' \<and>
    (case out of Inl _ \<Rightarrow> True | Inr r \<Rightarrow> rp_examined r \<le> limit \<and> report_total r = rp_examined r)"
  using money.settle_pending_inv [OF assms] money.settle_pending_report assms(2) by (auto split: sum.split)

theorem settlement_pass_keeps_money_witness:
  "money_inv (snd (settle_pending (postgres_settlement ref_u256_from_str) sample_lease 10
     (sample_store [sample_inbound 7 1000])))"
proof -
  have "money_inv (sample_store [sample_inbound 7 1000])"
    using sample_exact [of "[sample_inbound 7 1000]"] by (simp add: exact_inv_def)
  from settlement_pass_keeps_money [OF this prod.collapse [symmetric]] show ?thesis by blast
qed

text \<open>C2: A pass without interference keeps every obligation exact. If no attempt was
  allocated more than it asked for and every settled attempt exactly that, the same holds
  after a settlement pass, because each decision is made on the attempt as it is and
  allocates at most what is outstanding.\<close>

theorem settlement_pass_exact:
  assumes "u256_text display_u256 u256_from_str" "money_inv s" "obligation_ok s"
    and "settle_pending (postgres_settlement u256_from_str) lease limit s = (out, s')"
  shows "obligation_ok s'"
  using settlement_repository.settle_pending_inv [OF exact_repository [OF assms(1)] _ assms(4)] assms(2,3)
  by (simp add: exact_inv_def)

theorem settlement_pass_exact_witness:
  "obligation_ok (snd (settle_pending (postgres_settlement ref_u256_from_str) sample_lease 10
     (sample_store [sample_inbound 7 1000])))"
proof -
  have "money_inv (sample_store [sample_inbound 7 1000])" "obligation_ok (sample_store [sample_inbound 7 1000])"
    using sample_exact [of "[sample_inbound 7 1000]"] by (simp_all add: exact_inv_def)
  from settlement_pass_exact [OF ref_text.u256_text_axioms this prod.collapse [symmetric]] show ?thesis .
qed

end
