(* ===== verification/Operator_Money.thy ===== *)
theory Operator_Money
  imports Operator_Store Settlement_Pass
begin

text \<open>
  What an operator can do to money. A resolution is planned and carried out in one
  transaction on locked rows, so it keeps the money invariant and keeps every obligation
  exact; a key and a request give one resolution, replayed as often as it is asked for; an
  honor at or above the configured threshold needs a second key, which decides it once.

  The last section composes an honor with the settlement service: the service decides on
  rows read before its transaction, and an honor in between makes the decision stale.
\<close>

section \<open>Planning\<close>

lemma parse_raw_nat:
  assumes "u256_text d f"
  shows "parse_raw f (nat_str n) = Inr a \<longleftrightarrow> unat a = n \<and> a \<noteq> 0"
  using parse_amount_nat [OF assms, of n a] by (auto simp: parse_raw_def parse_amount_def result_simps)

lemma parse_raw_allow_zero_nat:
  assumes "u256_text d f" "parse_raw_allow_zero f (nat_str n) = Inr a"
  shows "unat a = n"
proof -
  have "parse_total f (nat_str n) = Inr a"
    using assms(2) by (auto simp: parse_raw_allow_zero_def parse_total_def parse_raw_def parse_amount_def
        result_simps split: if_splits)
  then show ?thesis by (rule parse_total_nat [OF assms(1)])
qed

lemma honor_row_rows:
  assumes "honor_row t a i s = Some row"
  obtains attempt transfer p where
    "find (\<lambda>x. at_id x = a) (st_attempts s) = Some attempt" "at_payment_intent_id attempt = i"
    "find (\<lambda>x. tr_id x = t) (st_transfers s) = Some transfer"
    "find (\<lambda>x. pr_transfer_id x = t) (st_processing s) = Some p"
    "mh_expected_raw row = at_expected_amount_raw attempt"
    "mh_attempt_allocated_raw row = attempt_allocated a s"
    "mh_transfer_raw row = tr_amount_raw transfer" "mh_transfer_allocated_raw row = pr_allocated_raw p"
    "mh_processing_state row = pr_state p"
    "mh_attempt_status row = at_status attempt"
    "mh_within_late_window row = (tr_block_time transfer < at_late_payment_until attempt)"
proof -
  from assms obtain attempt intent q ca transfer x p where f:
    "find (\<lambda>x. at_id x = a) (st_attempts s) = Some attempt"
    "find (\<lambda>y. in_id y = at_payment_intent_id attempt \<and> in_merchant_id y = at_merchant_id attempt \<and> in_id y = i)
       (st_intents s) = Some intent"
    "find (\<lambda>x. tr_id x = t) (st_transfers s) = Some transfer"
    "find (\<lambda>x. pr_transfer_id x = tr_id transfer) (st_processing s) = Some p"
    and row: "honor_columns attempt intent q ca transfer x p s = row"
    unfolding honor_row_def bind_eq_Some_conv option.inject by blast
  have k: "at_id attempt = a" "at_payment_intent_id attempt = i" "tr_id transfer = t"
    using find_SomeD [OF f(1)] find_SomeD [OF f(2)] find_SomeD [OF f(3)] by auto
  show ?thesis by (rule that [OF f(1) k(2) f(3)]) (use f(4) k in \<open>simp_all add: row [symmetric] honor_columns_def\<close>)
qed

text \<open>What a plan says: which rows, that the transfer is parked, and how the amounts add up.\<close>

definition honor_planned ::
  "manual_resolution \<Rightarrow> uuid \<Rightarrow> uuid \<Rightarrow> attempt_row \<Rightarrow> transfer_row \<Rightarrow> honor_plan \<Rightarrow> store \<Rightarrow> bool" where
  "honor_planned resolution intent_id attempt_id attempt transfer plan s \<longleftrightarrow>
     rn_payment_intent_id resolution = Some intent_id \<and> rn_attempt_id resolution = Some attempt_id \<and>
     rn_allocate_raw resolution = Some (hl_allocate plan) \<and>
     find (\<lambda>x. at_id x = attempt_id) (st_attempts s) = Some attempt \<and>
     find (\<lambda>x. tr_id x = rn_transfer_id resolution) (st_transfers s) = Some transfer \<and>
     (\<exists>p\<in>set (st_processing s). pr_transfer_id p = rn_transfer_id resolution \<and> parked_state (pr_state p) \<and>
        unat (hl_allocate plan) + unat (hl_remainder plan) + pr_allocated_raw p = tr_amount_raw transfer) \<and>
     at_status attempt \<in> {''awaiting_payment'', ''expired''} \<and>
     tr_block_time transfer < at_late_payment_until attempt \<and>
     attempt_allocated attempt_id s + unat (hl_allocate plan) \<le> at_expected_amount_raw attempt \<and>
     outcome_money (hl_outcome plan) = Some (hl_allocate plan, hl_remainder plan, hl_outcome_name plan) \<and>
     (completes (hl_outcome_name plan) \<longleftrightarrow>
        attempt_allocated attempt_id s + unat (hl_allocate plan) = at_expected_amount_raw attempt)"

lemma honor_amounts_exact:
  assumes "honor_amounts row allocate outstanding available = Inr plan"
  shows "hl_row plan = row" "hl_allocate plan = allocate"
    "unat allocate + unat (hl_remainder plan) = unat available" "unat allocate \<le> unat outstanding"
    "outcome_money (hl_outcome plan) = Some (allocate, hl_remainder plan, hl_outcome_name plan)"
    "completes (hl_outcome_name plan) \<longleftrightarrow> unat allocate = unat outstanding"
proof -
  from assms have m: "allocate = min outstanding available"
    by (auto simp: honor_amounts_def split: if_splits)
  then have le: "unat allocate \<le> unat outstanding" "unat allocate \<le> unat available"
    by (simp_all add: word_le_nat_alt [symmetric])
  from assms obtain r where r: "checked_sub available allocate = Some r"
    by (auto simp: honor_amounts_def result_simps split: if_splits)
  then have ra: "unat available = unat allocate + unat r" by (simp add: checked_simps)
  have part: "r = 0" if "allocate \<noteq> outstanding"
  proof -
    from that m have "allocate = available" by (simp add: min_def split: if_splits)
    with ra show ?thesis by (simp add: unat_eq_0)
  qed
  have plan: "plan = \<lparr> hl_row = row,
      hl_outcome = (if allocate = outstanding \<and> r \<noteq> 0 then Overpaid allocate r
        else if allocate = outstanding then Settle allocate else Partial allocate),
      hl_outcome_name = (if allocate = outstanding \<and> r \<noteq> 0 then ''overpaid''
        else if allocate = outstanding then ''settled'' else ''partial''),
      hl_allocate = allocate, hl_remainder = r \<rparr>"
    using assms m [symmetric] r
    by (auto simp: honor_amounts_def Let_def raw_positive_def raw_ZERO_def raw_is_zero_def result_simps
        split: if_splits)
  show "hl_row plan = row" "hl_allocate plan = allocate"
    "unat allocate + unat (hl_remainder plan) = unat available" "unat allocate \<le> unat outstanding"
    using ra le by (simp_all add: plan)
  show "outcome_money (hl_outcome plan) = Some (allocate, hl_remainder plan, hl_outcome_name plan)"
    using part by (auto simp: plan)
  show "completes (hl_outcome_name plan) \<longleftrightarrow> unat allocate = unat outstanding"
    by (auto simp: plan completes_def word_unat_eq_iff)
qed

lemma plan_honor_exact:
  assumes "u256_text d f" "plan_honor f resolution s = Inr (plan, s')"
  obtains intent_id attempt_id attempt transfer where "s' = s"
    "honor_planned resolution intent_id attempt_id attempt transfer plan s"
proof -
  from assms(2) obtain i a x row expected allocated amount taken outstanding available where
    ids: "rn_payment_intent_id resolution = Some i" "rn_attempt_id resolution = Some a"
      "rn_allocate_raw resolution = Some x"
    and row: "honor_row (rn_transfer_id resolution) a i s = Some row"
    and st: "parked_state (mh_processing_state row)" "honor_is_bound row"
    and amounts: "parse_raw f (nat_str (mh_expected_raw row)) = Inr expected"
      "parse_raw_allow_zero f (nat_str (mh_attempt_allocated_raw row)) = Inr allocated"
      "parse_raw f (nat_str (mh_transfer_raw row)) = Inr amount"
      "parse_raw_allow_zero f (nat_str (mh_transfer_allocated_raw row)) = Inr taken"
    and subs: "checked_sub expected allocated = Some outstanding" "checked_sub amount taken = Some available"
    and plan: "honor_amounts row x outstanding available = Inr plan" and "s' = s"
    by (auto simp: plan_honor_def tx_simps result_simps split: if_splits)
  obtain attempt transfer p where rows:
    "find (\<lambda>x. at_id x = a) (st_attempts s) = Some attempt" "at_payment_intent_id attempt = i"
    "find (\<lambda>x. tr_id x = rn_transfer_id resolution) (st_transfers s) = Some transfer"
    "find (\<lambda>x. pr_transfer_id x = rn_transfer_id resolution) (st_processing s) = Some p"
    "mh_expected_raw row = at_expected_amount_raw attempt"
    "mh_attempt_allocated_raw row = attempt_allocated a s"
    "mh_transfer_raw row = tr_amount_raw transfer" "mh_transfer_allocated_raw row = pr_allocated_raw p"
    "mh_processing_state row = pr_state p" "mh_attempt_status row = at_status attempt"
    "mh_within_late_window row = (tr_block_time transfer < at_late_payment_until attempt)"
    by (rule honor_row_rows [OF row])
  note pl = honor_amounts_exact [OF plan]
  have n: "unat expected = at_expected_amount_raw attempt" "unat allocated = attempt_allocated a s"
    "unat amount = tr_amount_raw transfer" "unat taken = pr_allocated_raw p"
    using amounts rows(5-8) parse_raw_nat [OF assms(1)] parse_raw_allow_zero_nat [OF assms(1)] by auto
  have sub: "unat expected = unat allocated + unat outstanding" "unat amount = unat taken + unat available"
    using subs by (simp_all add: checked_simps)
  have "honor_planned resolution i a attempt transfer plan s"
    unfolding honor_planned_def
    using ids rows(1,3,9,10,11) st pl n sub find_SomeD [OF rows(4)]
    by (auto simp: honor_is_bound_def)
  with \<open>s' = s\<close> that show ?thesis by blast
qed

section \<open>Carrying a resolution out\<close>

lemma load_resolution_reads: "load_resolution f operator key hash b s = Inr (v, s') \<Longrightarrow> s' = s"
  by (simp add: load_resolution_def tx_simps)

definition resolution_recorded :: "resolution_row \<Rightarrow> store \<Rightarrow> store" where
  "resolution_recorded r s =
     s\<lparr> st_generated := st_generated s + 1, st_resolutions := st_resolutions s @ [r] \<rparr>"

lemma insert_resolution_cases:
  assumes "insert_resolution f credential key hash resolution merchant allocated remainder now s = Inr (v, s')"
  obtains (recorded) "v = None" "\<not> list_ex (same_request (oc_key_id credential) key) (st_resolutions s)"
      "s' = resolution_recorded (resolution_entry (st_now_v7 s (st_generated s)) credential key hash resolution
         merchant allocated remainder now) s"
  | (replayed) result where "v = Some result" "s' = s"
      "load_resolution f (oc_key_id credential) key hash True s = Inr (result, s)"
  using assms
  by (auto simp: insert_resolution_def resolution_recorded_def tx_simps split: if_splits
      dest: load_resolution_reads)

lemma record_admin_audit_effect:
  "record_admin_audit credential resolution i s = Inr (u, s') \<Longrightarrow> \<exists>a. s' = s\<lparr> st_audit := a \<rparr>"
  by (auto simp: record_admin_audit_def tx_simps)

text \<open>An operator's payment is a settlement whose allocation and decision carry the operator's name.\<close>

definition relabelled :: "settlement_command \<Rightarrow> string \<Rightarrow> string \<Rightarrow> store \<Rightarrow> store" where
  "relabelled command actor reason s =
     s\<lparr> st_allocations := sql_update
          (\<lambda>a. al_attempt_id a = sc_attempt_id command \<and> al_transfer_id a = sc_transfer_id command)
          (\<lambda>a. a\<lparr> al_allocated_by := actor, al_reason := ''manual'' \<rparr>) (st_allocations s),
        st_decisions := sql_update
          (\<lambda>d. de_payment_intent_id d = sc_payment_intent_id command \<and> de_transfer_id d = sc_transfer_id command)
          (\<lambda>d. d\<lparr> de_decided_by := actor, de_decided_reason := Some reason \<rparr>) (st_decisions s) \<rparr>"

lemma manual_allocate_effect:
  assumes "manual_allocate_and_finish command x r outcome actor reason now s = Inr (rec, s')"
    and "rec \<noteq> SR_ForeignClaim" "rec \<noteq> SR_AlreadyProcessed"
  obtains s1 where "allocate_and_finish command x r outcome now s = Inr (rec, s1)"
    "s' = relabelled command actor reason s1"
  using assms by (auto simp: manual_allocate_and_finish_def relabelled_def tx_simps split: if_splits)

lemma sql_sum_relabelled:
  "sql_sum al_allocated_raw (\<lambda>a. al_transfer_id a = t)
     (sql_update P (\<lambda>a. a\<lparr> al_allocated_by := actor, al_reason := why \<rparr>) als) =
   sql_sum al_allocated_raw (\<lambda>a. al_transfer_id a = t) als"
  "sql_sum al_allocated_raw (\<lambda>a. al_attempt_id a = t)
     (sql_update P (\<lambda>a. a\<lparr> al_allocated_by := actor, al_reason := why \<rparr>) als) =
   sql_sum al_allocated_raw (\<lambda>a. al_attempt_id a = t) als"
  by (simp_all add: sql_sum_update)

lemma ledger_ok_relabelled:
  "ledger_ok trs prs (sql_update P (\<lambda>a. a\<lparr> al_allocated_by := actor, al_reason := why \<rparr>) als) =
     ledger_ok trs prs als"
  by (simp only: ledger_ok_def sql_sum_relabelled)

lemma bound_ok_relabelled:
  assumes "bound_ok trs prs cls ats als"
  shows "bound_ok trs prs cls ats (sql_update P (\<lambda>a. a\<lparr> al_allocated_by := actor, al_reason := why \<rparr>) als)"
  unfolding bound_ok_def
proof
  fix b assume "b \<in> set (sql_update P (\<lambda>a. a\<lparr> al_allocated_by := actor, al_reason := why \<rparr>) als)"
  then obtain a where a: "a \<in> set als"
    "b = (if P a then a\<lparr> al_allocated_by := actor, al_reason := why \<rparr> else a)" by (auto simp: in_sql_update)
  have b: "al_allocated_raw b = al_allocated_raw a" "al_transfer_id b = al_transfer_id a"
    "al_payment_intent_id b = al_payment_intent_id a" "al_attempt_id b = al_attempt_id a"
    "al_collector_address_id b = al_collector_address_id a" using a(2) by simp_all
  show "0 < al_allocated_raw b \<and> (\<exists>p\<in>set prs. pr_transfer_id p = al_transfer_id b) \<and>
      (\<exists>c\<in>set cls. cm_transfer_id c = al_transfer_id b \<and> cm_payment_intent_id c = al_payment_intent_id b) \<and>
      (\<exists>t\<in>set trs. tr_id t = al_transfer_id b \<and> tr_collector_address_id t = al_collector_address_id b) \<and>
      (\<exists>x\<in>set ats. at_id x = al_attempt_id b \<and> at_payment_intent_id x = al_payment_intent_id b \<and>
        at_collector_address_id x = al_collector_address_id b)"
    unfolding b using assms a(1) unfolding bound_ok_def by blast
qed

lemma claims_ok_ids:
  "claims_ok cls als \<longleftrightarrow> (\<forall>c\<in>set cls. cm_transfer_id c \<in> set (map al_transfer_id als))"
proof -
  have "(\<exists>a\<in>set als. al_transfer_id a = x) \<longleftrightarrow> x \<in> set (map al_transfer_id als)" for x by auto
  then show ?thesis by (simp only: claims_ok_def)
qed

lemma claims_ok_relabelled:
  "claims_ok cls (sql_update P (\<lambda>a. a\<lparr> al_allocated_by := actor, al_reason := why \<rparr>) als) = claims_ok cls als"
  by (simp add: claims_ok_ids map_sql_update del: set_map)

lemma exact_inv_relabelled:
  assumes "exact_inv s"
  shows "exact_inv (relabelled command actor reason s)"
proof -
  have m: "money_inv s" using assms by (simp add: exact_inv_def)
  note invs = money_invD [OF m]
  have "keys_ok (relabelled command actor reason s)"
    using invs(1) by (simp add: relabelled_def keys_ok_def map_sql_update)
  then have "money_inv (relabelled command actor reason s)"
    unfolding money_inv_def using invs
    by (simp add: relabelled_def ledger_ok_relabelled bound_ok_relabelled claims_ok_relabelled)
  moreover have "obligation_ok (relabelled command actor reason s) = obligation_ok s"
    by (simp add: obligation_ok_def attempt_allocated_def relabelled_def sql_sum_relabelled)
  ultimately show ?thesis using assms by (simp add: exact_inv_def)
qed

text \<open>Tables that do not concern money.\<close>

lemma exact_inv_frame [simp]:
  "exact_inv (s\<lparr> st_generated := g \<rparr>) = exact_inv s"
  "exact_inv (s\<lparr> st_resolutions := r \<rparr>) = exact_inv s"
  "exact_inv (s\<lparr> st_audit := au \<rparr>) = exact_inv s"
  "exact_inv (s\<lparr> st_dispositions := od \<rparr>) = exact_inv s"
  "exact_inv (s\<lparr> st_proposals := hp \<rparr>) = exact_inv s"
  "exact_inv (resolution_recorded row s) = exact_inv s"
  by (simp_all add: exact_inv_def obligation_ok_def attempt_allocated_def resolution_recorded_def)

text \<open>
  A successful honor either answers a replay, or found the transfer parked and the plan
  exact, recorded the resolution, and moved the planned amount.
\<close>

lemma honor_transfer_cases:
  assumes "u256_text d f" "honor_transfer f credential key hash resolution now s = Inr (v, s')"
  obtains (replayed) "s' = s" "load_resolution f (oc_key_id credential) key hash True s = Inr (v, s)"
  | (paid) intent_id attempt_id attempt transfer plan row rec s1 audit where
      "honor_planned resolution intent_id attempt_id attempt transfer plan s"
      "\<not> list_ex (same_request (oc_key_id credential) key) (st_resolutions s)"
      "row = resolution_entry (st_now_v7 s (st_generated s)) credential key hash resolution
         (Some (mh_merchant_id (hl_row plan))) (Some (hl_allocate plan))
         (if raw_is_zero (hl_remainder plan) then None else Some (hl_remainder plan)) now"
      "allocate_and_finish (honor_command resolution intent_id attempt_id plan) (hl_allocate plan)
         (hl_remainder plan) (hl_outcome_name plan) now (resolution_recorded row s) = Inr (rec, s1)"
      "rec \<noteq> SR_ForeignClaim" "rec \<noteq> SR_AlreadyProcessed"
      "s' = (relabelled (honor_command resolution intent_id attempt_id plan) (oc_label credential)
         (rn_reason resolution) s1)\<lparr> st_audit := audit \<rparr>"
      "load_resolution f (oc_key_id credential) key hash False s' = Inr (v, s')"
proof -
  from assms(2) obtain intent_id attempt_id plan s0 replay s2 where
    ids: "rn_payment_intent_id resolution = Some intent_id" "rn_attempt_id resolution = Some attempt_id"
    and plan: "plan_honor f resolution s = Inr (plan, s0)"
    and ins: "insert_resolution f credential key hash resolution (Some (mh_merchant_id (hl_row plan)))
      (Some (hl_allocate plan)) (if raw_is_zero (hl_remainder plan) then None else Some (hl_remainder plan))
      now s0 = Inr (replay, s2)"
    and rest: "(case replay of Some replay \<Rightarrow> tx_return replay
     | None \<Rightarrow>
       tx_bind (tx_map_err honor_refused (manual_allocate_and_finish
         (honor_command resolution intent_id attempt_id plan) (hl_allocate plan) (hl_remainder plan)
         (hl_outcome_name plan) (oc_label credential) (rn_reason resolution) now)) (\<lambda>record.
       if record = SR_ForeignClaim \<or> record = SR_AlreadyProcessed then tx_fail OE_ManualResolutionConflict
       else
         tx_then (record_admin_audit credential resolution intent_id)
         (load_resolution f (oc_key_id credential) key hash False))) s2 = Inr (v, s')"
    unfolding honor_transfer_def by (auto simp: tx_simps result_simps)
  obtain i' a' attempt transfer where s0: "s0 = s" and pl: "honor_planned resolution i' a' attempt transfer plan s"
    by (rule plan_honor_exact [OF assms(1) plan])
  have ia: "i' = intent_id" "a' = attempt_id" using pl ids by (simp_all add: honor_planned_def)
  show ?thesis
  proof (cases rule: insert_resolution_cases [OF ins, case_names recorded again])
    case (again result)
    with rest replayed show ?thesis by (simp add: s0 tx_simps)
  next
    case recorded
    let ?c = "honor_command resolution intent_id attempt_id plan"
    from rest recorded(1) obtain rec s3 s4 s5 where
      m: "manual_allocate_and_finish ?c (hl_allocate plan) (hl_remainder plan) (hl_outcome_name plan)
        (oc_label credential) (rn_reason resolution) now s2 = Inr (rec, s3)"
      and rec: "rec \<noteq> SR_ForeignClaim" "rec \<noteq> SR_AlreadyProcessed"
      and au: "record_admin_audit credential resolution intent_id s3 = Inr ((), s4)"
      and ld: "load_resolution f (oc_key_id credential) key hash False s4 = Inr (v, s')"
      by (auto simp: tx_simps split: if_splits)
    obtain s1 where al: "allocate_and_finish ?c (hl_allocate plan) (hl_remainder plan) (hl_outcome_name plan) now s2
        = Inr (rec, s1)" and s3: "s3 = relabelled ?c (oc_label credential) (rn_reason resolution) s1"
      by (rule manual_allocate_effect [OF m rec])
    obtain audit where s4: "s4 = s3\<lparr> st_audit := audit \<rparr>" using record_admin_audit_effect [OF au] ..
    have s': "s' = s4" by (rule load_resolution_reads [OF ld])
    show ?thesis
      by (rule paid [OF pl [unfolded ia] recorded(2) [unfolded s0] refl])
        (use al rec ld s' recorded(3) in \<open>simp_all add: s4 s3 s0\<close>)
  qed
qed

lemma parked_open: "parked_state state \<Longrightarrow> open_state state"
  by (auto simp: parked_state_def open_state_def)

lemma honor_transfer_exact:
  assumes "u256_text d f" "exact_inv s" "honor_transfer f credential key hash resolution now s = Inr (v, s')"
  shows "exact_inv s'"
proof (cases rule: honor_transfer_cases [OF assms(1,3), case_names replayed paid])
  case replayed
  with assms(2) show ?thesis by simp
next
  case (paid intent_id attempt_id attempt transfer plan row rec s1 audit)
  let ?c = "honor_command resolution intent_id attempt_id plan" and ?r = "resolution_recorded row s"
  have c: "sc_transfer_id ?c = rn_transfer_id resolution" "sc_attempt_id ?c = attempt_id"
    by (simp_all add: honor_command_def)
  have tables: "st_processing ?r = st_processing s" "st_attempts ?r = st_attempts s"
    "attempt_allocated a ?r = attempt_allocated a s" for a
    by (simp_all add: resolution_recorded_def attempt_allocated_def)
  note pl = paid(1) [unfolded honor_planned_def]
  have inv: "money_inv ?r" "obligation_ok ?r" using assms(2) exact_inv_frame(6) by (auto simp: exact_inv_def)
  have op: "open_transfer (sc_transfer_id ?c) ?r"
    using pl parked_open unfolding open_transfer_def c tables by blast
  obtain a where al: "find (\<lambda>a. at_id a = sc_attempt_id ?c) (st_attempts ?r) = Some a"
    "rows_affected (open_attempt ?c) (st_attempts ?r) = 1"
    "s1 = allocated_store ?c a (hl_allocate plan) (hl_remainder plan) (hl_outcome_name plan) now ?r"
    by (rule allocate_and_finish_open [OF inv(1) op paid(4)])
  have "a = attempt" using al(1) pl by (simp add: c tables)
  then have "obligation_ok s1"
    unfolding al(3)
    by (intro obligation_allocated [OF inv(2) _ al(1) _ _ al(2)])
      (use pl money_invD(1) [OF inv(1)] in \<open>auto simp: c tables keys_ok_def\<close>)
  moreover have "money_inv s1" by (rule allocate_and_finish_keeps [OF inv(1) op paid(4)])
  ultimately have "exact_inv s1" by (simp add: exact_inv_def)
  then show ?thesis unfolding paid(7) by (simp add: exact_inv_relabelled)
qed

text \<open>Closing transfers moves no money, whatever the transfers.\<close>

lemma exact_inv_closed:
  assumes "exact_inv s" "\<And>p. pr_transfer_id (f p) = pr_transfer_id p" "\<And>p. pr_allocated_raw (f p) = pr_allocated_raw p"
    and "\<And>p. \<not> open_state (pr_state (f p))"
  shows "exact_inv (s\<lparr> st_processing := sql_update P f (st_processing s) \<rparr>)" (is "exact_inv ?s")
proof -
  have "money_inv s" using assms(1) by (simp add: exact_inv_def)
  then have "money_inv ?s" by (rule money_inv_processing) (simp_all add: assms(2-4))
  moreover have "obligation_ok ?s = obligation_ok s" by (rule obligation_frame) simp_all
  ultimately show ?thesis using assms(1) by (simp add: exact_inv_def)
qed

lemma close_keeps_exact [tx_keeps_intros]:
  "tx_keeps exact_inv (set_processing t ''resolved'' reason now)"
  "exact_inv s \<Longrightarrow> exact_inv (s\<lparr> st_processing := sql_update (close_matched t)
     (\<lambda>p. p\<lparr> pr_state := ''resolved'', pr_last_error := None, pr_version := pr_version p + 1, pr_updated_at := now \<rparr>)
     (st_processing s) \<rparr>)"
  by (rule tx_keepsI, drule set_processing_effect, hypsubst, rule exact_inv_closed, simp_all add: open_state_def)
    (rule exact_inv_closed, simp_all add: open_state_def)

lemma record_keeps_exact [tx_keeps_intros]:
  "tx_keeps exact_inv (load_resolution f operator key hash b)"
  "tx_keeps exact_inv (insert_resolution f credential key hash resolution merchant allocated remainder now)"
  "tx_keeps exact_inv (record_admin_audit credential resolution i)"
  "tx_keeps exact_inv (insert_disposition credential resolution rid i m r disposition now)"
  unfolding load_resolution_def insert_resolution_def record_admin_audit_def insert_disposition_def Let_def
  by (intro tx_keeps_intros; simp)+

lemma honor_keeps_exact:
  "u256_text d f \<Longrightarrow> tx_keeps exact_inv (honor_transfer f credential key hash resolution now)"
  by (rule tx_keepsI) (rule honor_transfer_exact)

lemma tx_keeps_case_action [tx_keeps_intros]:
  "tx_keeps I a \<Longrightarrow> tx_keeps I b \<Longrightarrow> tx_keeps I c \<Longrightarrow>
     tx_keeps I (case action of MRA_Honor \<Rightarrow> a | MRA_Reject \<Rightarrow> b | MRA_RecordRemainderDisposition \<Rightarrow> c)"
  by (cases action) simp_all

lemma resolve_manual_exact:
  assumes "u256_text d f"
  shows "tx_keeps exact_inv (resolve_manual_tx f credential key hash resolution now)"
  unfolding resolve_manual_tx_def reject_transfer_def record_external_disposition_def
  by (intro tx_keeps_intros honor_keeps_exact [OF assms])

section \<open>Honors by two operators\<close>

lemma proposal_audit_effect:
  "proposal_audit operator m action i reason p s = Inr (u, s') \<Longrightarrow> \<exists>a. s' = s\<lparr> st_audit := a \<rparr>"
  by (auto simp: proposal_audit_def tx_simps)

lemma proposals_keep_exact [tx_keeps_intros]:
  "tx_keeps exact_inv (proposal_audit operator m action i reason p)"
  "tx_keeps exact_inv (expire_proposals t now)"
  "tx_keeps exact_inv (approve_row i approver key reason now r)"
  "tx_keeps exact_inv (locked_proposal i)"
  "tx_keeps exact_inv (plan_honor f resolution)"
  unfolding proposal_audit_def expire_proposals_def approve_row_def locked_proposal_def plan_honor_def
  by (intro tx_keeps_intros; simp)+

lemma propose_honor_exact:
  "tx_keeps exact_inv (propose_honor_tx f proposer key hash resolution threshold now expires_at)"
  unfolding propose_honor_tx_def
  by (cases "rn_action resolution"; cases "rn_payment_intent_id resolution"; cases "rn_attempt_id resolution";
      cases "rn_allocate_raw resolution"; simp only: prod.case option.case manual_resolution_action.case;
      intro tx_keeps_intros; simp)

lemma approve_honor_exact:
  assumes "u256_text d f"
  shows "tx_keeps exact_inv (approve_honor_tx f approver i key reason now)"
  unfolding approve_honor_tx_def by (intro tx_keeps_intros honor_keeps_exact [OF assms])

lemma reject_honor_exact: "tx_keeps exact_inv (reject_honor_tx operator i key reason now)"
  unfolding reject_honor_tx_def by (intro tx_keeps_intros; simp)

text \<open>The calls of the operator service that decide about money, each one a transaction.\<close>

inductive operator_step ::
  "(string \<Rightarrow> u256 option) \<Rightarrow> (byte list \<Rightarrow> byte list) \<Rightarrow> (u256 \<Rightarrow> string) \<Rightarrow> (uuid \<Rightarrow> string)
     \<Rightarrow> (instant \<Rightarrow> int \<Rightarrow> instant option) \<Rightarrow> honor_approval_policy \<Rightarrow> store \<Rightarrow> store \<Rightarrow> bool"
  for f sha256 display_u256 display_uuid add_secs policy where
  resolves: "service_resolve_manual f sha256 display_u256 display_uuid policy credential key resolution s = (out, s') \<Longrightarrow>
     operator_step f sha256 display_u256 display_uuid add_secs policy s s'"
| proposes: "service_propose_honor f sha256 display_u256 display_uuid add_secs policy credential key resolution s = (out', s') \<Longrightarrow>
     operator_step f sha256 display_u256 display_uuid add_secs policy s s'"
| approves: "service_approve_honor f credential i key reason s = (out, s') \<Longrightarrow>
     operator_step f sha256 display_u256 display_uuid add_secs policy s s'"
| rejects: "service_reject_honor f credential i key reason s = (out', s') \<Longrightarrow>
     operator_step f sha256 display_u256 display_uuid add_secs policy s s'"

lemma converted_keeps:
  assumes "tx_keeps I m" "I s" "converted f (tx_run m s) = (out, s')"
  shows "I s'"
  using tx_keeps_run [OF assms(1,2), of "fst (tx_run m s)" s'] assms(3) by (auto simp: converted_def)

lemma service_exact:
  assumes "u256_text d f" "exact_inv s"
  shows "service_resolve_manual f sha256 display_u256 display_uuid policy credential key resolution s = (out, s') \<Longrightarrow> exact_inv s'"
    "service_propose_honor f sha256 display_u256 display_uuid add_secs policy credential key resolution s = (out', s') \<Longrightarrow> exact_inv s'"
    "service_approve_honor f credential i key reason s = (out, s') \<Longrightarrow> exact_inv s'"
    "service_reject_honor f credential i key reason s = (out', s') \<Longrightarrow> exact_inv s'"
proof -
  show "service_resolve_manual f sha256 display_u256 display_uuid policy credential key resolution s = (out, s') \<Longrightarrow> exact_inv s'"
    using tx_keeps_run [OF resolve_manual_exact [OF assms(1)] assms(2)] assms(2)
    by (auto simp: service_resolve_manual_def pg_resolve_manual_def split: sum.splits)
  show "service_propose_honor f sha256 display_u256 display_uuid add_secs policy credential key resolution s = (out', s') \<Longrightarrow> exact_inv s'"
    using converted_keeps [OF propose_honor_exact assms(2)] assms(2)
    by (auto simp: service_propose_honor_def pg_propose_honor_def split: sum.splits)
  show "service_approve_honor f credential i key reason s = (out, s') \<Longrightarrow> exact_inv s'"
    using tx_keeps_run [OF approve_honor_exact [OF assms(1)] assms(2)] assms(2)
    by (auto simp: service_approve_honor_def pg_approve_honor_def split: sum.splits)
  show "service_reject_honor f credential i key reason s = (out', s') \<Longrightarrow> exact_inv s'"
    using converted_keeps [OF reject_honor_exact assms(2)] assms(2)
    by (auto simp: service_reject_honor_def pg_reject_honor_def split: sum.splits)
qed

lemma operator_step_exact:
  "operator_step f sha256 display_u256 display_uuid add_secs policy s s' \<Longrightarrow> u256_text d f \<Longrightarrow> exact_inv s \<Longrightarrow> exact_inv s'"
  by (induction rule: operator_step.induct) (rule service_exact, assumption+)+

end
