(* ===== verification/Operator_Control.thy ===== *)
theory Operator_Control
  imports Operator_Money
begin

text \<open>
  How operators are held to account: a request answered once is answered the same way for
  ever, a large honor needs two different keys and is decided once, and whatever operators
  do keeps the books. Also the composition of an operator's honor with a settlement that
  was decided before it: the settlement transaction does not look at the obligation again.
\<close>

section \<open>Replayed requests\<close>

lemma load_resolution_replay:
  assumes "load_resolution f k key hash b s = Inr (v, s')"
  shows "load_resolution f k key hash True s = Inr (v\<lparr> mt_replayed := True \<rparr>, s)"
    "list_ex (same_request k key) (st_resolutions s)"
    "hash' \<noteq> hash \<Longrightarrow> load_resolution f k key hash' True s = Inl (OE_Repository IdempotencyConflict)"
  using assms
  by (auto simp: load_resolution_def tx_simps tx_read_def result_simps bind_result_def ok_or_def list_ex_iff
      split: if_splits sum.splits option.splits dest: find_SomeD)

text \<open>Whatever a resolution does, in the end its record is loaded.\<close>

lemma reject_transfer_loads:
  "reject_transfer f credential key hash resolution now s = Inr (v, s') \<Longrightarrow>
     \<exists>b. load_resolution f (oc_key_id credential) key hash b s' = Inr (v, s')"
  unfolding reject_transfer_def insert_resolution_def
  by (auto simp: tx_simps result_simps bind_eq_Some_conv split: if_splits; frule load_resolution_reads; blast)

lemma record_external_disposition_loads:
  "record_external_disposition f credential key hash resolution now s = Inr (v, s') \<Longrightarrow>
     \<exists>b. load_resolution f (oc_key_id credential) key hash b s' = Inr (v, s')"
  unfolding record_external_disposition_def insert_resolution_def
  by (auto simp: tx_simps result_simps split: if_splits; frule load_resolution_reads; blast)

lemma resolve_manual_loads:
  assumes "u256_text d f" "resolve_manual_tx f credential key hash resolution now s = Inr (v, s')"
  shows "\<exists>b. load_resolution f (oc_key_id credential) key hash b s' = Inr (v, s')"
proof (cases "list_ex (same_request (oc_key_id credential) key) (st_resolutions s)")
  case True
  with assms(2) have "load_resolution f (oc_key_id credential) key hash True s = Inr (v, s')"
    by (auto simp: resolve_manual_tx_def tx_simps)
  with load_resolution_reads [OF this] show ?thesis by blast
next
  case False
  with assms(2) show ?thesis
    by (auto simp: resolve_manual_tx_def tx_simps split: manual_resolution_action.splits
        dest: reject_transfer_loads record_external_disposition_loads elim!: honor_transfer_cases [OF assms(1)])
qed

section \<open>Sample requests\<close>

definition sample_credential :: "uuid \<Rightarrow> string \<Rightarrow> operator_credential" where
  "sample_credential i label = \<lparr> oc_key_id = i, oc_label = label, oc_scopes = [OS_Read, OS_Admin] \<rparr>"

definition sample_threshold :: "raw_amount \<Rightarrow> honor_approval_policy" where
  "sample_threshold amount = \<lparr> ha_dual_control_min_raw = amount \<rparr>"

definition zero_digest :: "byte list \<Rightarrow> byte list" where
  "zero_digest m = replicate 32 0"

text \<open>The sample transfers, held for an operator.\<close>

definition parked_store :: "transfer_row list \<Rightarrow> store" where
  "parked_store transfers = (sample_store transfers)\<lparr> st_processing :=
     map (\<lambda>t. (sample_processing (tr_id t))\<lparr> pr_state := ''held'' \<rparr>) transfers \<rparr>"

lemma parked_exact:
  assumes "distinct (map tr_id transfers)"
  shows "exact_inv (parked_store transfers)"
  using assms
  by (auto simp: exact_inv_def money_inv_def keys_ok_def ledger_ok_def open_ok_def bound_ok_def claims_ok_def
      paid_ok_def obligation_ok_def attempt_allocated_def sample_defs fulfilled_def comp_def parked_store_def)

lemma trim_sample: "str_trim ''late but accepted'' = ''late but accepted''" by code_simp

lemma nat_str_zero: "trim_start_matches (CHR ''0'') (nat_str 0) = []" by code_simp

lemma parse_sample:
  "parse_raw ref_u256_from_str (nat_str 1000) = Inr 1000"
  "parse_raw ref_u256_from_str (nat_str 400) = Inr 400"
  "parse_raw_allow_zero ref_u256_from_str (nat_str 0) = Inr 0"
  using parse_raw_nat [OF ref_text.u256_text_axioms, of _ 1000] parse_raw_nat [OF ref_text.u256_text_axioms, of _ 400]
  by (simp_all add: nat_str_zero parse_raw_allow_zero_def raw_ZERO_def)

lemmas honor_eval = settle_eval honor_transfer_def plan_honor_def honor_row_def honor_columns_def parked_state_def
  honor_is_bound_def honor_amounts_def raw_positive_def checked_sub_def attempt_allocated_def
  bind_result_def ok_or_def map_err_def insert_resolution_def resolution_entry_def resolution_row_ok_def
  resolution_refers_def char_between_def operator_key_exists_def same_request_def
  manual_allocate_and_finish_def honor_command_def record_admin_audit_def load_resolution_def
  action_parse_def parse_opt_raw_def char_count_def btrim_def trim_start_matches_def trim_end_matches_def
  parse_sample manual_resolution_action_as_str_def

lemmas request_eval = require_scope_def credential_allows_def operator_key_ok_def idempotency_key_ok_def
  is_ascii_alphanumeric_def is_ascii_lowercase_def is_ascii_uppercase_def is_ascii_digit_def
  validate_reason_def trim_sample validate_manual_resolution_def honor_shape_def some_nonzero_def
  requires_second_operator_def manual_resolution_hash_def request_digest_def zero_digest_def
  sample_resolution_def sample_credential_def sample_threshold_def parked_store_def

lemma sample_honored:
  "\<exists>v. fst (service_resolve_manual ref_u256_from_str zero_digest ref_display_u256 ref_display_uuid
     (sample_threshold 5000) (sample_credential 21 ''alice'') ''honor-request-01'' (sample_resolution 7 1000)
     (parked_store [sample_inbound 7 1000])) = Inr v"
  by (simp add: service_resolve_manual_def pg_resolve_manual_def resolve_manual_tx_def request_eval honor_eval sample_defs)

section \<open>Properties\<close>

text \<open>What operators do keeps the books. A direct resolution (honor, rejection or recorded
  disposition of a remainder), a proposed honor, an approval and a refusal, with any
  credential and any request, leave a store whose ledgers, claims and payments are
  consistent and in which no attempt is allocated more than it asked for and every settled
  attempt exactly that.\<close>

theorem operator_keeps_exact:
  assumes "u256_text d f" "exact_inv s" "operator_step f sha256 display_u256 display_uuid add_secs policy s s'"
  shows "exact_inv s'"
  by (rule operator_step_exact [OF assms(3,1,2)])

theorem operator_keeps_exact_witness:
  "exact_inv (snd (service_resolve_manual ref_u256_from_str zero_digest ref_display_u256 ref_display_uuid
     (sample_threshold 5000) (sample_credential 21 ''alice'') ''honor-request-01'' (sample_resolution 7 1000)
     (parked_store [sample_inbound 7 1000])))"
proof (rule operator_keeps_exact [OF ref_text.u256_text_axioms])
  show "exact_inv (parked_store [sample_inbound 7 1000])" by (rule parked_exact) simp
  show "operator_step ref_u256_from_str zero_digest ref_display_u256 ref_display_uuid ref_add_secs
      (sample_threshold 5000) (parked_store [sample_inbound 7 1000])
      (snd (service_resolve_manual ref_u256_from_str zero_digest ref_display_u256 ref_display_uuid
        (sample_threshold 5000) (sample_credential 21 ''alice'') ''honor-request-01'' (sample_resolution 7 1000)
        (parked_store [sample_inbound 7 1000])))"
    by (rule operator_step.resolves [OF prod.collapse [symmetric]])
qed

lemma service_resolve_manual_runs:
  assumes "service_resolve_manual f sha256 display_u256 display_uuid policy credential key resolution s = (Inr v, s')"
  shows "credential_allows credential OS_Admin" "idempotency_key_ok key"
    "resolve_manual_tx f credential key (manual_resolution_hash sha256 display_u256 display_uuid resolution) resolution
       (st_now s) s = Inr (v, s')"
  using assms
  by (auto simp: service_resolve_manual_def pg_resolve_manual_def tx_run_Inr_iff require_scope_def
      operator_key_ok_def bind_result_def split: sum.splits if_splits)

lemma resolve_again:
  assumes "load_resolution f (oc_key_id credential) key hash b s = Inr (v, s)"
  shows "pg_resolve_manual f credential key hash resolution now s = (Inr (v\<lparr> mt_replayed := True \<rparr>), s)"
    "hash' \<noteq> hash \<Longrightarrow>
       pg_resolve_manual f credential key hash' resolution now s = (Inl (OE_Repository IdempotencyConflict), s)"
  using load_resolution_replay [OF assms]
  by (simp_all add: pg_resolve_manual_def resolve_manual_tx_def tx_run_def tx_bind_def tx_gets_def)

text \<open>C15: An answered resolution is final. Once a resolution was answered, sending the same request
  again under the same key answers the same result, marked as replayed, and changes
  nothing; a different request under that key is refused as a conflict, unless it has the
  same hash.\<close>

theorem resolve_manual_idempotent:
  assumes "u256_text d f"
    and "service_resolve_manual f sha256 display_u256 display_uuid policy credential key resolution s = (Inr v, s')"
    and "validate_reason (rn_reason resolution') = Inr ()" "validate_manual_resolution resolution' = Inr ()"
    and "rn_action resolution' = MRA_Honor \<longrightarrow>
      \<not> requires_second_operator policy (the (rn_allocate_raw resolution'))"
  shows "service_resolve_manual f sha256 display_u256 display_uuid policy credential key resolution' s' =
    (if manual_resolution_hash sha256 display_u256 display_uuid resolution' =
        manual_resolution_hash sha256 display_u256 display_uuid resolution
     then Inr (v\<lparr> mt_replayed := True \<rparr>) else Inl (OE_Repository IdempotencyConflict), s')"
proof -
  let ?h = "manual_resolution_hash sha256 display_u256 display_uuid"
  note run = service_resolve_manual_runs [OF assms(2)]
  obtain b where ld: "load_resolution f (oc_key_id credential) key (?h resolution) b s' = Inr (v, s')"
    using resolve_manual_loads [OF assms(1) run(3)] ..
  have direct: "\<not> (rn_action resolution' = MRA_Honor \<and>
      (case rn_allocate_raw resolution' of None \<Rightarrow> False | Some amount \<Rightarrow> requires_second_operator policy amount))"
    using assms(5) by (auto split: option.splits)
  have "service_resolve_manual f sha256 display_u256 display_uuid policy credential key resolution' s' =
      pg_resolve_manual f credential key (?h resolution') resolution' (st_now s') s'"
    using run(1,2) assms(3,4) direct
    by (auto simp: service_resolve_manual_def require_scope_def operator_key_ok_def bind_result_def)
  with resolve_again [OF ld] show ?thesis by auto
qed

theorem resolve_manual_idempotent_witness:
  "\<exists>v s'. service_resolve_manual ref_u256_from_str zero_digest ref_display_u256 ref_display_uuid (sample_threshold 5000)
     (sample_credential 21 ''alice'') ''honor-request-01'' (sample_resolution 7 1000)
     (parked_store [sample_inbound 7 1000]) = (Inr v, s') \<and>
   service_resolve_manual ref_u256_from_str zero_digest ref_display_u256 ref_display_uuid (sample_threshold 5000)
     (sample_credential 21 ''alice'') ''honor-request-01'' (sample_resolution 7 1000) s' =
     (Inr (v\<lparr> mt_replayed := True \<rparr>), s')"
proof -
  let ?serve = "service_resolve_manual ref_u256_from_str zero_digest ref_display_u256 ref_display_uuid
    (sample_threshold 5000) (sample_credential 21 ''alice'') ''honor-request-01'' (sample_resolution 7 1000)"
  let ?s = "parked_store [sample_inbound 7 1000]"
  obtain v where "fst (?serve ?s) = Inr v" using sample_honored by blast
  then have run: "?serve ?s = (Inr v, snd (?serve ?s))" by (simp add: prod_eq_iff)
  have "validate_reason (rn_reason (sample_resolution 7 1000)) = Inr ()"
    "validate_manual_resolution (sample_resolution 7 1000) = Inr ()"
    "\<not> requires_second_operator (sample_threshold 5000) (the (rn_allocate_raw (sample_resolution 7 1000)))"
    by (simp_all add: request_eval raw_is_zero_def)
  with resolve_manual_idempotent [OF ref_text.u256_text_axioms run, of "sample_resolution 7 1000"] run
  show ?thesis by (intro exI [of _ v] exI [of _ "snd (?serve ?s)"]) simp
qed

section \<open>Dual control\<close>

lemma allocated_store_proposals [simp]:
  "st_proposals (allocated_store command attempt x r outcome now s) = st_proposals s"
  by (simp add: allocated_store_def Let_def advanced_def money_moved_def)

lemma honor_transfer_proposals:
  assumes "u256_text d f" "money_inv s" "honor_transfer f credential key hash resolution now s = Inr (v, s')"
  shows "st_proposals s' = st_proposals s"
proof (cases rule: honor_transfer_cases [OF assms(1,3), case_names replayed paid])
  case (paid intent_id attempt_id attempt transfer plan row rec s1 audit)
  let ?c = "honor_command resolution intent_id attempt_id plan" and ?r = "resolution_recorded row s"
  have inv: "money_inv ?r" using assms(2) by (simp add: resolution_recorded_def)
  have op: "open_transfer (sc_transfer_id ?c) ?r"
    using paid(1) parked_open by (auto simp: honor_planned_def open_transfer_def honor_command_def resolution_recorded_def)
  obtain a where "s1 = allocated_store ?c a (hl_allocate plan) (hl_remainder plan) (hl_outcome_name plan) now ?r"
    by (rule allocate_and_finish_open [OF inv op paid(4)])
  then show ?thesis by (simp add: paid(7) relabelled_def resolution_recorded_def)
qed simp

lemma parse_status_pending: "proposal_status_parse t = Inr PS_Pending \<longleftrightarrow> t = ''pending''"
  by (auto simp: proposal_status_parse_def)

lemma approve_honor_cases:
  assumes "u256_text d f" "money_inv s" "approve_honor_tx f approver i key reason now s = Inr (v, s')"
  obtains (replayed) "s' = s"
  | (decided) p where "find (\<lambda>r. hp_id r = i) (st_proposals s) = Some p"
      "oc_key_id approver \<noteq> hp_proposer_key_id p" "hp_status p = ''pending''" "now < hp_expires_at p"
      "st_proposals s' = sql_update (\<lambda>r. hp_id r = i) (approved_row approver key reason now (mt_id v)) (st_proposals s)"
proof -
  let ?spent = "map_option mr_id (find (same_request (oc_key_id approver) key) (st_resolutions s))"
  show ?thesis
  proof (cases ?spent)
    case (Some resolution_id)
    with assms(3) have "s' = s"
      by (auto simp: approve_honor_tx_def locked_proposal_def tx_simps result_simps split: if_splits
          dest: load_resolution_reads)
    then show ?thesis by (rule replayed)
  next
    case None
    with assms(3) obtain p hash allocate s1 s2 where
      p: "find (\<lambda>r. hp_id r = i) (st_proposals s) = Some p" "oc_key_id approver \<noteq> hp_proposer_key_id p"
        "proposal_status_parse (hp_status p) = Inr PS_Pending" "now < hp_expires_at p"
      and h: "honor_transfer f approver key hash (proposed_resolution p allocate) now s = Inr (v, s1)"
      and s2: "s2 = s1\<lparr> st_proposals := sql_update (\<lambda>r. hp_id r = i) (approved_row approver key reason now (mt_id v))
        (st_proposals s1) \<rparr>"
      and au: "proposal_audit approver (hp_merchant_id p) ''honor.approve'' i reason
        [(''transfer_id'', PV_Uuid (hp_transfer_id p)), (''proposed_by'', PV_Uuid (hp_proposer_key_id p)),
         (''resolution_id'', PV_Uuid (mt_id v)), (''allocated_raw'', PV_Number (hp_allocate_raw p))] s2 = Inr ((), s')"
      by (auto simp: approve_honor_tx_def approve_row_def locked_proposal_def tx_simps result_simps
          split: if_splits)
    have "st_proposals s' = st_proposals s2" using proposal_audit_effect [OF au] by auto
    with s2 honor_transfer_proposals [OF assms(1,2) h] p parse_status_pending show ?thesis
      by (intro decided [of p]) simp_all
  qed
qed

lemma approve_decided_nothing:
  assumes "find (\<lambda>r. hp_id r = i) (st_proposals s) = Some p" "hp_status p = ''approved''"
    and "service_approve_honor f approver i key reason s = (out, s')"
  shows "s' = s"
  using assms
  by (auto simp: service_approve_honor_def pg_approve_honor_def tx_run_def approve_honor_tx_def locked_proposal_def
      tx_bind_def tx_gets_def tx_read_def tx_fail_def ok_or_def map_err_def proposal_status_parse_def
      split: sum.splits if_splits option.splits dest: load_resolution_reads)

text \<open>C16: Large honors need two operators. A direct honor of an amount at or above the threshold
  is refused and changes nothing. An approval that changes anything found the proposal
  pending and not expired, was made with a key other than the proposer's, and leaves the
  proposal approved under its own key; from then on no approval of that proposal, with any
  key, changes anything.\<close>

theorem honor_needs_two_operators:
  assumes "u256_text d f" "money_inv s"
  shows "(rn_action resolution = MRA_Honor \<and> rn_allocate_raw resolution = Some amount \<and>
      requires_second_operator policy amount \<longrightarrow>
      (\<exists>e. service_resolve_manual f sha256 display_u256 display_uuid policy credential key resolution s = (Inl e, s))) \<and>
    (service_approve_honor f approver i key reason s = (out, s') \<and> s' \<noteq> s \<longrightarrow>
      (\<exists>p v. find (\<lambda>r. hp_id r = i) (st_proposals s) = Some p \<and> out = Inr v \<and> hp_status p = ''pending'' \<and>
        st_now s < hp_expires_at p \<and> oc_key_id approver \<noteq> hp_proposer_key_id p \<and>
        find (\<lambda>r. hp_id r = i) (st_proposals s') = Some (approved_row approver key reason (st_now s) (mt_id v) p) \<and>
        (\<forall>other key' reason'. snd (service_approve_honor f other i key' reason' s') = s')))"
proof (intro conjI impI)
  assume "rn_action resolution = MRA_Honor \<and> rn_allocate_raw resolution = Some amount \<and>
    requires_second_operator policy amount"
  then show "\<exists>e. service_resolve_manual f sha256 display_u256 display_uuid policy credential key resolution s = (Inl e, s)"
    by (auto simp: service_resolve_manual_def bind_result_def split: sum.splits)
next
  assume run: "service_approve_honor f approver i key reason s = (out, s') \<and> s' \<noteq> s"
  then obtain v where out: "out = Inr v" and tx: "approve_honor_tx f approver i key reason (st_now s) s = Inr (v, s')"
    by (auto simp: service_approve_honor_def pg_approve_honor_def tx_run_def split: sum.splits)
  show "\<exists>p v. find (\<lambda>r. hp_id r = i) (st_proposals s) = Some p \<and> out = Inr v \<and> hp_status p = ''pending'' \<and>
      st_now s < hp_expires_at p \<and> oc_key_id approver \<noteq> hp_proposer_key_id p \<and>
      find (\<lambda>r. hp_id r = i) (st_proposals s') = Some (approved_row approver key reason (st_now s) (mt_id v) p) \<and>
      (\<forall>other key' reason'. snd (service_approve_honor f other i key' reason' s') = s')"
  proof (cases rule: approve_honor_cases [OF assms tx, case_names replayed decided])
    case (decided p)
    have now: "find (\<lambda>r. hp_id r = i) (st_proposals s') = Some (approved_row approver key reason (st_now s) (mt_id v) p)"
      using decided(1) find_SomeD [OF decided(1)] unfolding decided(5)
      by (subst find_sql_update) (simp_all add: approved_row_def)
    have "snd (service_approve_honor f other i key' reason' s') = s'" for other key' reason'
      by (rule approve_decided_nothing [OF now _ prod.collapse [symmetric]]) (simp add: approved_row_def)
    with decided(1-4) now out show ?thesis by (intro exI [of _ p] exI [of _ v]) simp
  qed (use run in simp)
qed

lemmas proposal_eval = service_propose_honor_def pg_propose_honor_def propose_honor_tx_def expire_proposals_def
  proposal_entry_def proposal_row_ok_def proposal_unique_def proposal_refers_def proposal_audit_def
  HONOR_PROPOSAL_TTL_def service_approve_honor_def pg_approve_honor_def approve_honor_tx_def locked_proposal_def
  proposal_request_hash_def proposal_status_parse_def proposed_resolution_def approve_row_def approved_row_def
  converted_def ref_add_secs_def instant_min_def instant_max_def nanos_per_sec_def

definition sample_proposed :: store where
  "sample_proposed = snd (service_propose_honor ref_u256_from_str zero_digest ref_display_u256 ref_display_uuid
     ref_add_secs (sample_threshold 500) (sample_credential 21 ''alice'') ''honor-proposal-1'' (sample_resolution 7 1000)
     (parked_store [sample_inbound 7 1000]))"

lemma sample_approved:
  "\<exists>v. fst (service_approve_honor ref_u256_from_str (sample_credential 22 ''bob'') 100 ''honor-approval-1''
     ''late but accepted'' sample_proposed) = Inr v"
  unfolding sample_proposed_def
  by (simp add: request_eval honor_eval proposal_eval sample_defs)

lemma sample_approval_changes:
  "st_resolutions (snd (service_approve_honor ref_u256_from_str (sample_credential 22 ''bob'') 100 ''honor-approval-1''
     ''late but accepted'' sample_proposed)) \<noteq> st_resolutions sample_proposed"
  unfolding sample_proposed_def
  by (simp add: request_eval honor_eval proposal_eval sample_defs)

theorem honor_needs_two_operators_witness:
  "\<exists>e s'. service_resolve_manual ref_u256_from_str zero_digest ref_display_u256 ref_display_uuid (sample_threshold 500)
      (sample_credential 21 ''alice'') ''honor-request-01'' (sample_resolution 7 1000) sample_proposed = (Inl e, sample_proposed) \<and>
    s' = snd (service_approve_honor ref_u256_from_str (sample_credential 22 ''bob'') 100 ''honor-approval-1''
      ''late but accepted'' sample_proposed) \<and> s' \<noteq> sample_proposed \<and>
    snd (service_approve_honor ref_u256_from_str (sample_credential 23 ''carol'') 100 ''honor-approval-2''
      ''late but accepted'' s') = s'"
proof -
  let ?approve = "service_approve_honor ref_u256_from_str (sample_credential 22 ''bob'') 100 ''honor-approval-1''
    ''late but accepted'' sample_proposed"
  have "exact_inv (parked_store [sample_inbound 7 1000])" by (rule parked_exact) simp
  then have "exact_inv sample_proposed"
    unfolding sample_proposed_def by (rule service_exact(2) [OF ref_text.u256_text_axioms _ prod.collapse [symmetric]])
  then have inv: "money_inv sample_proposed" by (simp add: exact_inv_def)
  have ne: "snd ?approve \<noteq> sample_proposed" using sample_approval_changes by auto
  have amount: "rn_action (sample_resolution 7 1000) = MRA_Honor" "rn_allocate_raw (sample_resolution 7 1000) = Some 1000"
    "requires_second_operator (sample_threshold 500) 1000" by (simp_all add: request_eval)
  note two = honor_needs_two_operators [OF ref_text.u256_text_axioms inv]
  have direct: "\<exists>e. service_resolve_manual ref_u256_from_str zero_digest ref_display_u256 ref_display_uuid (sample_threshold 500)
      (sample_credential 21 ''alice'') ''honor-request-01'' (sample_resolution 7 1000) sample_proposed = (Inl e, sample_proposed)"
    using two amount by blast
  have "\<forall>other key' reason'. snd (service_approve_honor ref_u256_from_str other 100 key' reason' (snd ?approve)) = snd ?approve"
    using two [where approver = "sample_credential 22 ''bob''" and i = 100 and key = "''honor-approval-1''" and
        reason = "''late but accepted''" and out = "fst ?approve" and s' = "snd ?approve", THEN conjunct2] ne by auto
  with direct ne show ?thesis by blast
qed

end
