(* ===== verification/Stale_Decision.thy ===== *)
theory Stale_Decision
  imports Operator_Control
begin

text \<open>
  The composition of an operator's honor with the settlement service. The service reads the
  attempt, decides, and only then opens the settlement transaction, which locks the transfer
  but reads the obligation no more. A concrete run shows the consequence.
\<close>

text \<open>One order of \<open>1000\<close>: a transfer of the whole amount is pending, one of \<open>400\<close> is held.\<close>

definition race_store :: store where
  "race_store = (sample_store [sample_inbound 7 1000, sample_inbound 8 400])\<lparr> st_processing :=
     [sample_processing 7, (sample_processing 8)\<lparr> pr_state := ''held'' \<rparr>] \<rparr>"

definition race_snapshot :: attempt_snapshot where
  "race_snapshot = \<lparr> as_attempt_id = 3, as_payment_intent_id = 2, as_merchant_id = 1,
     as_currency = CurrencyCode ''USD'', as_fiat_amount_minor = 60, as_expected_amount_raw = 1000,
     as_allocated_raw = 0, as_status = AS_AwaitingPayment \<rparr>"

definition race_transfer :: pending_transfer where
  "race_transfer = \<lparr> pt_facts = \<lparr> tf_transfer_id = 7, tf_collector_address_id = 5, tf_amount_raw = 1000,
       tf_memo = None, tf_block_time = 100, tf_state = TS_Finalized \<rparr>,
     pt_independent_groups = 2, pt_had_own_node = True, pt_attestation_ids = [11, 12], pt_allocated_raw = 0 \<rparr>"

definition race_policy :: settlement_policy where
  "race_policy = \<lparr> sp_id = 9, sp_version = ''v1'', sp_tiers = [\<lparr> st_max_fiat_minor = 10000,
     st_min_independent_groups = 2, st_require_own_node = True, st_require_risk_allow = False, st_auto_settle = True \<rparr>] \<rparr>"

lemma race_snapshot_read: "pg_attempt_snapshot ref_u256_from_str 3 race_store = Inr (Some race_snapshot)"
proof -
  have "parse_amount ref_u256_from_str (nat_str 1000) = Inr 1000"
    using parse_amount_nat [OF ref_text.u256_text_axioms, of 1000 1000] by simp
  moreover have "parse_total ref_u256_from_str (nat_str 0) = Inr 0"
    by (simp add: parse_total_def nat_str_zero raw_ZERO_def)
  moreover have "currency_new ''USD'' = Inr (CurrencyCode ''USD'')" by code_simp
  moreover have "parse_status ''awaiting_payment'' = Inr AS_AwaitingPayment" by code_simp
  ultimately show ?thesis
    by (simp add: pg_attempt_snapshot_def race_store_def sample_defs attempt_allocated_def bind_result_def
        map_err_def race_snapshot_def)
qed

lemma race_policy_read: "pg_find_settlement_policy (CurrencyCode ''USD'') race_store = Inr (Some race_policy)"
  by (simp add: pg_find_settlement_policy_def race_store_def sample_defs race_policy_def sort_by_def)

lemma race_decided:
  "decide_settlement (evidence_of race_transfer race_snapshot RD_Skipped False) race_policy = Inr (Settle 1000)"
  by (simp add: decide_settlement_def evidence_of_def race_transfer_def race_snapshot_def race_policy_def tier_for_def
      checked_sub_def)

lemma race_command:
  "command_of race_transfer race_snapshot race_policy MS_ExactAmount (Settle 1000) RD_Skipped None =
     sample_command 7 (Settle 1000)"
  by (simp add: command_of_def race_transfer_def race_snapshot_def race_policy_def sample_command_def)

lemma race_exact: "exact_inv race_store"
  by (auto simp: exact_inv_def money_inv_def keys_ok_def ledger_ok_def open_ok_def bound_ok_def claims_ok_def
      paid_ok_def obligation_ok_def attempt_allocated_def sample_defs fulfilled_def race_store_def)

definition honored_race :: "(operations_error + manual_resolution_result) \<times> store" where
  "honored_race = service_resolve_manual ref_u256_from_str zero_digest ref_display_u256 ref_display_uuid
     (sample_threshold 5000) (sample_credential 21 ''alice'') ''honor-request-01'' (sample_resolution 8 400) race_store"

definition settled_race :: "(repository_error + settlement_record) \<times> store" where
  "settled_race = pg_settle sample_lease (sample_command 7 (Settle 1000)) (snd honored_race)"

lemmas race_eval = honored_race_def settled_race_def service_resolve_manual_def pg_resolve_manual_def
  resolve_manual_tx_def race_store_def request_eval honor_eval sample_defs

lemma race_honored: "\<exists>v. fst honored_race = Inr v"
  by (simp add: race_eval)

lemma race_settled:
  "fst settled_race = Inr SR_Settled" "attempt_allocated 3 (snd settled_race) = 1400"
  "map (\<lambda>a. (at_id a, at_expected_amount_raw a, at_status a)) (st_attempts (snd settled_race)) =
     [(3, 1000, ''settled'')]"
  "map ob_event_type (st_outbox (snd settled_race)) = [''payment_intent.partially_paid'', ''payment_intent.paid'']"
  by (simp_all add: race_eval)

text \<open>C17: A decision can go stale between being made and being carried out. In a consistent store the
  service reads the attempt and the policy and decides to settle a transfer of the whole
  1000 units; before its transaction starts, an operator honors a held transfer of 400
  units for the same attempt. The settlement still succeeds, the attempt of 1000 units is
  allocated 1400, and no overpayment is announced.\<close>

theorem stale_decision_overallocates:
  "exact_inv race_store \<and>
   pg_attempt_snapshot ref_u256_from_str 3 race_store = Inr (Some race_snapshot) \<and>
   pg_find_settlement_policy (CurrencyCode ''USD'') race_store = Inr (Some race_policy) \<and>
   decide_settlement (evidence_of race_transfer race_snapshot RD_Skipped False) race_policy = Inr (Settle 1000) \<and>
   (\<exists>v s1 s2. service_resolve_manual ref_u256_from_str zero_digest ref_display_u256 ref_display_uuid
        (sample_threshold 5000) (sample_credential 21 ''alice'') ''honor-request-01'' (sample_resolution 8 400)
        race_store = (Inr v, s1) \<and>
      pg_settle sample_lease (command_of race_transfer race_snapshot race_policy MS_ExactAmount (Settle 1000)
        RD_Skipped None) s1 = (Inr SR_Settled, s2) \<and>
      attempt_allocated 3 s2 = 1400 \<and> \<not> obligation_ok s2 \<and>
      map ob_event_type (st_outbox s2) = [''payment_intent.partially_paid'', ''payment_intent.paid''])"
proof -
  obtain v where v: "fst honored_race = Inr v" using race_honored ..
  have h: "service_resolve_manual ref_u256_from_str zero_digest ref_display_u256 ref_display_uuid
      (sample_threshold 5000) (sample_credential 21 ''alice'') ''honor-request-01'' (sample_resolution 8 400)
      race_store = (Inr v, snd honored_race)"
    unfolding honored_race_def [symmetric] using v by (simp add: prod_eq_iff)
  have st: "pg_settle sample_lease (sample_command 7 (Settle 1000)) (snd honored_race) = (Inr SR_Settled, snd settled_race)"
    unfolding settled_race_def [symmetric] using race_settled(1) by (simp add: prod_eq_iff)
  obtain a where a: "a \<in> set (st_attempts (snd settled_race))" "at_id a = 3" "at_expected_amount_raw a = 1000"
    using race_settled(3) by (auto simp: map_eq_Cons_conv)
  then have "\<not> obligation_ok (snd settled_race)"
    using race_settled(2) unfolding obligation_ok_def by (intro notI) (drule bspec, assumption, simp)
  with h st race_exact race_snapshot_read race_policy_read race_decided race_settled(2,4) show ?thesis
    unfolding race_command by (intro conjI exI [of _ v] exI [of _ "snd honored_race"] exI [of _ "snd settled_race"]) simp_all
qed

end
