(* ===== verification/Idempotency_Store.thy ===== *)
theory Idempotency_Store
  imports Idempotency Settlement_Store
begin

text \<open>
  The table \<open>api_idempotency_records\<close> and what the merchant endpoints promise with it.

  The specification is a map from a request's merchant, route and key to the hash it was
  first made with and the resource it created. A call under a new key adds its entry, a
  repeated one is answered with the recorded resource, a different one is a conflict. The
  locale \<open>idempotent_endpoint\<close> states that an endpoint implements the specification; the
  endpoints that create and cancel intents and that issue quotes are interpretations.
\<close>

section \<open>Statements\<close>

definition idem_key :: "idempotency_row \<Rightarrow> uuid \<times> string \<times> string" where
  "idem_key r = (id_merchant_id r, id_route r, id_key r)"

definition request_recorded :: "uuid \<times> string \<times> string \<Rightarrow> store \<Rightarrow> bool" where
  "request_recorded k s = list_ex (\<lambda>r. idem_key r = k) (st_idempotency s)"

text \<open>
  \<open>INSERT ... ON CONFLICT DO NOTHING RETURNING\<close>: whether a row was inserted. The checks hold for
  the proposed row in either case, the foreign key only for an inserted one.
\<close>

definition record_request :: "uuid \<Rightarrow> string \<Rightarrow> string \<Rightarrow> byte list \<Rightarrow> uuid \<Rightarrow> bool repo_tx" where
  "record_request merchant_id route key hash resource =
     tx_then (tx_require (\<lambda>s. char_between 16 128 key \<and> length hash = 32)
       (StorageUnavailable ''api_idempotency_records_check''))
     (tx_bind (tx_gets (request_recorded (merchant_id, route, key))) (\<lambda>recorded.
      if recorded then tx_return False
      else
        tx_then (tx_require (merchant_exists merchant_id)
          (StorageUnavailable ''api_idempotency_records_merchant_id_fkey''))
        (tx_then (tx_modify (\<lambda>s. s\<lparr> st_idempotency := st_idempotency s @
          [\<lparr> id_merchant_id = merchant_id, id_route = route, id_key = key, id_request_hash = hash,
             id_resource_id = resource, id_completed_at = None \<rparr>] \<rparr>))
        (tx_return True))))"

definition stored_request :: "uuid \<Rightarrow> string \<Rightarrow> string \<Rightarrow> (byte list \<times> uuid) repo_tx" where
  "stored_request merchant_id route key = tx_read (\<lambda>s. ok_or (StorageUnavailable ''row not found'')
     (map_option (\<lambda>r. (id_request_hash r, id_resource_id r))
       (find (\<lambda>r. idem_key r = (merchant_id, route, key)) (st_idempotency s))))"

definition complete_request :: "uuid \<Rightarrow> string \<Rightarrow> string \<Rightarrow> unit repo_tx" where
  "complete_request merchant_id route key = tx_modify (\<lambda>s. s\<lparr> st_idempotency :=
     sql_update (\<lambda>r. idem_key r = (merchant_id, route, key))
       (\<lambda>r. r\<lparr> id_completed_at := Some (st_db_now s) \<rparr>) (st_idempotency s) \<rparr>)"

section \<open>The specification\<close>

datatype 'r idem_answer = Fresh 'r | Replay 'r | Conflict

type_synonym ('k, 'h, 'r) idem_map = "'k \<Rightarrow> ('h \<times> 'r) option"

definition idem_call :: "'k \<Rightarrow> 'h \<Rightarrow> 'r \<Rightarrow> ('k, 'h, 'r) idem_map \<Rightarrow> 'r idem_answer \<times> ('k, 'h, 'r) idem_map" where
  "idem_call k h r m =
     (case m k of None \<Rightarrow> (Fresh r, m(k \<mapsto> (h, r)))
      | Some (h', r') \<Rightarrow> (if h' = h then Replay r' else Conflict, m))"

lemma idem_call_iff:
  "idem_call k h r m = (a, m') \<longleftrightarrow> m k = None \<and> a = Fresh r \<and> m' = m(k \<mapsto> (h, r)) \<or>
     (\<exists>h' r'. m k = Some (h', r') \<and> m' = m \<and> a = (if h' = h then Replay r' else Conflict))"
  by (cases "m k") (auto simp: idem_call_def)

definition requests_of :: "store \<Rightarrow> (uuid \<times> string \<times> string, byte list, uuid) idem_map" where
  "requests_of s k = map_option (\<lambda>r. (id_request_hash r, id_resource_id r))
     (find (\<lambda>r. idem_key r = k) (st_idempotency s))"

locale idempotent_endpoint =
  fixes key :: "'q \<Rightarrow> 'k" and hash :: "'q \<Rightarrow> 'h" and resource :: "'q \<Rightarrow> 'r"
    and run :: "'q \<Rightarrow> 's \<Rightarrow> 'out \<times> 's"
    and answer :: "'out \<Rightarrow> 'r idem_answer option"
    and requests :: "'s \<Rightarrow> ('k, 'h, 'r) idem_map"
  assumes refines: "run q s = (out, s') \<Longrightarrow> answer out = Some a \<Longrightarrow>
      idem_call (key q) (hash q) (resource q) (requests s) = (a, requests s')"
    and silent: "run q s = (out, s') \<Longrightarrow> answer out = None \<Longrightarrow> requests s' = requests s"
begin

lemma answered_recorded:
  assumes "run q s = (out, s')" "answer out = Some (Fresh r) \<or> answer out = Some (Replay r)"
  shows "requests s' (key q) = Some (hash q, r)"
  using assms(2) refines [OF assms(1)] by (auto simp: idem_call_iff split: if_splits)

text \<open>Under a recorded key the endpoint repeats the recorded answer, or none at all.\<close>

lemma recorded_answer:
  assumes "requests s (key q) = Some (h, r)" "run q s = (out, s')"
  shows "requests s' = requests s"
    "answer out = None \<or> answer out = Some (if hash q = h then Replay r else Conflict)"
proof -
  have *: "requests s' = requests s \<and> a = (if hash q = h then Replay r else Conflict)" if "answer out = Some a" for a
    using refines [OF assms(2) that] assms(1) by (auto simp: idem_call_iff)
  show "requests s' = requests s" using * silent [OF assms(2)] by (cases "answer out") auto
  show "answer out = None \<or> answer out = Some (if hash q = h then Replay r else Conflict)"
    using * by (cases "answer out") auto
qed

lemma requests_grow:
  assumes "run q s = (out, s')"
  shows "requests s \<subseteq>\<^sub>m requests s'"
proof (cases "answer out")
  case None
  with silent [OF assms] show ?thesis by simp
next
  case (Some a)
  from refines [OF assms Some] have "requests s' = requests s \<or>
      requests s (key q) = None \<and> requests s' = (requests s)(key q \<mapsto> (hash q, resource q))"
    by (auto simp: idem_call_iff)
  then show ?thesis by (auto simp: map_le_def)
qed

end

section \<open>What the statements do to the specification\<close>

lemma requests_append:
  assumes "\<not> request_recorded (idem_key r) s"
  shows "requests_of (s\<lparr> st_idempotency := st_idempotency s @ [r] \<rparr>) =
     (requests_of s)(idem_key r \<mapsto> (id_request_hash r, id_resource_id r))"
proof
  fix k
  have "find (\<lambda>x. idem_key x = idem_key r) (st_idempotency s) = None"
    using assms by (auto simp: request_recorded_def find_None_iff list_ex_iff)
  then show "requests_of (s\<lparr> st_idempotency := st_idempotency s @ [r] \<rparr>) k =
      ((requests_of s)(idem_key r \<mapsto> (id_request_hash r, id_resource_id r))) k"
    by (cases "k = idem_key r") (auto simp: requests_of_def find_append split: option.split)
qed

lemma requests_unrecorded: "request_recorded k s \<longleftrightarrow> requests_of s k \<noteq> None"
  by (auto simp: requests_of_def request_recorded_def find_None_iff list_ex_iff)

lemma requests_frame: "st_idempotency s' = st_idempotency s \<Longrightarrow> requests_of s' = requests_of s"
  by (rule ext) (simp add: requests_of_def)

lemma complete_request_requests:
  "complete_request m route key s = Inr (u, s') \<Longrightarrow> requests_of s' = requests_of s"
  by (rule ext) (auto simp: complete_request_def requests_of_def tx_simps find_sql_update idem_key_def
      option.map_comp comp_def intro!: option.map_cong)

lemma record_request_effect:
  assumes "record_request m route key hash resource s = Inr (inserted, s')"
  shows "inserted \<longleftrightarrow> requests_of s (m, route, key) = None"
    "inserted \<Longrightarrow> requests_of s' = (requests_of s)((m, route, key) \<mapsto> (hash, resource))"
    "\<not> inserted \<Longrightarrow> s' = s" "\<exists>r. s' = s\<lparr> st_idempotency := r \<rparr>"
proof -
  let ?row = "\<lparr> id_merchant_id = m, id_route = route, id_key = key, id_request_hash = hash,
    id_resource_id = resource, id_completed_at = None \<rparr>"
  have k: "idem_key ?row = (m, route, key)" by (simp add: idem_key_def)
  from assms have r: "inserted \<longleftrightarrow> \<not> request_recorded (m, route, key) s"
    "s' = (if inserted then s\<lparr> st_idempotency := st_idempotency s @ [?row] \<rparr> else s)"
    by (auto simp: record_request_def tx_simps split: if_splits)
  then show "inserted \<longleftrightarrow> requests_of s (m, route, key) = None" unfolding requests_unrecorded by blast
  show "inserted \<Longrightarrow> requests_of s' = (requests_of s)((m, route, key) \<mapsto> (hash, resource))"
    using r requests_append [of ?row s] by (simp add: k)
  show "\<not> inserted \<Longrightarrow> s' = s" using r(2) by simp
  have "s' = s\<lparr> st_idempotency := st_idempotency s' \<rparr>" unfolding r(2) by simp
  then show "\<exists>r. s' = s\<lparr> st_idempotency := r \<rparr>" ..
qed

lemma stored_request_iff:
  "stored_request m route key s = Inr (x, s') \<longleftrightarrow> s' = s \<and> requests_of s (m, route, key) = Some x"
  by (auto simp: stored_request_def requests_of_def tx_simps result_simps)

lemma record_request_never: "tx_never IdempotencyConflict (record_request m route key hash resource)"
  unfolding record_request_def by (intro tx_never_intros) simp_all

lemma stored_request_never: "tx_never IdempotencyConflict (stored_request m route key)"
  unfolding stored_request_def by (intro tx_never_intros) (simp add: result_simps)

lemma complete_request_never: "tx_never e (complete_request m route key)"
  unfolding complete_request_def by (intro tx_never_intros)

end
