(* ===== verification/Intent_Store.thy ===== *)
theory Intent_Store
  imports Idempotency_Store
begin

text \<open>
  The life of a payment intent before money arrives: the service of
  \<open>crates/gateway-application/src/payment_intents.rs\<close> and the repository of
  \<open>crates/gateway-storage/src/postgres/intents.rs\<close>. An intent is created once per
  idempotency key and reference, and cancelled only while nothing was paid or decided.

  The JSON text of a request, which is hashed, comes from a library: it is a parameter that
  yields the bytes or an error text.
\<close>

section \<open>Rows and intents\<close>

record api_credential =
  ap_merchant_id :: uuid
  ap_key_id :: uuid

datatype idempotent_create = IC_Created payment_intent | IC_Replayed payment_intent

definition payment_intent_error_display :: "payment_intent_error \<Rightarrow> string" where
  "payment_intent_error_display e =
     (case e of
        InvalidReference \<Rightarrow> ''reference must contain between 1 and 128 characters''
      | DescriptionTooLong \<Rightarrow> ''description must not exceed 500 characters''
      | MetadataMustBeObject \<Rightarrow> ''metadata must be a JSON object''
      | MetadataTooLarge \<Rightarrow> ''metadata must not exceed 16384 bytes when serialized''
      | UnknownStatus status \<Rightarrow> ''unknown payment intent status: '' @ status)"

definition intent_try_from :: "intent_row \<Rightarrow> repository_error + payment_intent" where
  "intent_try_from row =
     bind_result (map_err (\<lambda>e. CorruptData (money_error_display e)) (currency_new (in_currency row))) (\<lambda>currency.
     bind_result (map_err (\<lambda>e. CorruptData (money_error_display e))
       (fiat_positive currency (in_amount_minor row))) (\<lambda>amount.
     bind_result (map_err (\<lambda>e. CorruptData (payment_intent_error_display e))
       (payment_intent_status_from_str (in_status row))) (\<lambda>status.
     if \<not> json_is_object (in_metadata row) then Inl (CorruptData ''payment intent metadata is not an object'')
     else Inr \<lparr> pi_id = in_id row, pi_merchant_id = in_merchant_id row, pi_amount = amount, pi_status = status,
            pi_reference = in_reference row, pi_description = in_description row,
            pi_metadata = in_metadata row, pi_created_at = in_created_at row,
            pi_updated_at = in_updated_at row \<rparr>)))"

definition intent_entry :: "payment_intent \<Rightarrow> intent_row" where
  "intent_entry intent =
     \<lparr> in_id = pi_id intent, in_merchant_id = pi_merchant_id intent,
       in_amount_minor = fa_minor_units (pi_amount intent),
       in_currency = currency_as_str (fa_currency (pi_amount intent)),
       in_status = payment_intent_status_as_str (pi_status intent), in_reference = pi_reference intent,
       in_description = pi_description intent, in_metadata = pi_metadata intent, in_version = 0,
       in_created_at = pi_created_at intent, in_updated_at = pi_updated_at intent \<rparr>"

definition intent_row_ok :: "intent_row \<Rightarrow> bool" where
  "intent_row_ok r \<longleftrightarrow> 0 < in_amount_minor r \<and> char_count (in_currency r) \<le> 3 \<and>
     to_ascii_uppercase (in_currency r) = in_currency r \<and> char_between 1 128 (in_reference r) \<and>
     (case in_description r of None \<Rightarrow> True | Some d \<Rightarrow> char_count d \<le> 500) \<and> json_is_object (in_metadata r)"

section \<open>The repository\<close>

definition usable_key :: "byte list \<Rightarrow> store \<Rightarrow> api_key_row \<Rightarrow> bool" where
  "usable_key secret_hash s k \<longleftrightarrow> ak_secret_hash k = secret_hash \<and> ak_revoked_at k = None \<and>
     list_ex (\<lambda>m. me_id m = ak_merchant_id k \<and> me_status m = ''active'') (st_merchants s)"

definition pg_authenticate_api_key :: "byte list \<Rightarrow> store \<Rightarrow> api_credential option \<times> store" where
  "pg_authenticate_api_key secret_hash s =
     (map_option (\<lambda>k. \<lparr> ap_merchant_id = ak_merchant_id k, ap_key_id = ak_id k \<rparr>)
        (find (usable_key secret_hash s) (st_api_keys s)),
      s\<lparr> st_api_keys := sql_update (usable_key secret_hash s) (\<lambda>k. k\<lparr> ak_last_used_at := Some (st_db_now s) \<rparr>)
        (st_api_keys s) \<rparr>)"

definition insert_intent :: "payment_intent \<Rightarrow> unit repo_tx" where
  "insert_intent intent =
     (let r = intent_entry intent
      in tx_then (tx_require (\<lambda>s. intent_row_ok r) (StorageUnavailable ''payment_intents_check''))
         (tx_then (tx_require (\<lambda>s. \<not> intent_exists (in_id r) s) (StorageUnavailable ''payment_intents_pkey''))
         (tx_then (tx_require (\<lambda>s. \<not> list_ex (\<lambda>x. in_merchant_id x = in_merchant_id r \<and>
             in_reference x = in_reference r) (st_intents s)) DuplicateReference)
         (tx_then (tx_require (merchant_exists (in_merchant_id r))
           (StorageUnavailable ''payment_intents_merchant_id_fkey''))
         (tx_modify (\<lambda>s. s\<lparr> st_intents := st_intents s @ [r] \<rparr>))))))"

definition insert_creation_audit_event :: "payment_intent \<Rightarrow> uuid \<Rightarrow> unit repo_tx" where
  "insert_creation_audit_event intent actor_key_id =
     tx_then (tx_require (merchant_exists (pi_merchant_id intent)) (StorageUnavailable ''audit_events_merchant_id_fkey''))
     (tx_modify (\<lambda>s. s\<lparr> st_audit := st_audit s @ [\<lparr> au_merchant_id = Some (pi_merchant_id intent),
       au_actor_type = ''api_key'', au_actor_id = Some actor_key_id, au_action = ''payment_intent.created'',
       au_resource_type = ''payment_intent'', au_resource_id = pi_id intent, au_reason = None,
       au_payload = [(''reference'', PV_Text (pi_reference intent)),
         (''currency'', PV_Text (currency_as_str (fa_currency (pi_amount intent)))),
         (''amount_minor'', PV_Text (int_str (fa_minor_units (pi_amount intent))))] \<rparr>] \<rparr>))"

definition insert_system_audit :: "uuid \<Rightarrow> string \<Rightarrow> string \<Rightarrow> uuid \<Rightarrow> payload \<Rightarrow> unit repo_tx" where
  "insert_system_audit merchant_id action resource_type resource_id payload =
     tx_then (tx_require (merchant_exists merchant_id) (StorageUnavailable ''audit_events_merchant_id_fkey''))
     (tx_modify (\<lambda>s. s\<lparr> st_audit := st_audit s @ [\<lparr> au_merchant_id = Some merchant_id,
       au_actor_type = ''system'', au_actor_id = None, au_action = action, au_resource_type = resource_type,
       au_resource_id = resource_id, au_reason = None, au_payload = payload \<rparr>] \<rparr>))"

text \<open>An optional row, converted: \<open>row.map(TryInto::try_into).transpose()\<close>.\<close>

definition transposed :: "('r \<Rightarrow> 'e + 'a) \<Rightarrow> 'r option \<Rightarrow> 'e + 'a option" where
  "transposed f row = (case row of None \<Rightarrow> Inr None | Some r \<Rightarrow> bind_result (f r) (\<lambda>x. Inr (Some x)))"

definition find_intent :: "uuid \<Rightarrow> uuid \<Rightarrow> payment_intent option repo_tx" where
  "find_intent merchant_id intent_id = tx_read (\<lambda>s. transposed intent_try_from
     (find (\<lambda>r. in_merchant_id r = merchant_id \<and> in_id r = intent_id) (st_intents s)))"

definition pg_find_by_id :: "uuid \<Rightarrow> uuid \<Rightarrow> store \<Rightarrow> repository_error + payment_intent option" where
  "pg_find_by_id merchant_id intent_id s = transposed intent_try_from
     (find (\<lambda>r. in_merchant_id r = merchant_id \<and> in_id r = intent_id) (st_intents s))"

definition create_work :: "payment_intent \<Rightarrow> uuid \<Rightarrow> string \<Rightarrow> string \<Rightarrow> idempotent_create repo_tx" where
  "create_work intent actor_key_id route key =
     tx_then (insert_intent intent)
     (tx_then (insert_creation_audit_event intent actor_key_id)
     (tx_then (complete_request (pi_merchant_id intent) route key)
     (tx_return (IC_Created intent))))"

definition create_replay :: "uuid \<Rightarrow> uuid \<Rightarrow> idempotent_create repo_tx" where
  "create_replay m resource = tx_bind (find_intent m resource) (\<lambda>replayed.
     case replayed of
       None \<Rightarrow> tx_fail (CorruptData ''idempotency record references a missing payment intent'')
     | Some replayed \<Rightarrow> tx_return (IC_Replayed replayed))"

definition create_idempotently_tx ::
  "payment_intent \<Rightarrow> uuid \<Rightarrow> string \<Rightarrow> string \<Rightarrow> byte list \<Rightarrow> idempotent_create repo_tx" where
  "create_idempotently_tx intent actor_key_id route key hash =
     tx_bind (record_request (pi_merchant_id intent) route key hash (pi_id intent)) (\<lambda>inserted.
     if inserted then create_work intent actor_key_id route key
     else
       tx_bind (stored_request (pi_merchant_id intent) route key) (\<lambda>(stored_hash, resource).
       if stored_hash \<noteq> hash then tx_fail IdempotencyConflict
       else create_replay (pi_merchant_id intent) resource))"

definition pg_create_idempotently ::
  "payment_intent \<Rightarrow> uuid \<Rightarrow> string \<Rightarrow> string \<Rightarrow> byte list \<Rightarrow> store \<Rightarrow> (repository_error + idempotent_create) \<times> store" where
  "pg_create_idempotently intent actor_key_id route key hash =
     tx_run (create_idempotently_tx intent actor_key_id route key hash)"

definition cancellable_state :: "string \<Rightarrow> bool" where
  "cancellable_state status \<longleftrightarrow> status \<in> set [''requires_quote'', ''awaiting_payment'', ''expired'']"

definition money_or_decision :: "uuid \<Rightarrow> store \<Rightarrow> bool" where
  "money_or_decision intent_id s \<longleftrightarrow>
     list_ex (\<lambda>d. de_payment_intent_id d = intent_id) (st_decisions s) \<or>
     list_ex (\<lambda>c. cm_payment_intent_id c = intent_id) (st_claims s)"

definition cancel_rows :: "uuid \<Rightarrow> instant \<Rightarrow> store \<Rightarrow> store" where
  "cancel_rows intent_id now s =
     s\<lparr> st_intents := sql_update (\<lambda>i. in_id i = intent_id)
          (\<lambda>i. i\<lparr> in_status := ''cancelled'', in_version := in_version i + 1, in_updated_at := now \<rparr>) (st_intents s),
        st_attempts := sql_update (\<lambda>a. at_payment_intent_id a = intent_id \<and> at_status a = ''awaiting_payment'')
          (\<lambda>a. a\<lparr> at_status := ''cancelled'', at_updated_at := now \<rparr>) (st_attempts s) \<rparr>"

definition cancelled_attempts :: "uuid \<Rightarrow> store \<Rightarrow> uuid list" where
  "cancelled_attempts intent_id s =
     map at_id (filter (\<lambda>a. at_payment_intent_id a = intent_id \<and> at_status a = ''awaiting_payment'') (st_attempts s))"

text \<open>Cancelling the intent whose row is locked with the given status.\<close>

definition cancel_locked ::
  "uuid \<Rightarrow> uuid \<Rightarrow> uuid \<Rightarrow> string \<Rightarrow> string \<Rightarrow> string option \<Rightarrow> string \<Rightarrow> idempotent_create option repo_tx" where
  "cancel_locked merchant_id intent_id actor_key_id route key reason status =
     tx_then (tx_require (\<lambda>s. cancellable_state status \<and> \<not> money_or_decision intent_id s)
       PaymentIntentNotCancellable)
     (tx_bind (tx_gets st_now) (\<lambda>now.
     tx_bind (tx_gets (cancelled_attempts intent_id)) (\<lambda>attempts.
     tx_then (tx_modify (cancel_rows intent_id now))
     (tx_then (insert_system_audit merchant_id ''payment_intent.cancelled'' ''payment_intent'' intent_id
       [(''actor_key_id'', PV_Uuid actor_key_id), (''reason'', PV_OptText reason),
        (''previous_status'', PV_Text status), (''cancelled_attempts'', PV_Uuids attempts)])
     (tx_then (enqueue_outbox (Some merchant_id) ''webhook'' ''payment_intent.cancelled'' ''payment_intent''
       intent_id [(''payment_intent_id'', PV_Uuid intent_id), (''reason'', PV_OptText reason)] now)
     (tx_then (complete_request merchant_id route key)
     (tx_bind (find_intent merchant_id intent_id) (\<lambda>intent.
      case intent of
        None \<Rightarrow> tx_fail (CorruptData ''a cancelled intent is missing'')
      | Some intent \<Rightarrow> tx_return (Some (IC_Created intent))))))))))"

definition cancel_work ::
  "uuid \<Rightarrow> uuid \<Rightarrow> uuid \<Rightarrow> string \<Rightarrow> string \<Rightarrow> string option \<Rightarrow> idempotent_create option repo_tx" where
  "cancel_work merchant_id intent_id actor_key_id route key reason =
     tx_bind (tx_gets (\<lambda>s. map_option in_status
       (find (\<lambda>i. in_id i = intent_id \<and> in_merchant_id i = merchant_id) (st_intents s)))) (\<lambda>locked.
     case locked of
       None \<Rightarrow> tx_return None
     | Some status \<Rightarrow> cancel_locked merchant_id intent_id actor_key_id route key reason status)"

definition cancel_replay :: "uuid \<Rightarrow> uuid \<Rightarrow> idempotent_create option repo_tx" where
  "cancel_replay merchant_id resource =
     tx_bind (find_intent merchant_id resource) (\<lambda>intent. tx_return (map_option IC_Replayed intent))"

definition cancel_idempotently_tx ::
  "uuid \<Rightarrow> uuid \<Rightarrow> uuid \<Rightarrow> string \<Rightarrow> string \<Rightarrow> byte list \<Rightarrow> string option \<Rightarrow> idempotent_create option repo_tx" where
  "cancel_idempotently_tx merchant_id intent_id actor_key_id route key hash reason =
     tx_bind (record_request merchant_id route key hash intent_id) (\<lambda>recorded.
     if recorded then cancel_work merchant_id intent_id actor_key_id route key reason
     else
       tx_bind (stored_request merchant_id route key) (\<lambda>(stored_hash, resource).
       if stored_hash \<noteq> hash then tx_fail IdempotencyConflict
       else cancel_replay merchant_id resource))"

text \<open>
  An unknown intent is answered without a commit, so the request recorded before is rolled
  back. The other way to answer nothing, a repeated request whose intent is gone, changed
  nothing.
\<close>

definition pg_cancel_idempotently ::
  "uuid \<Rightarrow> uuid \<Rightarrow> uuid \<Rightarrow> string \<Rightarrow> string \<Rightarrow> byte list \<Rightarrow> string option \<Rightarrow> store
     \<Rightarrow> (repository_error + idempotent_create option) \<times> store" where
  "pg_cancel_idempotently merchant_id intent_id actor_key_id route key hash reason s =
     (case tx_run (cancel_idempotently_tx merchant_id intent_id actor_key_id route key hash reason) s of
        (Inr None, _) \<Rightarrow> (Inr None, s)
      | committed \<Rightarrow> committed)"

section \<open>The service\<close>

datatype service_error =
    SV_InvalidIdempotencyKey
  | SV_NotFound
  | SV_InvalidCancellationReason
  | SV_Money money_error
  | SV_PaymentIntent payment_intent_error
  | SV_Repository repository_error
  | SV_Internal string

record create_payment_intent =
  cp_amount_minor :: string
  cp_currency :: string
  cp_reference :: string
  cp_description :: "string option"
  cp_metadata :: json

record create_payment_intent_result =
  cr_intent :: payment_intent
  cr_replayed :: bool

definition CREATE_ROUTE :: string where
  "CREATE_ROUTE = ''POST /v1/payment-intents''"

definition CANCEL_ROUTE :: string where
  "CANCEL_ROUTE = ''POST /v1/payment-intents/:id/cancel''"

definition intent_key_ok :: "string \<Rightarrow> service_error + unit" where
  "intent_key_ok value = (if \<not> idempotency_key_ok value then Inl SV_InvalidIdempotencyKey else Inr ())"

definition intent_request_hash ::
  "(create_payment_intent \<Rightarrow> string + byte list) \<Rightarrow> (byte list \<Rightarrow> byte list) \<Rightarrow> create_payment_intent
     \<Rightarrow> service_error + byte list" where
  "intent_request_hash input_json sha256 input =
     bind_result (map_err SV_Internal (input_json input)) (\<lambda>payload. Inr (sha256 payload))"

fun create_result :: "idempotent_create \<Rightarrow> create_payment_intent_result" where
  "create_result (IC_Created intent) = \<lparr> cr_intent = intent, cr_replayed = False \<rparr>"
| "create_result (IC_Replayed intent) = \<lparr> cr_intent = intent, cr_replayed = True \<rparr>"

text \<open>The intent a valid request asks for, and the hash of the request.\<close>

definition intent_to_create ::
  "(create_payment_intent \<Rightarrow> string + byte list) \<Rightarrow> (byte list \<Rightarrow> byte list) \<Rightarrow> (json \<Rightarrow> string) \<Rightarrow> uuid \<Rightarrow> uuid \<Rightarrow> string
     \<Rightarrow> create_payment_intent \<Rightarrow> instant \<Rightarrow> service_error + payment_intent \<times> byte list" where
  "intent_to_create input_json sha256 json_to_string now_v7 merchant_id key input now =
     bind_result (intent_key_ok key) (\<lambda>_.
     bind_result (intent_request_hash input_json sha256 input) (\<lambda>hash.
     bind_result (map_err SV_Money (currency_new (cp_currency input))) (\<lambda>currency.
     bind_result (map_err SV_Money (fiat_parse_positive currency (cp_amount_minor input))) (\<lambda>amount.
     bind_result (map_err SV_PaymentIntent (payment_intent_create json_to_string now_v7 merchant_id amount
       (cp_reference input) (cp_description input) (cp_metadata input) now)) (\<lambda>intent.
     Inr (intent, hash))))))"

definition service_create_intent ::
  "(create_payment_intent \<Rightarrow> string + byte list) \<Rightarrow> (byte list \<Rightarrow> byte list) \<Rightarrow> (json \<Rightarrow> string) \<Rightarrow> uuid \<Rightarrow> uuid \<Rightarrow> string
     \<Rightarrow> create_payment_intent \<Rightarrow> store \<Rightarrow> (service_error + create_payment_intent_result) \<times> store" where
  "service_create_intent input_json sha256 json_to_string merchant_id actor_key_id key input s =
     (case intent_to_create input_json sha256 json_to_string (st_now_v7 s (st_generated s)) merchant_id key input
         (st_now s) of
        Inl e \<Rightarrow> (Inl e, s)
      | Inr (intent, hash) \<Rightarrow>
          (case pg_create_idempotently intent actor_key_id CREATE_ROUTE key hash
             (s\<lparr> st_generated := st_generated s + 1 \<rparr>) of
             (Inl e, s') \<Rightarrow> (Inl (SV_Repository e), s')
           | (Inr r, s') \<Rightarrow> (Inr (create_result r), s')))"

text \<open>The merchant's reason, trimmed; a blank one is no reason.\<close>

definition cancellation_reason :: "string option \<Rightarrow> string option" where
  "cancellation_reason reason =
     (case map_option str_trim reason of
        Some r \<Rightarrow> if r = [] then None else Some r
      | None \<Rightarrow> None)"

definition service_cancel_intent ::
  "(uuid \<Rightarrow> string option \<Rightarrow> string + byte list) \<Rightarrow> (byte list \<Rightarrow> byte list) \<Rightarrow> uuid \<Rightarrow> uuid \<Rightarrow> string \<Rightarrow> uuid
     \<Rightarrow> string option \<Rightarrow> store \<Rightarrow> (service_error + create_payment_intent_result) \<times> store" where
  "service_cancel_intent cancel_json sha256 merchant_id actor_key_id key intent_id input_reason s =
     (let reason = cancellation_reason input_reason
      in case bind_result (intent_key_ok key) (\<lambda>_.
              if (case reason of Some r \<Rightarrow> char_count r > 500 | None \<Rightarrow> False)
              then Inl SV_InvalidCancellationReason
              else bind_result (map_err SV_Internal (cancel_json intent_id reason)) (\<lambda>payload.
                   Inr (sha256 payload))) of
           Inl e \<Rightarrow> (Inl e, s)
         | Inr hash \<Rightarrow>
             (case pg_cancel_idempotently merchant_id intent_id actor_key_id CANCEL_ROUTE key hash reason s of
                (Inl e, s') \<Rightarrow> (Inl (SV_Repository e), s')
              | (Inr None, s') \<Rightarrow> (Inl SV_NotFound, s')
              | (Inr (Some r), s') \<Rightarrow> (Inr (create_result r), s')))"

definition service_get_intent :: "uuid \<Rightarrow> uuid \<Rightarrow> store \<Rightarrow> service_error + payment_intent" where
  "service_get_intent merchant_id intent_id s =
     bind_result (map_err SV_Repository (pg_find_by_id merchant_id intent_id s)) (ok_or SV_NotFound)"

end
