(* ===== verification/Tron_Address.thy ===== *)
theory Tron_Address
  imports Chain
begin

unbundle bit_operations_syntax

text \<open>
  TRON addresses of \<open>crates/gateway-tron/src/address.rs\<close>: base58check and hexadecimal text
  into canonical bytes and back. Base58 itself is a library and SHA-256 too; both are
  parameters. The locale \<open>base58\<close> states what the code relies on, and is interpreted on
  the base58 of the documented alphabet.
\<close>

section \<open>The code\<close>

datatype tron_address_error = NotBase58 | WrongLength | BadChecksum | WrongPrefix | NotHex

definition tron_address_error_display :: "tron_address_error \<Rightarrow> string" where
  "tron_address_error_display e =
     (case e of NotBase58 \<Rightarrow> ''a TRON address must be base58''
      | WrongLength \<Rightarrow> ''a TRON address must be 21 bytes plus a 4-byte checksum''
      | BadChecksum \<Rightarrow> ''the address checksum does not match''
      | WrongPrefix \<Rightarrow> ''a TRON address starts with 0x41''
      | NotHex \<Rightarrow> ''the value is not hexadecimal'')"

definition TRON_ADDRESS_PREFIX :: byte where "TRON_ADDRESS_PREFIX = 0x41"
definition TRON_ADDRESS_BYTES :: nat where "TRON_ADDRESS_BYTES = 21"
definition CHECKSUM_BYTES :: nat where "CHECKSUM_BYTES = 4"

definition double_sha256 :: "(byte list \<Rightarrow> byte list) \<Rightarrow> byte list \<Rightarrow> byte list" where
  "double_sha256 sha256 bytes = sha256 (sha256 bytes)"

definition starts_tron :: "byte list \<Rightarrow> bool" where
  "starts_tron bytes \<longleftrightarrow> (case bytes of b # _ \<Rightarrow> b = TRON_ADDRESS_PREFIX | [] \<Rightarrow> False)"

definition from_base58 ::
  "(string \<Rightarrow> byte list option) \<Rightarrow> (byte list \<Rightarrow> byte list) \<Rightarrow> string \<Rightarrow> tron_address_error + address_key" where
  "from_base58 bs58_decode sha256 value =
     bind_result (ok_or NotBase58 (bs58_decode (str_trim value))) (\<lambda>decoded.
     if length decoded \<noteq> TRON_ADDRESS_BYTES + CHECKSUM_BYTES then Inl WrongLength
     else let body = take TRON_ADDRESS_BYTES decoded; checksum = drop TRON_ADDRESS_BYTES decoded
          in if checksum \<noteq> take CHECKSUM_BYTES (double_sha256 sha256 body) then Inl BadChecksum
             else if \<not> starts_tron body then Inl WrongPrefix
             else map_err (\<lambda>_. WrongLength) (address_key_new body))"

definition to_base58 ::
  "(byte list \<Rightarrow> string) \<Rightarrow> (byte list \<Rightarrow> byte list) \<Rightarrow> address_key \<Rightarrow> tron_address_error + string" where
  "to_base58 bs58_encode sha256 address =
     (let bytes = address_bytes address
      in if length bytes \<noteq> TRON_ADDRESS_BYTES then Inl WrongLength
         else if \<not> starts_tron bytes then Inl WrongPrefix
         else Inr (bs58_encode (bytes @ take CHECKSUM_BYTES (double_sha256 sha256 bytes))))"

definition from_evm_bytes :: "byte list \<Rightarrow> tron_address_error + address_key" where
  "from_evm_bytes bytes =
     (if length bytes \<noteq> TRON_ADDRESS_BYTES - 1 then Inl WrongLength
      else map_err (\<lambda>_. WrongLength) (address_key_new (TRON_ADDRESS_PREFIX # bytes)))"

definition hex_value :: "char \<Rightarrow> tron_address_error + byte" where
  "hex_value c =
     (let n = of_char c :: nat
      in if 48 \<le> n \<and> n \<le> 57 then Inr (of_nat (n - 48))
         else if 97 \<le> n \<and> n \<le> 102 then Inr (of_nat (n - 97 + 10))
         else if 65 \<le> n \<and> n \<le> 70 then Inr (of_nat (n - 65 + 10))
         else Inl NotHex)"

fun decode_pairs :: "string \<Rightarrow> tron_address_error + byte list" where
  "decode_pairs (high # low # rest) =
     bind_result (hex_value high) (\<lambda>h. bind_result (hex_value low) (\<lambda>l.
     bind_result (decode_pairs rest) (\<lambda>bytes. Inr ((push_bit 4 h OR l) # bytes))))"
| "decode_pairs _ = Inr []"

definition decode_hex :: "string \<Rightarrow> tron_address_error + byte list" where
  "decode_hex value = (if odd (length value) then Inl NotHex else decode_pairs value)"

definition from_hex :: "string \<Rightarrow> tron_address_error + address_key" where
  "from_hex value =
     (let trimmed = str_trim value;
          trimmed = (case strip_prefix ''0x'' trimmed of Some rest \<Rightarrow> rest | None \<Rightarrow> trimmed)
      in bind_result (decode_hex trimmed) (\<lambda>bytes.
         if length bytes = TRON_ADDRESS_BYTES then
           (if \<not> starts_tron bytes then Inl WrongPrefix
            else map_err (\<lambda>_. WrongLength) (address_key_new bytes))
         else if length bytes = 20 then from_evm_bytes bytes
         else Inl WrongLength))"

lemmas tron_consts = TRON_ADDRESS_PREFIX_def TRON_ADDRESS_BYTES_def CHECKSUM_BYTES_def MAX_ADDRESS_KEY_BYTES_def

section \<open>Base 58\<close>

locale base58 =
  fixes bs58_encode :: "byte list \<Rightarrow> string" and bs58_decode :: "string \<Rightarrow> byte list option"
  assumes decode_encode: "bs58_decode (bs58_encode bytes) = Some bytes"
    and encode_printable: "list_all (\<lambda>c. 32 < (of_char c :: nat) \<and> (of_char c :: nat) < 128) (bs58_encode bytes)"
begin

lemma trim_encode [simp]: "str_trim (bs58_encode bytes) = bs58_encode bytes"
  by (rule str_trim_printable [OF encode_printable])

lemma base58_text_round_trip:
  assumes "to_base58 bs58_encode sha256 address = Inr t" "\<And>m. length (sha256 m) = 32"
  shows "from_base58 bs58_decode sha256 t = Inr address"
proof -
  have l: "length (double_sha256 sha256 m) = 32" for m using assms(2) by (simp add: double_sha256_def)
  show ?thesis
    using assms(1) l
    by (cases address)
      (auto simp: to_base58_def from_base58_def decode_encode tron_consts Let_def bind_result_def ok_or_def
        address_key_new_def map_err_def min_def split: if_splits)
qed

end

text \<open>Positional notation without leading zeros, most significant digit first.\<close>

function base_digits :: "nat \<Rightarrow> nat \<Rightarrow> nat list" where
  "base_digits b n = (if b < 2 \<or> n = 0 then [] else base_digits b (n div b) @ [n mod b])"
  by auto
termination by (relation "measure snd") auto

declare base_digits.simps [simp del]

definition base_value :: "nat \<Rightarrow> nat list \<Rightarrow> nat" where
  "base_value b ds = foldl (\<lambda>a d. a * b + d) 0 ds"

lemma base_value_snoc [simp]: "base_value b (ds @ [d]) = base_value b ds * b + d"
  by (simp add: base_value_def)

lemma base_value_Nil [simp]: "base_value b [] = 0"
  by (simp add: base_value_def)

lemma base_value_digits: "2 \<le> b \<Longrightarrow> base_value b (base_digits b n) = n"
proof (induction b n rule: base_digits.induct)
  case (1 b n)
  then show ?case by (subst base_digits.simps) simp
qed

lemma base_digits_less: "d \<in> set (base_digits b n) \<Longrightarrow> d < b"
proof (induction b n rule: base_digits.induct)
  case (1 b n)
  from "1.prems" have n: "\<not> (b < 2 \<or> n = 0)" by (subst (asm) base_digits.simps) (auto split: if_splits)
  with "1.prems" have "d \<in> set (base_digits b (n div b)) \<or> d = n mod b"
    by (subst (asm) base_digits.simps) auto
  with n "1.IH" [OF n] show ?case by auto
qed

lemma hd_base_digits: "base_digits b n \<noteq> [] \<Longrightarrow> hd (base_digits b n) \<noteq> 0"
proof (induction b n rule: base_digits.induct)
  case (1 b n)
  from "1.prems" have n: "\<not> (b < 2 \<or> n = 0)" by (subst (asm) base_digits.simps) (auto split: if_splits)
  have e: "base_digits b n = base_digits b (n div b) @ [n mod b]" using n by (subst base_digits.simps) simp
  show ?case
  proof (cases "base_digits b (n div b) = []")
    case True
    then have "n div b = 0" using n by (subst (asm) base_digits.simps) (auto split: if_splits)
    with n have "n < b" by (auto simp: div_eq_0_iff)
    then have "n mod b = n" by simp
    with True e n show ?thesis by simp
  next
    case False
    with "1.IH" [OF n False] e show ?thesis by simp
  qed
qed

lemma base_digits_value:
  "2 \<le> b \<Longrightarrow> \<forall>d\<in>set ds. d < b \<Longrightarrow> ds = [] \<or> hd ds \<noteq> 0 \<Longrightarrow> base_digits b (base_value b ds) = ds"
proof (induction ds rule: rev_induct)
  case Nil
  then show ?case by (subst base_digits.simps) simp
next
  case (snoc d ds)
  have IH: "base_digits b (base_value b ds) = ds" by (rule snoc.IH) (use snoc.prems in \<open>auto simp: hd_append split: if_splits\<close>)
  have "base_value b ds * b + d \<noteq> 0"
  proof
    assume z: "base_value b ds * b + d = 0"
    then have "base_value b ds = 0" "d = 0" using snoc.prems(1) by auto
    with IH have "ds = []" by (subst (asm) base_digits.simps) simp
    with \<open>d = 0\<close> snoc.prems(3) show False by simp
  qed
  moreover have "(base_value b ds * b + d) div b = base_value b ds" "(base_value b ds * b + d) mod b = d"
    using snoc.prems(1,2) by auto
  ultimately show ?case using IH snoc.prems(1) by (subst base_digits.simps) simp
qed

text \<open>The base58 of Bitcoin's alphabet: leading zero bytes are leading ones.\<close>

definition base58_alphabet :: string where
  "base58_alphabet = ''123456789ABCDEFGHJKLMNPQRSTUVWXYZabcdefghijkmnopqrstuvwxyz''"

definition alphabet_index :: "char \<Rightarrow> nat" where
  "alphabet_index c = length (takeWhile (\<lambda>x. x \<noteq> c) base58_alphabet)"

definition ref_bs58_encode :: "byte list \<Rightarrow> string" where
  "ref_bs58_encode bytes = replicate (length (takeWhile (\<lambda>x. x = 0) bytes)) (base58_alphabet ! 0) @
     map (\<lambda>d. base58_alphabet ! d) (base_digits 58 (base_value 256 (map unat bytes)))"

definition ref_bs58_decode :: "string \<Rightarrow> byte list option" where
  "ref_bs58_decode t =
     (if list_all (\<lambda>c. c \<in> set base58_alphabet) t
      then let ds = map alphabet_index t
           in Some (replicate (length (takeWhile (\<lambda>d. d = 0) ds)) 0 @ map of_nat (base_digits 256 (base_value 58 ds)))
      else None)"

lemma alphabet_facts:
  "list_all (\<lambda>d. alphabet_index (base58_alphabet ! d) = d) [0..<58]"
  "list_all (\<lambda>c. 32 < (of_char c :: nat) \<and> (of_char c :: nat) < 128) base58_alphabet"
  "length base58_alphabet = 58"
  by code_simp+

lemma alphabet_index_nth: "d < 58 \<Longrightarrow> alphabet_index (base58_alphabet ! d) = d"
  using alphabet_facts(1) by (simp add: list_all_iff)

lemma base_value_zeros: "base_value b (replicate z 0 @ ds) = base_value b ds"
proof -
  have "foldl (\<lambda>a d. a * b + d) 0 (replicate z 0) = 0" by (induction z) simp_all
  then show ?thesis by (simp add: base_value_def)
qed

lemma takeWhile_zeros:
  "ds = [] \<or> hd ds \<noteq> 0 \<Longrightarrow> length (takeWhile (\<lambda>d. d = (0 :: nat)) (replicate z 0 @ ds)) = z"
  by (cases ds) (simp_all add: takeWhile_append)

lemma leading_zeros:
  fixes bytes :: "byte list"
  shows "takeWhile (\<lambda>x. x = 0) bytes = replicate (length (takeWhile (\<lambda>x. x = 0) bytes)) 0"
    "map unat bytes = replicate (length (takeWhile (\<lambda>x. x = 0) bytes)) 0 @ map unat (dropWhile (\<lambda>x. x = 0) bytes)"
  by (induction bytes) simp_all

lemma ref_bs58_round_trip: "ref_bs58_decode (ref_bs58_encode bytes) = Some bytes"
proof -
  let ?z = "length (takeWhile (\<lambda>x. x = 0) bytes)" and ?rest = "dropWhile (\<lambda>x. x = 0) bytes"
  let ?ds = "map unat ?rest" and ?v = "base_value 256 (map unat bytes)"
  let ?es = "base_digits 58 ?v"
  have b: "replicate ?z 0 @ ?rest = bytes"
    unfolding leading_zeros(1) [symmetric] by (rule takeWhile_dropWhile_id)
  have v: "?v = base_value 256 ?ds" by (subst leading_zeros(2)) (rule base_value_zeros)
  have rest: "?ds = [] \<or> hd ?ds \<noteq> 0"
    using hd_dropWhile [of "\<lambda>x. x = 0" bytes] by (cases ?rest) (auto simp: unat_eq_0)
  have "\<forall>d\<in>set ?ds. d < 256" using unsigned_less [where ?'a = nat and ?'b = 8] by auto
  then have d256: "base_digits 256 ?v = ?ds" unfolding v by (intro base_digits_value) (use rest in auto)
  have lt: "\<forall>d\<in>set ?es. d < 58" using base_digits_less by blast
  let ?t = "ref_bs58_encode bytes"
  have idx: "map alphabet_index ?t = replicate ?z 0 @ ?es"
  proof -
    have "map (alphabet_index \<circ> (\<lambda>d. base58_alphabet ! d)) ?es = ?es"
      using lt alphabet_index_nth by (intro map_idI) auto
    then show ?thesis using alphabet_index_nth [of 0] by (simp add: ref_bs58_encode_def)
  qed
  have ok: "list_all (\<lambda>c. c \<in> set base58_alphabet) ?t"
    using lt alphabet_facts(3) by (auto simp: ref_bs58_encode_def list_all_iff)
  have "length (takeWhile (\<lambda>d. d = 0) (replicate ?z 0 @ ?es)) = ?z"
    by (rule takeWhile_zeros) (use hd_base_digits in blast)
  moreover have "base_value 58 (replicate ?z 0 @ ?es) = ?v" by (simp add: base_value_zeros base_value_digits)
  moreover have "map of_nat ?ds = ?rest" by (simp add: comp_def)
  ultimately show ?thesis
    using ok b by (simp only: ref_bs58_decode_def idx d256 Let_def if_True)
qed

lemma ref_bs58_printable:
  "list_all (\<lambda>c. 32 < (of_char c :: nat) \<and> (of_char c :: nat) < 128) (ref_bs58_encode bytes)"
proof -
  have "set (ref_bs58_encode bytes) \<subseteq> set base58_alphabet"
    using alphabet_facts(3) base_digits_less by (auto simp: ref_bs58_encode_def)
  with alphabet_facts(2) show ?thesis by (auto simp: list_all_iff)
qed

interpretation bitcoin58: base58 ref_bs58_encode ref_bs58_decode
  by unfold_locales (rule ref_bs58_round_trip, rule ref_bs58_printable)

section \<open>Hexadecimal\<close>

lemma and_15: "and x 15 = take_bit 4 x" for x :: byte
  by (simp add: take_bit_eq_mask mask_eq_exp_minus_1)

lemma nibble_less: "unat (and x 15) < 16" for x :: byte
  by (simp add: and_15 unsigned_take_bit_eq take_bit_nat_less_exp [of 4, simplified])

lemma hex_value_digit: "hex_value (hex_digit x) = Inr (and x 15)"
proof -
  let ?n = "unat (and x 15)"
  have "of_nat ?n = and x 15" by simp
  moreover have "(of_char (hex_digit x) :: nat) = (if ?n < 10 then 48 + ?n else 87 + ?n)"
    using nibble_less [of x] by (simp add: hex_digit_def Let_def)
  moreover have "87 + ?n - 97 + 10 = ?n" if "\<not> ?n < 10" using that by simp
  ultimately show ?thesis using nibble_less [of x] by (simp add: hex_value_def Let_def)
qed

lemma join_nibbles: "push_bit 4 (and (and (drop_bit 4 b) 15) 15) OR and (and b 15) 15 = b" for b :: byte
proof (rule bit_eqI)
  fix n assume "possible_bit TYPE(8 word) n"
  then show "bit (push_bit 4 (and (and (drop_bit 4 b) 15) 15) OR and (and b 15) 15) n = bit b n"
    by (cases "n < 4") (auto simp: and_15 bit_simps)
qed

lemma decode_pairs_hex: "decode_pairs (bytes_to_hex bytes) = Inr bytes"
proof (induction bytes)
  case (Cons b bytes)
  have "push_bit 4 (and (drop_bit 4 b) 15) OR and (and b 15) 15 = b"
    using join_nibbles [of b] by (simp add: and_15)
  with Cons show ?case by (simp add: bytes_to_hex_def hex_value_digit bind_result_def)
qed (simp add: bytes_to_hex_def)

lemma decode_hex_hex: "decode_hex (bytes_to_hex bytes) = Inr bytes"
  by (simp add: decode_hex_def decode_pairs_hex)

lemma hex_digit_plain:
  "32 < (of_char (hex_digit x) :: nat) \<and> (of_char (hex_digit x) :: nat) < 128" "hex_digit x \<noteq> CHR ''x''"
proof -
  have *: "(of_char (hex_digit x) :: nat) = (if unat (and x 15) < 10 then 48 + unat (and x 15) else 87 + unat (and x 15))"
    using nibble_less [of x] by (simp add: hex_digit_def Let_def)
  show "32 < (of_char (hex_digit x) :: nat) \<and> (of_char (hex_digit x) :: nat) < 128"
    using * nibble_less [of x] by simp
  show "hex_digit x \<noteq> CHR ''x''"
  proof
    assume "hex_digit x = CHR ''x''"
    then have "(of_char (hex_digit x) :: nat) = 120" by simp
    with * nibble_less [of x] show False by (simp split: if_splits)
  qed
qed

lemma hex_text:
  "str_trim (bytes_to_hex bytes) = bytes_to_hex bytes" "strip_prefix ''0x'' (bytes_to_hex bytes) = None"
  "str_trim (''0x'' @ bytes_to_hex bytes) = ''0x'' @ bytes_to_hex bytes"
proof -
  have p: "list_all (\<lambda>c. 32 < (of_char c :: nat) \<and> (of_char c :: nat) < 128) (bytes_to_hex bytes)"
    using hex_digit_plain(1) by (auto simp: bytes_to_hex_def list_all_iff)
  then show "str_trim (bytes_to_hex bytes) = bytes_to_hex bytes"
    "str_trim (''0x'' @ bytes_to_hex bytes) = ''0x'' @ bytes_to_hex bytes"
    by (intro str_trim_printable, simp)+
  show "strip_prefix ''0x'' (bytes_to_hex bytes) = None"
    using hex_digit_plain(2) by (cases bytes) (simp_all add: strip_prefix_def bytes_to_hex_def numeral_2_eq_2)
qed

lemma from_hex_forms:
  assumes "length (address_bytes a) = 21" "starts_tron (address_bytes a)"
  shows "from_hex (address_to_hex a) = Inr a" "from_hex (''0x'' @ address_to_hex a) = Inr a"
    "from_hex (bytes_to_hex (tl (address_bytes a))) = Inr a" "from_evm_bytes (tl (address_bytes a)) = Inr a"
proof -
  obtain bytes where a: "a = AddressKey (TRON_ADDRESS_PREFIX # bytes)" "length bytes = 20"
    using assms by (cases a) (auto simp: starts_tron_def split: list.splits)
  show evm: "from_evm_bytes (tl (address_bytes a)) = Inr a"
    using a by (simp add: from_evm_bytes_def tron_consts address_key_new_def map_err_def)
  have x: "strip_prefix ''0x'' (''0x'' @ t) = Some t" for t by (simp add: strip_prefix_def)
  show "from_hex (address_to_hex a) = Inr a" "from_hex (''0x'' @ address_to_hex a) = Inr a"
    "from_hex (bytes_to_hex (tl (address_bytes a))) = Inr a"
    using a evm
    by (simp_all add: from_hex_def address_to_hex_def hex_text x decode_hex_hex bind_result_def tron_consts
        starts_tron_def address_key_new_def map_err_def del: append.simps)
qed

section \<open>Addresses in every form\<close>

lemma from_base58_checked:
  assumes "from_base58 bs58_decode sha256 v = Inr k"
  shows "bs58_decode (str_trim v) = Some (address_bytes k @ take 4 (double_sha256 sha256 (address_bytes k)))"
    "length (address_bytes k) = 21" "starts_tron (address_bytes k)"
proof -
  from assms obtain decoded where d: "bs58_decode (str_trim v) = Some decoded" "length decoded = 25"
    "drop 21 decoded = take 4 (double_sha256 sha256 (take 21 decoded))" "starts_tron (take 21 decoded)"
    "k = AddressKey (take 21 decoded)"
    by (auto simp: from_base58_def result_simps tron_consts Let_def address_key_new_def split: if_splits)
  then show "bs58_decode (str_trim v) = Some (address_bytes k @ take 4 (double_sha256 sha256 (address_bytes k)))"
    "length (address_bytes k) = 21" "starts_tron (address_bytes k)"
    by (simp_all flip: d(3))
qed


definition usdt_contract :: address_key where
  "usdt_contract = AddressKey [0x41, 0xa6, 0x14, 0xf8, 0x03, 0xb6, 0xfd, 0x78, 0x09, 0x86, 0xa4, 0x2c, 0x78, 0xec,
     0x9c, 0x7f, 0x77, 0xe6, 0xde, 0xd1, 0x3c]"


end
