(* ===== verification/Quote_Store.thy ===== *)
theory Quote_Store
  imports Intent_Store Tron_Address
begin

text \<open>
  The life of a quote: the service of \<open>crates/gateway-application/src/quotes.rs\<close> and the
  repository of \<open>crates/gateway-storage/src/postgres/quotes.rs\<close>. Issuing a quote reserves an
  exact amount on a collector, the slot, by which a payment is recognised later; the sweep
  expires quotes that ran out and archives reservations whose late window ended.

  Base58 and SHA-256 for the display of contracts, the text of 256-bit numbers, the time
  arithmetic, and the random checkout token the database assigns to an attempt are
  parameters. Rows that another transaction has locked are skipped by the sweep; the model
  runs transactions one after the other, so no row is locked.
\<close>

section \<open>Issued quotes\<close>

record quote_asset =
  qa_chain :: string
  qa_network :: string
  qa_chain_environment :: string
  qa_symbol :: string
  qa_decimals :: nat
  qa_contract_address :: string

record issued_quote =
  iq_id :: uuid
  iq_attempt_id :: uuid
  iq_payment_intent_id :: uuid
  iq_asset_id :: uuid
  iq_collector_address_id :: uuid
  iq_collector_address :: string
  iq_price_snapshot_id :: uuid
  iq_quote_policy_id :: uuid
  iq_rail_health_snapshot_id :: uuid
  iq_fiat_amount :: fiat_amount
  iq_amount_raw :: raw_amount
  iq_rate_numerator :: raw_amount
  iq_rate_denominator :: raw_amount
  iq_price_sources :: json
  iq_price_observed_at :: instant
  iq_policy_version :: string
  iq_rail_health_observed_at :: instant
  iq_created_at :: instant
  iq_expires_at :: instant
  iq_late_payment_until :: instant
  iq_asset :: quote_asset
  iq_amount :: string
  iq_checkout_token :: string

datatype idempotent_quote = IQ_Issued issued_quote | IQ_Replayed issued_quote

definition corrupt_money :: "money_error \<Rightarrow> repository_error" where
  "corrupt_money e = CorruptData (money_error_display e)"

definition contract_display ::
  "(byte list \<Rightarrow> string) \<Rightarrow> (byte list \<Rightarrow> byte list) \<Rightarrow> string \<Rightarrow> byte list \<Rightarrow> repository_error + string" where
  "contract_display bs58_encode sha256 chain key =
     (if chain = ''tron'' then
        bind_result (map_err (\<lambda>e. CorruptData (tron_address_error_display e))
          (if length key = 20 then from_evm_bytes key else map_err (\<lambda>_. WrongLength) (address_key_new key))) (\<lambda>address.
        map_err (\<lambda>e. CorruptData (tron_address_error_display e)) (to_base58 bs58_encode sha256 address))
      else Inr (bytes_to_hex key))"

definition u8_try_from :: "int \<Rightarrow> nat option" where
  "u8_try_from i = (if 0 \<le> i \<and> i < 256 then Some (nat i) else None)"

definition issued_quote_try_from ::
  "(string \<Rightarrow> u256 option) \<Rightarrow> (u256 \<Rightarrow> string) \<Rightarrow> (byte list \<Rightarrow> string) \<Rightarrow> (byte list \<Rightarrow> byte list)
     \<Rightarrow> quote_row \<Rightarrow> attempt_row \<Rightarrow> collector_row \<Rightarrow> asset_row \<Rightarrow> repository_error + issued_quote" where
  "issued_quote_try_from u256_from_str display_u256 bs58_encode sha256 q a c ca =
     bind_result (map_err corrupt_money (currency_new (qu_fiat_currency q))) (\<lambda>currency.
     bind_result (map_err corrupt_money (fiat_positive currency (qu_fiat_amount_minor q))) (\<lambda>fiat_amount.
     bind_result (map_err corrupt_money (raw_from_str u256_from_str (nat_str (qu_amount_raw q)))) (\<lambda>amount_raw.
     bind_result (map_err corrupt_money (raw_from_str u256_from_str (nat_str (qu_rate_numerator q)))) (\<lambda>rate_numerator.
     bind_result (map_err corrupt_money (raw_from_str u256_from_str (nat_str (qu_rate_denominator q)))) (\<lambda>rate_denominator.
     if json_as_array (qu_price_sources q) = None then Inl (CorruptData ''quote price sources are not an array'')
     else
     bind_result (ok_or (CorruptData ''asset decimals out of range'') (u8_try_from (ca_decimals ca))) (\<lambda>decimals.
     bind_result (contract_display bs58_encode sha256 (ca_chain ca) (ca_contract_address_key ca)) (\<lambda>contract_address.
     Inr \<lparr> iq_id = qu_id q, iq_attempt_id = at_id a, iq_payment_intent_id = qu_payment_intent_id q,
       iq_asset_id = qu_asset_id q, iq_collector_address_id = qu_collector_address_id q,
       iq_collector_address = co_address_text c, iq_price_snapshot_id = qu_price_snapshot_id q,
       iq_quote_policy_id = qu_quote_policy_id q, iq_rail_health_snapshot_id = qu_rail_health_snapshot_id q,
       iq_fiat_amount = fiat_amount, iq_amount_raw = amount_raw, iq_rate_numerator = rate_numerator,
       iq_rate_denominator = rate_denominator, iq_price_sources = qu_price_sources q,
       iq_price_observed_at = qu_price_observed_at q, iq_policy_version = qu_policy_version q,
       iq_rail_health_observed_at = qu_rail_health_observed_at q, iq_created_at = qu_created_at q,
       iq_expires_at = qu_expires_at q, iq_late_payment_until = qu_late_payment_until q,
       iq_asset = \<lparr> qa_chain = ca_chain ca, qa_network = ca_network ca, qa_chain_environment = ca_environment ca,
         qa_symbol = ca_display_symbol ca, qa_decimals = decimals, qa_contract_address = contract_address \<rparr>,
       iq_amount = to_decimal_string display_u256 amount_raw decimals,
       iq_checkout_token = at_checkout_token a \<rparr>)))))))"

definition find_quote ::
  "(string \<Rightarrow> u256 option) \<Rightarrow> (u256 \<Rightarrow> string) \<Rightarrow> (byte list \<Rightarrow> string) \<Rightarrow> (byte list \<Rightarrow> byte list)
     \<Rightarrow> uuid \<Rightarrow> uuid \<Rightarrow> issued_quote option repo_tx" where
  "find_quote u256_from_str display_u256 bs58_encode sha256 merchant_id quote_id = tx_read (\<lambda>s.
     transposed (\<lambda>(q, a, c, ca). issued_quote_try_from u256_from_str display_u256 bs58_encode sha256 q a c ca)
       (Option.bind (find (\<lambda>q. qu_merchant_id q = merchant_id \<and> qu_id q = quote_id) (st_quotes s)) (\<lambda>q.
        Option.bind (find (\<lambda>a. at_quote_id a = qu_id q) (st_attempts s)) (\<lambda>a.
        Option.bind (find (\<lambda>c. co_id c = qu_collector_address_id q) (st_collectors s)) (\<lambda>c.
        Option.bind (find (\<lambda>ca. ca_id ca = qu_asset_id q) (st_assets s)) (\<lambda>ca.
        Some (q, a, c, ca)))))))"

definition find_quote_replay_tx ::
  "(string \<Rightarrow> u256 option) \<Rightarrow> (u256 \<Rightarrow> string) \<Rightarrow> (byte list \<Rightarrow> string) \<Rightarrow> (byte list \<Rightarrow> byte list)
     \<Rightarrow> uuid \<Rightarrow> string \<Rightarrow> string \<Rightarrow> byte list \<Rightarrow> issued_quote option repo_tx" where
  "find_quote_replay_tx u256_from_str display_u256 bs58_encode sha256 merchant_id route key hash =
     tx_bind (tx_gets (\<lambda>s. requests_of s (merchant_id, route, key))) (\<lambda>existing.
     case existing of
       None \<Rightarrow> tx_return None
     | Some (existing_hash, quote_id) \<Rightarrow>
         if existing_hash \<noteq> hash then tx_fail IdempotencyConflict
         else tx_bind (find_quote u256_from_str display_u256 bs58_encode sha256 merchant_id quote_id) (\<lambda>quote.
           case quote of
             None \<Rightarrow> tx_fail (CorruptData ''idempotency record references a missing quote'')
           | Some quote \<Rightarrow> tx_return (Some quote)))"

section \<open>The evidence for a quote\<close>

record collector_candidate =
  cd_id :: uuid
  cd_address :: string
  cd_open_leases :: nat

record quote_context =
  qc_candidates :: "collector_candidate list"
  qc_price :: "price_snapshot option"
  qc_policy :: "quote_policy_snapshot option"
  qc_rail_health :: "rail_health_snapshot option"
  qc_rail_stop_reason :: "string option"

text \<open>The newest row: \<open>ORDER BY observed_at DESC, id DESC LIMIT 1\<close>.\<close>

definition newest :: "('r \<Rightarrow> instant) \<Rightarrow> ('r \<Rightarrow> uuid) \<Rightarrow> 'r list \<Rightarrow> 'r option" where
  "newest observed_at row_id rows =
     (case rev (sort_key observed_at (sort_key row_id rows)) of [] \<Rightarrow> None | r # _ \<Rightarrow> Some r)"

definition receives_for :: "merchant_row \<Rightarrow> collector_row \<Rightarrow> bool" where
  "receives_for m c \<longleftrightarrow> me_collector_policy m = ''own'' \<and> co_merchant_id c = Some (me_id m) \<or>
     me_collector_policy m = ''shared'' \<and> co_merchant_id c = None"

definition open_leases :: "uuid \<Rightarrow> store \<Rightarrow> nat" where
  "open_leases collector_id s = rows_affected (\<lambda>l. le_collector_address_id l = collector_id) (st_amount_leases s)"

definition quoting_collectors :: "uuid \<Rightarrow> uuid \<Rightarrow> store \<Rightarrow> collector_row list" where
  "quoting_collectors merchant_id asset_id s =
     take 8 (sort_key (\<lambda>c. open_leases (co_id c) s) (sort_key co_valid_from (sort_key co_id
       (filter (\<lambda>c. co_asset_id c = asset_id \<and> co_state c = ''active'' \<and> co_valid_from c \<le> st_db_now s \<and>
          list_ex (\<lambda>ca. ca_id ca = co_asset_id c \<and> ca_status ca = ''active'') (st_assets s) \<and>
          list_ex (\<lambda>m. me_id m = merchant_id \<and> receives_for m c) (st_merchants s)) (st_collectors s)))))"

definition price_of_row :: "(string \<Rightarrow> u256 option) \<Rightarrow> price_snapshot_row \<Rightarrow> repository_error + price_snapshot" where
  "price_of_row u256_from_str r =
     bind_result (map_err corrupt_money (raw_from_str u256_from_str (nat_str (px_rate_numerator r)))) (\<lambda>numerator.
     bind_result (map_err corrupt_money (raw_from_str u256_from_str (nat_str (px_rate_denominator r)))) (\<lambda>denominator.
     Inr \<lparr> ps_id = px_id r, ps_rate_numerator = numerator, ps_rate_denominator = denominator,
           ps_sources = px_sources r, ps_observed_at = px_observed_at r \<rparr>))"

definition policy_of_row :: "quote_policy_row \<Rightarrow> repository_error + quote_policy_snapshot" where
  "policy_of_row r =
     (if qy_amount_slot_count r < 0 then Inl (CorruptData ''policy amount slot count is negative'')
      else Inr \<lparr> qp_id = qy_id r, qp_version = qy_version r, qp_quote_ttl_seconds = qy_quote_ttl_seconds r,
        qp_late_payment_window_seconds = qy_late_payment_window_seconds r,
        qp_amount_slot_count = nat (qy_amount_slot_count r),
        qp_max_price_age_seconds = qy_max_price_age_seconds r,
        qp_max_policy_age_seconds = qy_max_policy_age_seconds r,
        qp_max_rail_health_age_seconds = qy_max_rail_health_age_seconds r,
        qp_observed_at = qy_observed_at r \<rparr>)"

definition rail_of_row :: "rail_health_row \<Rightarrow> repository_error + rail_health_snapshot" where
  "rail_of_row r =
     bind_result (if rx_health r = ''healthy'' then Inr Healthy
       else if rx_health r = ''degraded'' then Inr Degraded
       else if rx_health r = ''unavailable'' then Inr Unavailable
       else Inl (CorruptData (''unknown rail health: '' @ rx_health r))) (\<lambda>health.
     Inr \<lparr> rh_id = rx_id r, rh_health = health, rh_observed_at = rx_observed_at r \<rparr>)"

definition pg_load_quote_context ::
  "(string \<Rightarrow> u256 option) \<Rightarrow> uuid \<Rightarrow> uuid \<Rightarrow> currency_code \<Rightarrow> store \<Rightarrow> repository_error + quote_context" where
  "pg_load_quote_context u256_from_str merchant_id asset_id currency s =
     (let collectors = quoting_collectors merchant_id asset_id s;
          price = newest px_observed_at px_id (filter (\<lambda>r. px_asset_id r = asset_id \<and>
            px_fiat_currency r = currency_as_str currency) (st_price_snapshots s));
          policy = find (\<lambda>r. qy_asset_id r = asset_id \<and> qy_fiat_currency r = currency_as_str currency \<and>
            qy_status r = ''active'') (st_quote_policies s);
          rail = newest rx_observed_at rx_id (filter (\<lambda>r. rx_asset_id r = asset_id) (st_rail_health s));
          stop = find (\<lambda>r. rs_asset_id r = asset_id \<and> rs_cleared_at r = None) (st_rail_stops s)
      in if collectors = [] then Inl CollectorUnavailable
         else
         bind_result (transposed (price_of_row u256_from_str) price) (\<lambda>price.
         bind_result (transposed policy_of_row policy) (\<lambda>policy.
         bind_result (transposed rail_of_row rail) (\<lambda>rail.
         Inr \<lparr> qc_candidates = map (\<lambda>c. \<lparr> cd_id = co_id c, cd_address = co_address_text c,
                 cd_open_leases = open_leases (co_id c) s \<rparr>) collectors,
               qc_price = price, qc_policy = policy, qc_rail_health = rail,
               qc_rail_stop_reason = map_option rs_reason_code stop \<rparr>))))"

section \<open>Issuing\<close>

definition unix_timestamp :: "instant \<Rightarrow> int" where
  "unix_timestamp t = t div nanos_per_sec"

text \<open>
  The plan was made before the transaction: every piece of evidence must still be what it
  rests on. An open stop of the rail is not asked for again.
\<close>

definition plan_current :: "quote_plan \<Rightarrow> store \<Rightarrow> bool" where
  "plan_current plan s \<longleftrightarrow>
     list_ex (\<lambda>c. co_id c = pl_collector_address_id plan \<and> co_asset_id c = pl_asset_id plan \<and>
        co_state c = ''active'' \<and> co_valid_from c \<le> pl_created_at plan \<and>
        co_address_text c = pl_collector_address plan \<and>
        list_ex (\<lambda>m. me_id m = pl_merchant_id plan \<and> receives_for m c) (st_merchants s)) (st_collectors s) \<and>
     list_ex (\<lambda>ca. ca_id ca = pl_asset_id plan \<and> ca_status ca = ''active'') (st_assets s) \<and>
     list_ex (\<lambda>p. px_id p = pl_price_snapshot_id plan \<and> px_asset_id p = pl_asset_id plan \<and>
        px_fiat_currency p = currency_as_str (fa_currency (pl_fiat_amount plan)) \<and>
        px_rate_numerator p = unat (pl_rate_numerator plan) \<and>
        px_rate_denominator p = unat (pl_rate_denominator plan) \<and> px_sources p = pl_price_sources plan \<and>
        px_observed_at p = pl_price_observed_at plan) (st_price_snapshots s) \<and>
     list_ex (\<lambda>p. qy_id p = pl_quote_policy_id plan \<and> qy_asset_id p = pl_asset_id plan \<and>
        qy_fiat_currency p = currency_as_str (fa_currency (pl_fiat_amount plan)) \<and> qy_status p = ''active'' \<and>
        qy_version p = pl_policy_version plan \<and>
        qy_quote_ttl_seconds p = unix_timestamp (pl_expires_at plan) - unix_timestamp (pl_created_at plan) \<and>
        qy_late_payment_window_seconds p =
          unix_timestamp (pl_late_payment_until plan) - unix_timestamp (pl_expires_at plan) \<and>
        qy_amount_slot_count p = int (pl_amount_slot_count plan) \<and>
        qy_max_price_age_seconds p = pl_max_price_age_seconds plan \<and>
        qy_max_policy_age_seconds p = pl_max_policy_age_seconds plan \<and>
        qy_max_rail_health_age_seconds p = pl_max_rail_health_age_seconds plan \<and>
        qy_observed_at p = pl_policy_observed_at plan) (st_quote_policies s) \<and>
     list_ex (\<lambda>h. rx_id h = pl_rail_health_snapshot_id plan \<and> rx_asset_id h = pl_asset_id plan \<and>
        rx_health h = ''healthy'' \<and> rx_observed_at h = pl_rail_health_observed_at plan) (st_rail_health s)"

definition free_slot :: "quote_plan \<Rightarrow> store \<Rightarrow> nat option" where
  "free_slot plan s = find (\<lambda>slot. \<not> list_ex (\<lambda>l. le_collector_address_id l = pl_collector_address_id plan \<and>
     le_amount_raw l = unat (pl_base_amount_raw plan) + slot) (st_amount_leases s)) [0..<pl_amount_slot_count plan]"

definition quote_entry :: "quote_plan \<Rightarrow> raw_amount \<Rightarrow> quote_row" where
  "quote_entry plan amount_raw =
     \<lparr> qu_id = pl_quote_id plan, qu_merchant_id = pl_merchant_id plan,
       qu_payment_intent_id = pl_payment_intent_id plan, qu_asset_id = pl_asset_id plan,
       qu_collector_address_id = pl_collector_address_id plan,
       qu_price_snapshot_id = pl_price_snapshot_id plan, qu_quote_policy_id = pl_quote_policy_id plan,
       qu_rail_health_snapshot_id = pl_rail_health_snapshot_id plan,
       qu_fiat_currency = currency_as_str (fa_currency (pl_fiat_amount plan)),
       qu_fiat_amount_minor = fa_minor_units (pl_fiat_amount plan),
       qu_base_amount_raw = unat (pl_base_amount_raw plan), qu_amount_raw = unat amount_raw,
       qu_rate_numerator = unat (pl_rate_numerator plan), qu_rate_denominator = unat (pl_rate_denominator plan),
       qu_price_sources = pl_price_sources plan, qu_price_observed_at = pl_price_observed_at plan,
       qu_policy_version = pl_policy_version plan,
       qu_rail_health_observed_at = pl_rail_health_observed_at plan, qu_created_at = pl_created_at plan,
       qu_expires_at = pl_expires_at plan, qu_late_payment_until = pl_late_payment_until plan \<rparr>"

definition quote_row_ok :: "quote_row \<Rightarrow> bool" where
  "quote_row_ok q \<longleftrightarrow> char_count (qu_fiat_currency q) \<le> 3 \<and>
     to_ascii_uppercase (qu_fiat_currency q) = qu_fiat_currency q \<and> 0 < qu_fiat_amount_minor q \<and>
     0 < qu_base_amount_raw q \<and> 0 < qu_amount_raw q \<and> 0 < qu_rate_numerator q \<and> 0 < qu_rate_denominator q \<and>
     (case json_as_array (qu_price_sources q) of None \<Rightarrow> False | Some xs \<Rightarrow> xs \<noteq> []) \<and>
     char_between 1 100 (qu_policy_version q) \<and> qu_created_at q < qu_expires_at q \<and>
     qu_expires_at q < qu_late_payment_until q"

text \<open>The foreign keys of a quote, and the trigger that keeps a merchant's quotes on its own collectors.\<close>

definition quote_refers :: "quote_row \<Rightarrow> store \<Rightarrow> bool" where
  "quote_refers q s \<longleftrightarrow>
     list_ex (\<lambda>i. in_id i = qu_payment_intent_id q \<and> in_merchant_id i = qu_merchant_id q) (st_intents s) \<and>
     list_ex (\<lambda>c. co_id c = qu_collector_address_id q \<and> co_asset_id c = qu_asset_id q \<and>
        list_ex (\<lambda>m. me_id m = qu_merchant_id q \<and> receives_for m c) (st_merchants s)) (st_collectors s) \<and>
     list_ex (\<lambda>p. px_id p = qu_price_snapshot_id q \<and> px_asset_id p = qu_asset_id q \<and>
        px_fiat_currency p = qu_fiat_currency q) (st_price_snapshots s) \<and>
     list_ex (\<lambda>p. qy_id p = qu_quote_policy_id q \<and> qy_asset_id p = qu_asset_id q \<and>
        qy_fiat_currency p = qu_fiat_currency q) (st_quote_policies s) \<and>
     list_ex (\<lambda>h. rx_id h = qu_rail_health_snapshot_id q \<and> rx_asset_id h = qu_asset_id q) (st_rail_health s)"

definition attempt_entry :: "(uuid \<Rightarrow> string) \<Rightarrow> quote_plan \<Rightarrow> raw_amount \<Rightarrow> attempt_row" where
  "attempt_entry new_token plan amount_raw =
     \<lparr> at_id = pl_attempt_id plan, at_merchant_id = pl_merchant_id plan,
       at_payment_intent_id = pl_payment_intent_id plan, at_quote_id = pl_quote_id plan,
       at_collector_address_id = pl_collector_address_id plan, at_expected_amount_raw = unat amount_raw,
       at_memo_reference = None, at_status = ''awaiting_payment'', at_quote_expires_at = pl_expires_at plan,
       at_late_payment_until = pl_late_payment_until plan, at_created_at = pl_created_at plan,
       at_updated_at = pl_created_at plan, at_checkout_token = new_token (pl_attempt_id plan) \<rparr>"

definition lease_entry :: "uuid \<Rightarrow> quote_plan \<Rightarrow> raw_amount \<Rightarrow> amount_lease_row" where
  "lease_entry lease_id plan amount_raw =
     \<lparr> le_id = lease_id, le_collector_address_id = pl_collector_address_id plan, le_amount_raw = unat amount_raw,
       le_attempt_id = pl_attempt_id plan, le_leased_from = pl_created_at plan,
       le_lease_until = pl_late_payment_until plan \<rparr>"

definition insert_quote :: "quote_row \<Rightarrow> unit repo_tx" where
  "insert_quote q =
     tx_then (tx_require (\<lambda>s. quote_row_ok q) (StorageUnavailable ''payment_quotes_check''))
     (tx_then (tx_require (\<lambda>s. \<not> list_ex (\<lambda>x. qu_id x = qu_id q) (st_quotes s)) (StorageUnavailable ''payment_quotes_pkey''))
     (tx_then (tx_require (quote_refers q) (StorageUnavailable ''payment_quotes_fkey''))
     (tx_modify (\<lambda>s. s\<lparr> st_quotes := st_quotes s @ [q] \<rparr>))))"

definition insert_attempt :: "attempt_row \<Rightarrow> unit repo_tx" where
  "insert_attempt a =
     tx_then (tx_require (\<lambda>s. 0 < at_expected_amount_raw a \<and> at_quote_expires_at a < at_late_payment_until a)
       (StorageUnavailable ''payment_attempts_check''))
     (tx_then (tx_require (\<lambda>s. \<not> list_ex (\<lambda>x. at_id x = at_id a \<or> at_quote_id x = at_quote_id a \<or>
         at_checkout_token x = at_checkout_token a) (st_attempts s)) (StorageUnavailable ''payment_attempts_pkey''))
     (tx_then (tx_require (\<lambda>s. \<not> list_ex (\<lambda>x. at_payment_intent_id x = at_payment_intent_id a \<and>
         at_status x = ''awaiting_payment'') (st_attempts s)) PaymentIntentNotQuotable)
     (tx_then (tx_require (\<lambda>s. list_ex (\<lambda>q. qu_id q = at_quote_id a \<and> qu_merchant_id q = at_merchant_id a \<and>
         qu_payment_intent_id q = at_payment_intent_id a \<and>
         qu_collector_address_id q = at_collector_address_id a) (st_quotes s))
       (StorageUnavailable ''payment_attempts_quote_identity_fk''))
     (tx_modify (\<lambda>s. s\<lparr> st_attempts := st_attempts s @ [a] \<rparr>)))))"

definition insert_lease :: "amount_lease_row \<Rightarrow> unit repo_tx" where
  "insert_lease l =
     tx_then (tx_require (\<lambda>s. 0 < le_amount_raw l \<and> le_leased_from l < le_lease_until l)
       (StorageUnavailable ''amount_leases_check''))
     (tx_then (tx_require (\<lambda>s. \<not> list_ex (\<lambda>x. le_id x = le_id l) (st_amount_leases s))
       (StorageUnavailable ''amount_leases_pkey''))
     (tx_then (tx_require (\<lambda>s. \<not> list_ex (\<lambda>x. le_attempt_id x = le_attempt_id l \<or>
         le_collector_address_id x = le_collector_address_id l \<and> le_amount_raw x = le_amount_raw l)
         (st_amount_leases s)) AmountSlotsExhausted)
     (tx_then (tx_require (\<lambda>s. list_ex (\<lambda>a. at_id a = le_attempt_id l \<and>
         at_collector_address_id a = le_collector_address_id l) (st_attempts s))
       (StorageUnavailable ''amount_leases_attempt_collector_fk''))
     (tx_modify (\<lambda>s. s\<lparr> st_amount_leases := st_amount_leases s @ [l] \<rparr>)))))"

definition insert_quote_attempt_and_lease ::
  "(uuid \<Rightarrow> string) \<Rightarrow> quote_plan \<Rightarrow> raw_amount \<Rightarrow> uuid repo_tx" where
  "insert_quote_attempt_and_lease new_token plan amount_raw =
     tx_then (insert_quote (quote_entry plan amount_raw))
     (tx_then (insert_attempt (attempt_entry new_token plan amount_raw))
     (tx_bind (tx_gets (\<lambda>s. st_now_v7 s (st_generated s))) (\<lambda>lease_id.
     tx_then (tx_modify (\<lambda>s. s\<lparr> st_generated := st_generated s + 1 \<rparr>))
     (tx_then (insert_lease (lease_entry lease_id plan amount_raw))
     (tx_return lease_id)))))"

definition key_audit :: "quote_plan \<Rightarrow> uuid \<Rightarrow> string \<Rightarrow> string \<Rightarrow> uuid \<Rightarrow> payload \<Rightarrow> audit_row" where
  "key_audit plan actor_key_id action resource_type resource_id payload =
     \<lparr> au_merchant_id = Some (pl_merchant_id plan), au_actor_type = ''api_key'', au_actor_id = Some actor_key_id,
       au_action = action, au_resource_type = resource_type, au_resource_id = resource_id, au_reason = None,
       au_payload = payload \<rparr>"

definition insert_quote_audit_events :: "quote_plan \<Rightarrow> uuid \<Rightarrow> uuid \<Rightarrow> raw_amount \<Rightarrow> unit repo_tx" where
  "insert_quote_audit_events plan actor_key_id lease_id amount_raw =
     tx_then (tx_require (merchant_exists (pl_merchant_id plan)) (StorageUnavailable ''audit_events_merchant_id_fkey''))
     (tx_modify (\<lambda>s. s\<lparr> st_audit := st_audit s @
       [key_audit plan actor_key_id ''payment_quote.issued'' ''payment_quote'' (pl_quote_id plan)
          [(''attempt_id'', PV_Uuid (pl_attempt_id plan)),
           (''payment_intent_id'', PV_Uuid (pl_payment_intent_id plan)),
           (''amount_raw'', PV_Amount amount_raw), (''expires_at'', PV_Time (pl_expires_at plan)),
           (''late_payment_until'', PV_Time (pl_late_payment_until plan)),
           (''policy_version'', PV_Text (pl_policy_version plan))],
        key_audit plan actor_key_id ''amount_lease.allocated'' ''amount_lease'' lease_id
          [(''attempt_id'', PV_Uuid (pl_attempt_id plan)),
           (''collector_address_id'', PV_Uuid (pl_collector_address_id plan)),
           (''amount_raw'', PV_Amount amount_raw), (''lease_until'', PV_Time (pl_late_payment_until plan))],
        key_audit plan actor_key_id ''payment_intent.awaiting_payment'' ''payment_intent'' (pl_payment_intent_id plan)
          [(''quote_id'', PV_Uuid (pl_quote_id plan)), (''attempt_id'', PV_Uuid (pl_attempt_id plan))]] \<rparr>))"

definition quotable :: "quote_plan \<Rightarrow> store \<Rightarrow> intent_row \<Rightarrow> bool" where
  "quotable plan s i \<longleftrightarrow>
     (in_status i = ''requires_quote'' \<or>
      in_status i = ''expired'' \<and> \<not> money_or_decision (pl_payment_intent_id plan) s) \<and>
     in_amount_minor i = fa_minor_units (pl_fiat_amount plan) \<and>
     in_currency i = currency_as_str (fa_currency (pl_fiat_amount plan))"

definition awaiting_intent :: "quote_plan \<Rightarrow> intent_row \<Rightarrow> bool" where
  "awaiting_intent plan i \<longleftrightarrow> in_id i = pl_payment_intent_id plan \<and> in_merchant_id i = pl_merchant_id plan \<and>
     in_status i \<in> set [''requires_quote'', ''expired'']"

text \<open>The quote itself: the reservation, the attempt and the intent that now awaits the payment.\<close>

definition open_quote :: "(uuid \<Rightarrow> string) \<Rightarrow> quote_plan \<Rightarrow> uuid \<Rightarrow> unit repo_tx" where
  "open_quote new_token plan actor_key_id =
     tx_bind (tx_read (\<lambda>s. ok_or PaymentIntentNotQuotable (find (\<lambda>i. in_id i = pl_payment_intent_id plan \<and>
       in_merchant_id i = pl_merchant_id plan) (st_intents s)))) (\<lambda>intent.
     tx_then (tx_require (\<lambda>s. quotable plan s intent) PaymentIntentNotQuotable)
     (tx_then (tx_require (\<lambda>s. pl_amount_slot_count plan \<le> i32_max)
       (CorruptData ''amount slot count exceeds PostgreSQL integer''))
     (tx_then (tx_require (plan_current plan) CollectorUnavailable)
     (tx_bind (tx_read (\<lambda>s. ok_or AmountSlotsExhausted (free_slot plan s))) (\<lambda>slot.
     tx_bind (tx_read (\<lambda>s. map_err corrupt_money (raw_checked_add_u32 (pl_base_amount_raw plan) (of_nat slot)))) (\<lambda>amount_raw.
     tx_bind (insert_quote_attempt_and_lease new_token plan amount_raw) (\<lambda>lease_id.
     tx_then (tx_require (\<lambda>s. rows_affected (awaiting_intent plan) (st_intents s) = 1) PaymentIntentNotQuotable)
     (tx_then (tx_modify (\<lambda>s. s\<lparr> st_intents := sql_update (awaiting_intent plan)
        (\<lambda>i. i\<lparr> in_status := ''awaiting_payment'', in_version := in_version i + 1,
                in_updated_at := pl_created_at plan \<rparr>) (st_intents s) \<rparr>))
     (insert_quote_audit_events plan actor_key_id lease_id amount_raw)))))))))"

definition issue_work ::
  "(string \<Rightarrow> u256 option) \<Rightarrow> (u256 \<Rightarrow> string) \<Rightarrow> (byte list \<Rightarrow> string) \<Rightarrow> (byte list \<Rightarrow> byte list)
     \<Rightarrow> (uuid \<Rightarrow> string) \<Rightarrow> quote_plan \<Rightarrow> uuid \<Rightarrow> string \<Rightarrow> string \<Rightarrow> idempotent_quote repo_tx" where
  "issue_work u256_from_str display_u256 bs58_encode sha256 new_token plan actor_key_id route key =
     tx_then (open_quote new_token plan actor_key_id)
     (tx_then (complete_request (pl_merchant_id plan) route key)
     (tx_bind (find_quote u256_from_str display_u256 bs58_encode sha256 (pl_merchant_id plan) (pl_quote_id plan)) (\<lambda>quote.
       case quote of
         None \<Rightarrow> tx_fail (CorruptData ''issued quote is missing'')
       | Some quote \<Rightarrow> tx_return (IQ_Issued quote))))"

definition issue_replay ::
  "(string \<Rightarrow> u256 option) \<Rightarrow> (u256 \<Rightarrow> string) \<Rightarrow> (byte list \<Rightarrow> string) \<Rightarrow> (byte list \<Rightarrow> byte list)
     \<Rightarrow> uuid \<Rightarrow> uuid \<Rightarrow> idempotent_quote repo_tx" where
  "issue_replay u256_from_str display_u256 bs58_encode sha256 merchant_id resource =
     tx_bind (find_quote u256_from_str display_u256 bs58_encode sha256 merchant_id resource) (\<lambda>quote.
     case quote of
       None \<Rightarrow> tx_fail (CorruptData ''idempotency record references a missing quote'')
     | Some quote \<Rightarrow> tx_return (IQ_Replayed quote))"

definition issue_quote_tx ::
  "(string \<Rightarrow> u256 option) \<Rightarrow> (u256 \<Rightarrow> string) \<Rightarrow> (byte list \<Rightarrow> string) \<Rightarrow> (byte list \<Rightarrow> byte list)
     \<Rightarrow> (uuid \<Rightarrow> string) \<Rightarrow> quote_plan \<Rightarrow> uuid \<Rightarrow> string \<Rightarrow> string \<Rightarrow> byte list \<Rightarrow> idempotent_quote repo_tx" where
  "issue_quote_tx u256_from_str display_u256 bs58_encode sha256 new_token plan actor_key_id route key hash =
     tx_bind (record_request (pl_merchant_id plan) route key hash (pl_quote_id plan)) (\<lambda>inserted.
     if inserted then
       issue_work u256_from_str display_u256 bs58_encode sha256 new_token plan actor_key_id route key
     else
       tx_bind (stored_request (pl_merchant_id plan) route key) (\<lambda>(stored_hash, resource).
       if stored_hash \<noteq> hash then tx_fail IdempotencyConflict
       else issue_replay u256_from_str display_u256 bs58_encode sha256 (pl_merchant_id plan) resource))"

definition pg_issue_quote ::
  "(string \<Rightarrow> u256 option) \<Rightarrow> (u256 \<Rightarrow> string) \<Rightarrow> (byte list \<Rightarrow> string) \<Rightarrow> (byte list \<Rightarrow> byte list)
     \<Rightarrow> (uuid \<Rightarrow> string) \<Rightarrow> quote_plan \<Rightarrow> uuid \<Rightarrow> string \<Rightarrow> string \<Rightarrow> byte list \<Rightarrow> store
     \<Rightarrow> (repository_error + idempotent_quote) \<times> store" where
  "pg_issue_quote u256_from_str display_u256 bs58_encode sha256 new_token plan actor_key_id route key hash =
     tx_run (issue_quote_tx u256_from_str display_u256 bs58_encode sha256 new_token plan actor_key_id route key hash)"

section \<open>Expiry\<close>

record expiry_result =
  ex_quotes_expired :: nat
  ex_leases_archived :: nat

definition due_attempts :: "instant \<Rightarrow> nat \<Rightarrow> store \<Rightarrow> attempt_row list" where
  "due_attempts now limit s = take limit (sort_key at_quote_expires_at (sort_key at_id
     (filter (\<lambda>a. at_status a = ''awaiting_payment'' \<and> at_quote_expires_at a \<le> now) (st_attempts s))))"

definition expired_intent :: "instant \<Rightarrow> intent_row \<Rightarrow> intent_row" where
  "expired_intent now i =
     (if in_status i = ''awaiting_payment''
      then i\<lparr> in_status := ''expired'', in_version := in_version i + 1, in_updated_at := now \<rparr> else i)"

definition intent_expiry_audit :: "string \<Rightarrow> attempt_row \<Rightarrow> instant \<Rightarrow> string \<times> payload" where
  "intent_expiry_audit status a now =
     (if status = ''awaiting_payment'' then (''payment_intent.expired'',
        [(''quote_id'', PV_Uuid (at_quote_id a)), (''attempt_id'', PV_Uuid (at_id a)), (''expired_at'', PV_Time now)])
      else if status = ''partially_paid'' \<or> status = ''risk_hold'' then (''payment_intent.quote_window_closed'',
        [(''attempt_id'', PV_Uuid (at_id a)), (''kept_status'', PV_Text status), (''expired_at'', PV_Time now)])
      else (''payment_intent.inconsistent_attempt_expired'',
        [(''attempt_id'', PV_Uuid (at_id a)), (''intent_status'', PV_Text status), (''expired_at'', PV_Time now)]))"

definition expire_attempt :: "instant \<Rightarrow> attempt_row \<Rightarrow> unit repo_tx" where
  "expire_attempt now a =
     tx_then (tx_require (\<lambda>s. rows_affected (\<lambda>x. at_id x = at_id a) (st_attempts s) = 1)
       (CorruptData ''a locked attempt due for expiry could not be expired''))
     (tx_then (tx_modify (\<lambda>s. s\<lparr> st_attempts := sql_update (\<lambda>x. at_id x = at_id a)
        (\<lambda>x. x\<lparr> at_status := ''expired'', at_updated_at := now \<rparr>) (st_attempts s) \<rparr>))
     (tx_bind (tx_read (\<lambda>s. ok_or (StorageUnavailable ''row not found'')
        (map_option in_status (find (\<lambda>i. in_id i = at_payment_intent_id a) (st_intents s))))) (\<lambda>intent_status.
     tx_then (tx_modify (\<lambda>s. s\<lparr> st_intents := sql_update (\<lambda>i. in_id i = at_payment_intent_id a)
        (expired_intent now) (st_intents s) \<rparr>))
     (tx_then (insert_system_audit (at_merchant_id a) ''payment_quote.expired'' ''payment_quote'' (at_quote_id a)
        [(''attempt_id'', PV_Uuid (at_id a)), (''expired_at'', PV_Time now)])
     (tx_then (insert_system_audit (at_merchant_id a) ''payment_attempt.expired'' ''payment_attempt'' (at_id a)
        [(''quote_id'', PV_Uuid (at_quote_id a)), (''expired_at'', PV_Time now)])
     (case intent_expiry_audit intent_status a now of (action, payload) \<Rightarrow>
        insert_system_audit (at_merchant_id a) action ''payment_intent'' (at_payment_intent_id a) payload))))))"

fun expire_attempts :: "instant \<Rightarrow> attempt_row list \<Rightarrow> unit repo_tx" where
  "expire_attempts now [] = tx_return ()"
| "expire_attempts now (a # as) = tx_then (expire_attempt now a) (expire_attempts now as)"

text \<open>Reservations whose late window ended, each with the merchant of its attempt.\<close>

definition due_leases :: "instant \<Rightarrow> nat \<Rightarrow> store \<Rightarrow> (amount_lease_row \<times> uuid) list" where
  "due_leases now limit s = take limit (sort_key (\<lambda>(l, _). le_lease_until l) (sort_key (\<lambda>(l, _). le_id l)
     (List.map_filter (\<lambda>l. if le_lease_until l \<le> now
        then map_option (\<lambda>a. (l, at_merchant_id a)) (find (\<lambda>a. at_id a = le_attempt_id l) (st_attempts s))
        else None) (st_amount_leases s))))"

definition lease_history_entry :: "instant \<Rightarrow> amount_lease_row \<Rightarrow> lease_history_row" where
  "lease_history_entry now l =
     \<lparr> lh_lease_id = le_id l, lh_collector_address_id = le_collector_address_id l, lh_amount_raw = le_amount_raw l,
       lh_attempt_id = le_attempt_id l, lh_leased_from = le_leased_from l, lh_leased_until = le_lease_until l,
       lh_released_at = now, lh_release_reason = ''expired'' \<rparr>"

definition archive_lease :: "instant \<Rightarrow> amount_lease_row \<times> uuid \<Rightarrow> unit repo_tx" where
  "archive_lease now due =
     (case due of (l, merchant_id) \<Rightarrow>
        let h = lease_history_entry now l
        in tx_then (tx_require (\<lambda>s. 0 < lh_amount_raw h \<and> lh_leased_from h \<le> lh_released_at h)
             (StorageUnavailable ''amount_lease_history_check''))
           (tx_then (tx_require (\<lambda>s. \<not> list_ex (\<lambda>x. lh_lease_id x = lh_lease_id h \<or> lh_attempt_id x = lh_attempt_id h)
               (st_lease_history s)) (StorageUnavailable ''amount_lease_history_key''))
           (tx_then (tx_require (\<lambda>s. list_ex (\<lambda>a. at_id a = lh_attempt_id h \<and>
               at_collector_address_id a = lh_collector_address_id h) (st_attempts s))
             (StorageUnavailable ''amount_lease_history_attempt_collector_fk''))
           (tx_then (tx_modify (\<lambda>s. s\<lparr> st_lease_history := st_lease_history s @ [h] \<rparr>))
           (tx_then (tx_modify (\<lambda>s. s\<lparr> st_amount_leases := filter (\<lambda>x. le_id x \<noteq> le_id l) (st_amount_leases s) \<rparr>))
           (insert_system_audit merchant_id ''amount_lease.archived'' ''amount_lease'' (le_id l)
             [(''attempt_id'', PV_Uuid (le_attempt_id l)), (''amount_raw'', PV_Number (le_amount_raw l)),
              (''release_reason'', PV_Text ''expired''), (''released_at'', PV_Time now)]))))))"

fun archive_leases :: "instant \<Rightarrow> (amount_lease_row \<times> uuid) list \<Rightarrow> unit repo_tx" where
  "archive_leases now [] = tx_return ()"
| "archive_leases now (l # ls) = tx_then (archive_lease now l) (archive_leases now ls)"

definition expire_tx :: "instant \<Rightarrow> nat \<Rightarrow> expiry_result repo_tx" where
  "expire_tx now limit =
     tx_bind (tx_gets (due_attempts now limit)) (\<lambda>attempts.
     tx_then (expire_attempts now attempts)
     (tx_bind (tx_gets (due_leases now limit)) (\<lambda>leases.
     tx_then (archive_leases now leases)
     (tx_return \<lparr> ex_quotes_expired = length attempts, ex_leases_archived = length leases \<rparr>))))"

definition pg_expire_quotes_and_archive_leases ::
  "instant \<Rightarrow> nat \<Rightarrow> store \<Rightarrow> (repository_error + expiry_result) \<times> store" where
  "pg_expire_quotes_and_archive_leases now limit = tx_run (expire_tx now limit)"

section \<open>The service\<close>

datatype quote_service_error =
    QE_InvalidIdempotencyKey
  | QE_PaymentIntentNotFound
  | QE_InvalidExpiryBatchLimit
  | QE_RailStopped string
  | QE_CapacityExhausted
  | QE_Quote quote_error
  | QE_Repository repository_error

fun quote_service_is_transient :: "quote_service_error \<Rightarrow> bool" where
  "quote_service_is_transient (QE_Repository e) = repository_is_transient e"
| "quote_service_is_transient _ = False"

record issue_quote_input =
  ii_payment_intent_id :: uuid
  ii_asset_id :: uuid

record issue_quote_result =
  ir_quote :: issued_quote
  ir_replayed :: bool

definition ISSUE_ROUTE :: string where
  "ISSUE_ROUTE = ''POST /v1/payment-intents/:id/quotes''"

definition MAX_COLLECTOR_ATTEMPTS :: nat where
  "MAX_COLLECTOR_ATTEMPTS = 8"

definition quote_key_ok :: "string \<Rightarrow> quote_service_error + unit" where
  "quote_key_ok value = (if \<not> idempotency_key_ok value then Inl QE_InvalidIdempotencyKey else Inr ())"

definition quote_request_hash :: "(byte list \<Rightarrow> byte list) \<Rightarrow> issue_quote_input \<Rightarrow> byte list" where
  "quote_request_hash sha256 input =
     sha256 (be_bytes 16 (ii_payment_intent_id input) @ be_bytes 16 (ii_asset_id input))"

fun quote_result :: "idempotent_quote \<Rightarrow> issue_quote_result" where
  "quote_result (IQ_Issued quote) = \<lparr> ir_quote = quote, ir_replayed = False \<rparr>"
| "quote_result (IQ_Replayed quote) = \<lparr> ir_quote = quote, ir_replayed = True \<rparr>"

definition admitted_candidates :: "nat option \<Rightarrow> collector_candidate list \<Rightarrow> collector_candidate list" where
  "admitted_candidates limit candidates =
     take MAX_COLLECTOR_ATTEMPTS (filter (\<lambda>c. case limit of None \<Rightarrow> True | Some n \<Rightarrow> cd_open_leases c < n) candidates)"

text \<open>
  What issuing needs from outside: the text of numbers, base58, SHA-256, the token of a new
  attempt, and the addition of seconds to an instant.
\<close>

record quote_env =
  qe_u256_from_str :: "string \<Rightarrow> u256 option"
  qe_display_u256 :: "u256 \<Rightarrow> string"
  qe_bs58_encode :: "byte list \<Rightarrow> string"
  qe_sha256 :: "byte list \<Rightarrow> byte list"
  qe_new_token :: "uuid \<Rightarrow> string"
  qe_add_secs :: "instant \<Rightarrow> int \<Rightarrow> instant option"

definition issue_on :: "quote_env \<Rightarrow> quote_plan \<Rightarrow> uuid \<Rightarrow> string \<Rightarrow> byte list \<Rightarrow> store
     \<Rightarrow> (repository_error + idempotent_quote) \<times> store" where
  "issue_on env plan actor_key_id key hash =
     pg_issue_quote (qe_u256_from_str env) (qe_display_u256 env) (qe_bs58_encode env) (qe_sha256 env)
       (qe_new_token env) plan actor_key_id ISSUE_ROUTE key hash"

fun issue_loop ::
  "quote_env \<Rightarrow> uuid \<Rightarrow> uuid \<Rightarrow> string \<Rightarrow> byte list \<Rightarrow> payment_intent \<Rightarrow> uuid \<Rightarrow> quote_context
     \<Rightarrow> collector_candidate list \<Rightarrow> repository_error option \<Rightarrow> store
     \<Rightarrow> (quote_service_error + issue_quote_result) \<times> store" where
  "issue_loop env merchant_id actor_key_id key hash intent asset_id context [] last_refusal s =
     (Inl (QE_Repository (case last_refusal of None \<Rightarrow> CollectorUnavailable | Some e \<Rightarrow> e)), s)"
| "issue_loop env merchant_id actor_key_id key hash intent asset_id context (c # cs) last_refusal s =
     (case quote_plan_build (qe_add_secs env) (st_now_v7 s (st_generated s)) (st_now_v7 s (st_generated s + 1))
        merchant_id (pi_id intent) asset_id (cd_id c) (cd_address c) (pi_amount intent)
        (qc_price context) (qc_policy context) (qc_rail_health context) (st_now s) of
        Inl e \<Rightarrow> (Inl (QE_Quote e), s)
      | Inr plan \<Rightarrow>
          (case issue_on env plan actor_key_id key hash (s\<lparr> st_generated := st_generated s + 2 \<rparr>) of
             (Inr quote, s') \<Rightarrow> (Inr (quote_result quote), s')
           | (Inl e, s') \<Rightarrow>
               if e = AmountSlotsExhausted \<or> e = CollectorUnavailable
               then issue_loop env merchant_id actor_key_id key hash intent asset_id context cs (Some e) s'
               else (Inl (QE_Repository e), s')))"

definition issue_inner ::
  "quote_env \<Rightarrow> nat option \<Rightarrow> uuid \<Rightarrow> uuid \<Rightarrow> string \<Rightarrow> issue_quote_input \<Rightarrow> store
     \<Rightarrow> (quote_service_error + issue_quote_result) \<times> store" where
  "issue_inner env max_open_leases merchant_id actor_key_id key input s =
     (let hash = quote_request_hash (qe_sha256 env) input
      in case bind_result (quote_key_ok key) (\<lambda>_.
              map_err QE_Repository (case find_quote_replay_tx (qe_u256_from_str env) (qe_display_u256 env)
                (qe_bs58_encode env) (qe_sha256 env) merchant_id ISSUE_ROUTE key hash s of
                  Inl e \<Rightarrow> Inl e | Inr (quote, _) \<Rightarrow> Inr quote)) of
           Inl e \<Rightarrow> (Inl e, s)
         | Inr (Some quote) \<Rightarrow> (Inr \<lparr> ir_quote = quote, ir_replayed = True \<rparr>, s)
         | Inr None \<Rightarrow>
             (case bind_result (map_err QE_Repository (pg_find_by_id merchant_id (ii_payment_intent_id input) s))
                (ok_or QE_PaymentIntentNotFound) of
                Inl e \<Rightarrow> (Inl e, s)
              | Inr intent \<Rightarrow>
                  (case map_err QE_Repository (pg_load_quote_context (qe_u256_from_str env) merchant_id
                     (ii_asset_id input) (fa_currency (pi_amount intent)) s) of
                     Inl e \<Rightarrow> (Inl e, s)
                   | Inr context \<Rightarrow>
                       (case qc_rail_stop_reason context of
                          Some reason \<Rightarrow> (Inl (QE_RailStopped reason), s)
                        | None \<Rightarrow>
                            let admitted = admitted_candidates max_open_leases (qc_candidates context)
                            in if admitted = [] then (Inl QE_CapacityExhausted, s)
                               else issue_loop env merchant_id actor_key_id key hash intent (ii_asset_id input)
                                      context admitted None s))))"

definition service_expire_due :: "nat \<Rightarrow> store \<Rightarrow> (quote_service_error + expiry_result) \<times> store" where
  "service_expire_due limit s =
     (if limit = 0 \<or> limit > 10000 then (Inl QE_InvalidExpiryBatchLimit, s)
      else (case pg_expire_quotes_and_archive_leases (st_now s) limit s of
              (Inl e, s') \<Rightarrow> (Inl (QE_Repository e), s')
            | (Inr r, s') \<Rightarrow> (Inr r, s')))"

end
