(* ===== verification/Endpoint_Idempotency.thy ===== *)
theory Endpoint_Idempotency
  imports Quote_Store Sample_Store
begin

text \<open>
  The three endpoints that a merchant repeats safely: creating an intent, cancelling one and
  issuing a quote. Each is an interpretation of \<open>idempotent_endpoint\<close> on its repository
  operation: the table of requests evolves as the abstract map does, and a call that
  answers nothing leaves it alone. A request is the record of the arguments of the call.
\<close>

section \<open>Shared shape\<close>

text \<open>A transaction that leaves the recorded requests alone.\<close>

definition tx_requests_frame :: "'a repo_tx \<Rightarrow> bool" where
  "tx_requests_frame m \<longleftrightarrow> (\<forall>R. tx_keeps (\<lambda>s. requests_of s = R) m)"

lemma tx_requests_frameI:
  "(\<And>R. tx_keeps (\<lambda>s. requests_of s = R) m) \<Longrightarrow> tx_requests_frame m"
  by (simp add: tx_requests_frame_def)

lemma tx_requests_frameD: "tx_requests_frame m \<Longrightarrow> m s = Inr (x, s') \<Longrightarrow> requests_of s' = requests_of s"
  unfolding tx_requests_frame_def tx_keeps_def by blast

lemma requests_of_frame [simp]:
  "requests_of (s\<lparr> st_intents := a \<rparr>) = requests_of s" "requests_of (s\<lparr> st_attempts := b \<rparr>) = requests_of s"
  "requests_of (s\<lparr> st_audit := c \<rparr>) = requests_of s" "requests_of (s\<lparr> st_outbox := d \<rparr>) = requests_of s"
  "requests_of (s\<lparr> st_quotes := e \<rparr>) = requests_of s" "requests_of (s\<lparr> st_amount_leases := f \<rparr>) = requests_of s"
  "requests_of (s\<lparr> st_generated := g \<rparr>) = requests_of s"
  by (rule requests_frame, simp)+

lemma complete_request_frame: "tx_requests_frame (complete_request m route key)"
  by (intro tx_requests_frameI tx_keepsI) (auto dest: complete_request_requests)

text \<open>
  The shape of an idempotent call: record the request, then either do the work or answer
  what was recorded.
\<close>

definition idempotent_call ::
  "uuid \<Rightarrow> string \<Rightarrow> string \<Rightarrow> byte list \<Rightarrow> uuid \<Rightarrow> 'a repo_tx \<Rightarrow> (uuid \<Rightarrow> 'a repo_tx) \<Rightarrow> 'a repo_tx" where
  "idempotent_call m route key hash resource work replay =
     tx_bind (record_request m route key hash resource) (\<lambda>inserted.
       if inserted then work
       else tx_bind (stored_request m route key) (\<lambda>(stored_hash, r).
         if stored_hash \<noteq> hash then tx_fail IdempotencyConflict else replay r))"

lemma idempotent_call_Inr:
  assumes "idempotent_call m route key hash resource work replay s = Inr (x, s')"
    and "tx_requests_frame work" "\<And>r. tx_requests_frame (replay r)"
  shows "(\<exists>s1. work s1 = Inr (x, s') \<and>
       idem_call (m, route, key) hash resource (requests_of s) = (Fresh resource, requests_of s')) \<or>
     (\<exists>r. replay r s = Inr (x, s') \<and>
       idem_call (m, route, key) hash resource (requests_of s) = (Replay r, requests_of s'))"
proof -
  from assms(1) obtain inserted s1 where r: "record_request m route key hash resource s = Inr (inserted, s1)"
    and c: "(if inserted then work else tx_bind (stored_request m route key) (\<lambda>(stored_hash, r).
         if stored_hash \<noteq> hash then tx_fail IdempotencyConflict else replay r)) s1 = Inr (x, s')"
    unfolding idempotent_call_def tx_bind_iff by blast
  note effect = record_request_effect [OF r]
  show ?thesis
  proof (cases inserted)
    case True
    with c have w: "work s1 = Inr (x, s')" by simp
    with True effect tx_requests_frameD [OF assms(2) w] show ?thesis by (auto simp: idem_call_iff)
  next
    case False
    with effect have s1: "s1 = s" by blast
    with c False obtain r where q: "requests_of s (m, route, key) = Some (hash, r)" "replay r s = Inr (x, s')"
      by (auto simp: tx_simps stored_request_iff split: if_splits)
    with tx_requests_frameD [OF assms(3) q(2)] show ?thesis by (auto simp: idem_call_iff)
  qed
qed

lemma idempotent_call_conflict:
  assumes "idempotent_call m route key hash resource work replay s = Inl IdempotencyConflict"
    and "tx_never IdempotencyConflict work" "\<And>r. tx_never IdempotencyConflict (replay r)"
  shows "idem_call (m, route, key) hash resource (requests_of s) = (Conflict, requests_of s)"
proof -
  from assms(1) obtain inserted s1 where r: "record_request m route key hash resource s = Inr (inserted, s1)"
    and c: "(if inserted then work else tx_bind (stored_request m route key) (\<lambda>(stored_hash, r).
         if stored_hash \<noteq> hash then tx_fail IdempotencyConflict else replay r)) s1 = Inl IdempotencyConflict"
    unfolding idempotent_call_def tx_bind_Inl_iff using tx_neverD [OF record_request_never] by blast
  note effect = record_request_effect [OF r]
  have "\<not> inserted" using c tx_neverD [OF assms(2)] by auto
  with effect c tx_neverD [OF stored_request_never] tx_neverD [OF assms(3)]
  obtain h r where "requests_of s (m, route, key) = Some (h, r)" "h \<noteq> hash"
    by (auto simp: tx_errors stored_request_iff split: if_splits)
  then show ?thesis by (auto simp: idem_call_iff)
qed

text \<open>What a caller sees of a call, and that it is what the specification answers.\<close>

definition endpoint_answer ::
  "('a \<Rightarrow> uuid idem_answer option) \<Rightarrow> repository_error + 'a \<Rightarrow> uuid idem_answer option" where
  "endpoint_answer ans r =
     (case r of Inl e \<Rightarrow> if e = IdempotencyConflict then Some Conflict else None | Inr x \<Rightarrow> ans x)"

lemma idempotent_call_refines:
  assumes "tx_run (idempotent_call m route key hash resource work replay) s = (out, s')"
    and "endpoint_answer ans out = Some a"
    and "tx_requests_frame work" "\<And>r. tx_requests_frame (replay r)"
    and "tx_never IdempotencyConflict work" "\<And>r. tx_never IdempotencyConflict (replay r)"
    and "\<And>s x s'. work s = Inr (x, s') \<Longrightarrow> ans x = None \<or> ans x = Some (Fresh resource)"
    and "\<And>r s x s'. replay r s = Inr (x, s') \<Longrightarrow> ans x = None \<or> ans x = Some (Replay r)"
  shows "idem_call (m, route, key) hash resource (requests_of s) = (a, requests_of s')"
proof (cases out)
  case (Inl e)
  with assms(1,2) have "a = Conflict" "s' = s"
    "idempotent_call m route key hash resource work replay s = Inl IdempotencyConflict"
    by (auto simp: endpoint_answer_def tx_run_Inl_iff split: if_splits)
  then show ?thesis using idempotent_call_conflict [OF _ assms(5,6)] by simp
next
  case (Inr x)
  with assms(1,2) have a: "ans x = Some a" and "idempotent_call m route key hash resource work replay s = Inr (x, s')"
    by (auto simp: endpoint_answer_def tx_run_Inr_iff)
  from idempotent_call_Inr [OF this(2) assms(3,4)] show ?thesis using a assms(7,8) by fastforce
qed

section \<open>Reading a resource back\<close>

lemma find_intent_iff:
  "find_intent m i s = Inr (Some intent, s') \<Longrightarrow> s' = s \<and> pi_id intent = i"
  by (auto simp: find_intent_def tx_simps transposed_def intent_try_from_def result_simps
      split: option.splits if_splits dest: find_SomeD)

lemma find_intent_never: "tx_never IdempotencyConflict (find_intent m i)"
  unfolding find_intent_def
  by (intro tx_never_intros) (auto simp: transposed_def intent_try_from_def result_simps split: option.splits if_splits)

lemma find_intent_frame: "tx_requests_frame (find_intent m i)"
  unfolding find_intent_def by (intro tx_requests_frameI tx_keeps_intros)

lemma find_quote_iff:
  "find_quote f d b h m i s = Inr (Some quote, s') \<Longrightarrow> s' = s \<and> iq_id quote = i"
  by (auto simp: find_quote_def tx_simps transposed_def issued_quote_try_from_def result_simps bind_eq_Some_conv
      split: option.splits if_splits dest!: find_SomeD)

lemma contract_display_never: "contract_display b h chain key \<noteq> Inl IdempotencyConflict"
  by (auto simp: contract_display_def result_simps split: if_splits option.splits)

lemma find_quote_never: "tx_never IdempotencyConflict (find_quote f d b h m i)"
  unfolding find_quote_def
  by (intro tx_never_intros) (auto simp: transposed_def issued_quote_try_from_def result_simps corrupt_money_def
      contract_display_never split: option.splits if_splits)

lemma find_quote_frame: "tx_requests_frame (find_quote f d b h m i)"
  unfolding find_quote_def by (intro tx_requests_frameI tx_keeps_intros)

section \<open>Creating an intent\<close>

record create_call =
  cc_intent :: payment_intent
  cc_actor_key_id :: uuid
  cc_route :: string
  cc_key :: string
  cc_hash :: "byte list"

definition run_create :: "create_call \<Rightarrow> store \<Rightarrow> (repository_error + idempotent_create) \<times> store" where
  "run_create q = pg_create_idempotently (cc_intent q) (cc_actor_key_id q) (cc_route q) (cc_key q) (cc_hash q)"

fun created_answer :: "idempotent_create \<Rightarrow> uuid idem_answer" where
  "created_answer (IC_Created intent) = Fresh (pi_id intent)"
| "created_answer (IC_Replayed intent) = Replay (pi_id intent)"

definition create_answer :: "repository_error + idempotent_create \<Rightarrow> uuid idem_answer option" where
  "create_answer = endpoint_answer (\<lambda>c. Some (created_answer c))"

lemma create_is_call:
  "create_idempotently_tx intent actor route key hash = idempotent_call (pi_merchant_id intent) route key hash
     (pi_id intent) (create_work intent actor route key) (create_replay (pi_merchant_id intent))"
  unfolding create_idempotently_tx_def idempotent_call_def create_work_def create_replay_def ..

lemma frame_intros:
  "tx_requests_frame m \<Longrightarrow> tx_keeps (\<lambda>s. requests_of s = R) m"
  by (simp add: tx_requests_frame_def)

lemma create_work_frame: "tx_requests_frame (create_work intent actor route key)"
  unfolding create_work_def insert_intent_def insert_creation_audit_event_def Let_def
  by (intro tx_requests_frameI tx_keeps_intros frame_intros [OF complete_request_frame]; simp)

lemma create_replay_frame: "tx_requests_frame (create_replay m r)"
  unfolding create_replay_def
  by (intro tx_requests_frameI tx_keeps_intros frame_intros [OF find_intent_frame])

lemma create_work_never: "tx_never IdempotencyConflict (create_work intent actor route key)"
  unfolding create_work_def insert_intent_def insert_creation_audit_event_def Let_def
  by (intro tx_never_intros complete_request_never; simp)

lemma create_replay_never: "tx_never IdempotencyConflict (create_replay m r)"
  unfolding create_replay_def by (intro tx_never_intros find_intent_never; simp)

lemma create_work_result: "create_work intent actor route key s = Inr (x, s') \<Longrightarrow> x = IC_Created intent"
  by (auto simp: create_work_def tx_simps)

lemma create_replay_result:
  "create_replay m r s = Inr (x, s') \<Longrightarrow> \<exists>intent. x = IC_Replayed intent \<and> pi_id intent = r"
  by (auto simp: create_replay_def tx_simps split: option.splits dest: find_intent_iff)

interpretation creating: idempotent_endpoint "\<lambda>q. (pi_merchant_id (cc_intent q), cc_route q, cc_key q)" cc_hash
  "\<lambda>q. pi_id (cc_intent q)" run_create create_answer requests_of
proof
  fix q s out s'
  assume r: "run_create q s = (out, s')"
  show "idem_call (pi_merchant_id (cc_intent q), cc_route q, cc_key q) (cc_hash q) (pi_id (cc_intent q)) (requests_of s) =
      (a, requests_of s')" if "create_answer out = Some a" for a
    using r [unfolded run_create_def pg_create_idempotently_def create_is_call] that [unfolded create_answer_def]
    by (rule idempotent_call_refines [OF _ _ create_work_frame create_replay_frame create_work_never
          create_replay_never]) (auto dest: create_work_result create_replay_result)
  show "requests_of s' = requests_of s" if "create_answer out = None"
    using r that by (auto simp: run_create_def pg_create_idempotently_def create_answer_def endpoint_answer_def
        tx_run_Inl_iff split: sum.splits)
qed

section \<open>Cancelling an intent\<close>

record cancel_call =
  kc_merchant_id :: uuid
  kc_intent_id :: uuid
  kc_actor_key_id :: uuid
  kc_route :: string
  kc_key :: string
  kc_hash :: "byte list"
  kc_reason :: "string option"

definition run_cancel :: "cancel_call \<Rightarrow> store \<Rightarrow> (repository_error + idempotent_create option) \<times> store" where
  "run_cancel q = pg_cancel_idempotently (kc_merchant_id q) (kc_intent_id q) (kc_actor_key_id q) (kc_route q)
     (kc_key q) (kc_hash q) (kc_reason q)"

definition cancel_answer :: "repository_error + idempotent_create option \<Rightarrow> uuid idem_answer option" where
  "cancel_answer = endpoint_answer (map_option created_answer)"

lemma cancel_is_call:
  "cancel_idempotently_tx m intent_id actor route key hash reason = idempotent_call m route key hash intent_id
     (cancel_work m intent_id actor route key reason) (cancel_replay m)"
  unfolding cancel_idempotently_tx_def idempotent_call_def ..

lemma cancel_work_frame: "tx_requests_frame (cancel_work m intent_id actor route key reason)"
  unfolding cancel_work_def cancel_locked_def insert_system_audit_def enqueue_outbox_def cancel_rows_def
  by (intro tx_requests_frameI tx_keeps_intros frame_intros [OF complete_request_frame]
      frame_intros [OF find_intent_frame]; simp)

lemma cancel_replay_frame: "tx_requests_frame (cancel_replay m r)"
  unfolding cancel_replay_def
  by (intro tx_requests_frameI tx_keeps_intros frame_intros [OF find_intent_frame])

lemma cancel_work_never: "tx_never IdempotencyConflict (cancel_work m intent_id actor route key reason)"
  unfolding cancel_work_def cancel_locked_def insert_system_audit_def enqueue_outbox_def
  by (intro tx_never_intros complete_request_never find_intent_never; simp)

lemma cancel_replay_never: "tx_never IdempotencyConflict (cancel_replay m r)"
  unfolding cancel_replay_def by (intro tx_never_intros find_intent_never)

lemma cancel_work_result:
  "cancel_work m intent_id actor route key reason s = Inr (x, s') \<Longrightarrow>
     x = None \<or> (\<exists>intent. x = Some (IC_Created intent) \<and> pi_id intent = intent_id)"
  by (auto simp: cancel_work_def cancel_locked_def tx_simps split: option.splits dest: find_intent_iff)

lemma cancel_replay_result:
  assumes "cancel_replay m r s = Inr (x, s')"
  shows "x = None \<or> (\<exists>intent. x = Some (IC_Replayed intent) \<and> pi_id intent = r)"
proof -
  from assms obtain y where "find_intent m r s = Inr (y, s')" "x = map_option IC_Replayed y"
    by (auto simp: cancel_replay_def tx_simps)
  then show ?thesis using find_intent_iff by (cases y) auto
qed

lemma cancel_run_cases:
  assumes "pg_cancel_idempotently m i actor route key hash reason s = (out, s')"
  obtains "out = Inr None" "s' = s"
  | "out \<noteq> Inr None" "tx_run (cancel_idempotently_tx m i actor route key hash reason) s = (out, s')"
  using assms by (auto simp: pg_cancel_idempotently_def split: prod.splits sum.splits option.splits)

interpretation cancelling: idempotent_endpoint "\<lambda>q. (kc_merchant_id q, kc_route q, kc_key q)" kc_hash
  kc_intent_id run_cancel cancel_answer requests_of
proof
  fix q s out s'
  assume r: "run_cancel q s = (out, s')"
  show "idem_call (kc_merchant_id q, kc_route q, kc_key q) (kc_hash q) (kc_intent_id q) (requests_of s) =
      (a, requests_of s')" if a: "cancel_answer out = Some a" for a
    using r [unfolded run_cancel_def]
  proof (cases rule: cancel_run_cases)
    case 2
    from 2(2) [unfolded cancel_is_call] a [unfolded cancel_answer_def] show ?thesis
      by (rule idempotent_call_refines [OF _ _ cancel_work_frame cancel_replay_frame cancel_work_never
            cancel_replay_never]) (auto dest: cancel_work_result cancel_replay_result)
  qed (use a in \<open>simp add: cancel_answer_def endpoint_answer_def\<close>)
  show "requests_of s' = requests_of s" if "cancel_answer out = None"
    using r [unfolded run_cancel_def]
  proof (cases rule: cancel_run_cases)
    case 2
    with that show ?thesis
      by (cases out) (auto simp: cancel_answer_def endpoint_answer_def tx_run_Inl_iff)
  qed simp
qed

section \<open>Issuing a quote\<close>

record issue_call =
  ic_env :: quote_env
  ic_plan :: quote_plan
  ic_actor_key_id :: uuid
  ic_key :: string
  ic_hash :: "byte list"

definition run_issue :: "issue_call \<Rightarrow> store \<Rightarrow> (repository_error + idempotent_quote) \<times> store" where
  "run_issue q = issue_on (ic_env q) (ic_plan q) (ic_actor_key_id q) (ic_key q) (ic_hash q)"

fun issued_answer :: "idempotent_quote \<Rightarrow> uuid idem_answer" where
  "issued_answer (IQ_Issued quote) = Fresh (iq_id quote)"
| "issued_answer (IQ_Replayed quote) = Replay (iq_id quote)"

definition issue_answer :: "repository_error + idempotent_quote \<Rightarrow> uuid idem_answer option" where
  "issue_answer = endpoint_answer (\<lambda>q. Some (issued_answer q))"

lemma issue_is_call:
  "issue_quote_tx f d b h token plan actor route key hash = idempotent_call (pl_merchant_id plan) route key hash
     (pl_quote_id plan) (issue_work f d b h token plan actor route key) (issue_replay f d b h (pl_merchant_id plan))"
  unfolding issue_quote_tx_def idempotent_call_def ..

lemma open_quote_frame: "tx_requests_frame (open_quote token plan actor)"
  unfolding open_quote_def insert_quote_attempt_and_lease_def insert_quote_def insert_attempt_def
    insert_lease_def insert_quote_audit_events_def
  by (intro tx_requests_frameI tx_keeps_intros; simp)

lemma open_quote_never: "tx_never IdempotencyConflict (open_quote token plan actor)"
  unfolding open_quote_def insert_quote_attempt_and_lease_def insert_quote_def insert_attempt_def
    insert_lease_def insert_quote_audit_events_def
  by (intro tx_never_intros; simp add: result_simps corrupt_money_def)

lemma issue_work_frame: "tx_requests_frame (issue_work f d b h token plan actor route key)"
  unfolding issue_work_def
  by (intro tx_requests_frameI tx_keeps_intros frame_intros [OF complete_request_frame]
      frame_intros [OF find_quote_frame] frame_intros [OF open_quote_frame])

lemma issue_replay_frame: "tx_requests_frame (issue_replay f d b h m r)"
  unfolding issue_replay_def
  by (intro tx_requests_frameI tx_keeps_intros frame_intros [OF find_quote_frame])

lemma issue_work_never: "tx_never IdempotencyConflict (issue_work f d b h token plan actor route key)"
  unfolding issue_work_def
  by (intro tx_never_intros complete_request_never find_quote_never open_quote_never; simp)

lemma issue_replay_never: "tx_never IdempotencyConflict (issue_replay f d b h m r)"
  unfolding issue_replay_def by (intro tx_never_intros find_quote_never; simp)

lemma issue_work_result:
  "issue_work f d b h token plan actor route key s = Inr (x, s') \<Longrightarrow>
     \<exists>quote. x = IQ_Issued quote \<and> iq_id quote = pl_quote_id plan"
  by (auto simp: issue_work_def tx_simps split: option.splits dest: find_quote_iff)

lemma issue_replay_result:
  "issue_replay f d b h m r s = Inr (x, s') \<Longrightarrow> \<exists>quote. x = IQ_Replayed quote \<and> iq_id quote = r"
  by (auto simp: issue_replay_def tx_simps split: option.splits dest: find_quote_iff)

interpretation issuing: idempotent_endpoint "\<lambda>q. (pl_merchant_id (ic_plan q), ISSUE_ROUTE, ic_key q)" ic_hash
  "\<lambda>q. pl_quote_id (ic_plan q)" run_issue issue_answer requests_of
proof
  fix q s out s'
  assume r: "run_issue q s = (out, s')"
  show "idem_call (pl_merchant_id (ic_plan q), ISSUE_ROUTE, ic_key q) (ic_hash q) (pl_quote_id (ic_plan q))
      (requests_of s) = (a, requests_of s')" if "issue_answer out = Some a" for a
    using r [unfolded run_issue_def issue_on_def pg_issue_quote_def issue_is_call] that [unfolded issue_answer_def]
    by (rule idempotent_call_refines [OF _ _ issue_work_frame issue_replay_frame issue_work_never
          issue_replay_never]) (auto dest: issue_work_result issue_replay_result)
  show "requests_of s' = requests_of s" if "issue_answer out = None"
    using r that by (auto simp: run_issue_def issue_on_def pg_issue_quote_def issue_answer_def endpoint_answer_def
        tx_run_Inl_iff split: sum.splits)
qed

section \<open>What a merchant can rely on\<close>

text \<open>C12: The merchant endpoints implement one specification, a map from merchant, route and
  key to the hash of the first request and its resource: creating an intent, cancelling one
  and issuing a quote each answer what the specification answers and change the recorded
  requests as it does, and a call that ends in any other error leaves the records alone.\<close>

theorem merchant_endpoints_refine:
  "(case pg_create_idempotently intent actor route key hash s of (out, s') \<Rightarrow>
      (case create_answer out of
         None \<Rightarrow> requests_of s' = requests_of s
       | Some a \<Rightarrow> idem_call (pi_merchant_id intent, route, key) hash (pi_id intent) (requests_of s) =
           (a, requests_of s'))) \<and>
   (case pg_cancel_idempotently m i actor route key hash reason s of (out, s') \<Rightarrow>
      (case cancel_answer out of
         None \<Rightarrow> requests_of s' = requests_of s
       | Some a \<Rightarrow> idem_call (m, route, key) hash i (requests_of s) = (a, requests_of s'))) \<and>
   (case issue_on env plan actor key hash s of (out, s') \<Rightarrow>
      (case issue_answer out of
         None \<Rightarrow> requests_of s' = requests_of s
       | Some a \<Rightarrow> idem_call (pl_merchant_id plan, ISSUE_ROUTE, key) hash (pl_quote_id plan) (requests_of s) =
           (a, requests_of s')))"
proof (intro conjI)
  let ?c = "\<lparr> cc_intent = intent, cc_actor_key_id = actor, cc_route = route, cc_key = key, cc_hash = hash \<rparr>"
  show "case pg_create_idempotently intent actor route key hash s of (out, s') \<Rightarrow>
      (case create_answer out of
         None \<Rightarrow> requests_of s' = requests_of s
       | Some a \<Rightarrow> idem_call (pi_merchant_id intent, route, key) hash (pi_id intent) (requests_of s) =
           (a, requests_of s'))"
    using creating.refines [of ?c s] creating.silent [of ?c s]
    by (auto simp: run_create_def split: prod.split option.split)
  let ?k = "\<lparr> kc_merchant_id = m, kc_intent_id = i, kc_actor_key_id = actor, kc_route = route, kc_key = key,
    kc_hash = hash, kc_reason = reason \<rparr>"
  show "case pg_cancel_idempotently m i actor route key hash reason s of (out, s') \<Rightarrow>
      (case cancel_answer out of
         None \<Rightarrow> requests_of s' = requests_of s
       | Some a \<Rightarrow> idem_call (m, route, key) hash i (requests_of s) = (a, requests_of s'))"
    using cancelling.refines [of ?k s] cancelling.silent [of ?k s]
    by (auto simp: run_cancel_def split: prod.split option.split)
  let ?q = "\<lparr> ic_env = env, ic_plan = plan, ic_actor_key_id = actor, ic_key = key, ic_hash = hash \<rparr>"
  show "case issue_on env plan actor key hash s of (out, s') \<Rightarrow>
      (case issue_answer out of
         None \<Rightarrow> requests_of s' = requests_of s
       | Some a \<Rightarrow> idem_call (pl_merchant_id plan, ISSUE_ROUTE, key) hash (pl_quote_id plan) (requests_of s) =
           (a, requests_of s'))"
    using issuing.refines [of ?q s] issuing.silent [of ?q s]
    by (auto simp: run_issue_def split: prod.split option.split)
qed

text \<open>Any sequence of calls of the three endpoints, by any merchants.\<close>

inductive merchant_step :: "store \<Rightarrow> store \<Rightarrow> bool" where
  creates: "run_create c s = (out, s') \<Longrightarrow> merchant_step s s'"
| cancels: "run_cancel k s = (out, s') \<Longrightarrow> merchant_step s s'"
| issues: "run_issue q s = (out, s') \<Longrightarrow> merchant_step s s'"

lemma merchant_steps_grow: "merchant_step\<^sup>*\<^sup>* s s' \<Longrightarrow> requests_of s \<subseteq>\<^sub>m requests_of s'"
proof (induction rule: rtranclp_induct)
  case (step s' s'')
  from step(2) have "requests_of s' \<subseteq>\<^sub>m requests_of s''"
    by cases (rule creating.requests_grow cancelling.requests_grow issuing.requests_grow, assumption)+
  with step(3) show ?case by (rule map_le_trans)
qed simp


definition sample_create :: "uuid \<Rightarrow> byte list \<Rightarrow> create_call" where
  "sample_create i hash =
     \<lparr> cc_intent = \<lparr> pi_id = i, pi_merchant_id = 1,
         pi_amount = \<lparr> fa_currency = CurrencyCode ''USD'', fa_minor_units = 500 \<rparr>, pi_status = PI_RequiresQuote,
         pi_reference = ''order-2'', pi_description = None, pi_metadata = JObject [], pi_created_at = 1000,
         pi_updated_at = 1000 \<rparr>,
       cc_actor_key_id = 30, cc_route = CREATE_ROUTE, cc_key = ''create-request-1'', cc_hash = hash \<rparr>"

lemmas create_eval = sample_create_def run_create_def pg_create_idempotently_def create_idempotently_tx_def
  record_request_def stored_request_def complete_request_def create_work_def create_replay_def insert_intent_def
  insert_creation_audit_event_def intent_entry_def intent_row_ok_def intent_exists_def merchant_exists_def
  request_recorded_def idem_key_def char_between_def char_count_def payment_intent_status_as_str_def
  to_ascii_uppercase_def char_to_upper_def is_ascii_lowercase_def tx_run_def tx_bind_def tx_then_def tx_return_def tx_fail_def tx_gets_def tx_read_def
  tx_modify_def tx_require_def Let_def


lemma intent_round_trip:
  assumes "currency_wf (fa_currency (pi_amount intent))" "0 < fa_minor_units (pi_amount intent)"
    and "json_is_object (pi_metadata intent)"
  shows "intent_try_from (intent_entry intent) = Inr intent"
proof -
  have "payment_intent_status_from_str (payment_intent_status_as_str st) = Inr st" for st
    by (cases st) (simp_all add: payment_intent_status_from_str_def payment_intent_status_as_str_def)
  with assms show ?thesis
    by (simp add: intent_try_from_def intent_entry_def currency_new_fixed fiat_positive_def result_simps)
qed

lemma create_recorded:
  assumes "pg_create_idempotently intent actor route key hash s = (Inr (IC_Created i), s1)"
  shows "i = intent" "st_intents s1 = st_intents s @ [intent_entry intent]"
    "find (\<lambda>r. in_merchant_id r = pi_merchant_id intent \<and> in_id r = pi_id intent) (st_intents s1) =
      Some (intent_entry intent)"
    "char_between 16 128 key \<and> length hash = 32"
    "requests_of s1 (pi_merchant_id intent, route, key) = Some (hash, pi_id intent)"
proof -
  let ?q = "\<lparr> cc_intent = intent, cc_actor_key_id = actor, cc_route = route, cc_key = key, cc_hash = hash \<rparr>"
  from assms obtain s0 where r: "record_request (pi_merchant_id intent) route key hash (pi_id intent) s = Inr (True, s0)"
    and w: "create_work intent actor route key s0 = Inr (IC_Created i, s1)"
    by (auto simp: pg_create_idempotently_def tx_run_Inr_iff create_idempotently_tx_def tx_simps
        split: if_splits dest!: create_replay_result)
  obtain rs where s0: "s0 = s\<lparr> st_idempotency := rs \<rparr>" using record_request_effect(4) [OF r] by blast
  from w have n: "\<not> intent_exists (pi_id intent) s0"
    and "st_intents s1 = st_intents s0 @ [intent_entry intent]" and i: "i = intent"
    by (auto simp: create_work_def insert_intent_def insert_creation_audit_event_def complete_request_def tx_simps
        Let_def intent_entry_def)
  with s0 show t: "st_intents s1 = st_intents s @ [intent_entry intent]" and "i = intent" by simp_all
  have "find (\<lambda>r. in_merchant_id r = pi_merchant_id intent \<and> in_id r = pi_id intent) (st_intents s) = None"
    using n s0 by (auto simp: intent_exists_def list_ex_iff find_None_iff)
  then show "find (\<lambda>r. in_merchant_id r = pi_merchant_id intent \<and> in_id r = pi_id intent) (st_intents s1) =
      Some (intent_entry intent)"
    by (simp add: t find_append intent_entry_def)
  show "char_between 16 128 key \<and> length hash = 32" using r by (auto simp: record_request_def tx_simps)
  show "requests_of s1 (pi_merchant_id intent, route, key) = Some (hash, pi_id intent)"
    using creating.answered_recorded [of ?q s "Inr (IC_Created i)" s1 "pi_id intent"] assms i
    by (simp add: run_create_def create_answer_def endpoint_answer_def)
qed

lemma create_recorded_replays:
  assumes "requests_of s (pi_merchant_id intent', route, key) = Some (hash, pi_id intent)"
    and "find (\<lambda>r. in_merchant_id r = pi_merchant_id intent' \<and> in_id r = pi_id intent) (st_intents s) =
      Some (intent_entry intent)"
    and "intent_try_from (intent_entry intent) = Inr intent" "char_between 16 128 key \<and> length hash = 32"
  shows "pg_create_idempotently intent' actor route key hash s = (Inr (IC_Replayed intent), s)"
proof -
  have "request_recorded (pi_merchant_id intent', route, key) s"
    unfolding requests_unrecorded by (simp add: assms(1))
  then have "record_request (pi_merchant_id intent') route key hash (pi_id intent') s = Inr (False, s)"
    using assms(4) by (simp add: record_request_def tx_simps)
  moreover have "stored_request (pi_merchant_id intent') route key s = Inr ((hash, pi_id intent), s)"
    by (simp add: stored_request_iff assms(1))
  moreover have "find_intent (pi_merchant_id intent') (pi_id intent) s = Inr (Some intent, s)"
    by (simp add: find_intent_def tx_read_iff transposed_def assms(2,3) result_simps)
  ultimately have "create_idempotently_tx intent' actor route key hash s = Inr (IC_Replayed intent, s)"
    by (simp add: create_idempotently_tx_def create_replay_def tx_bind_def tx_return_def)
  then show ?thesis by (simp add: pg_create_idempotently_def tx_run_Inr_iff)
qed

lemma intent_to_create_wf:
  assumes "intent_to_create ij sha js i m key input now = Inr (intent, hash)"
  shows "currency_wf (fa_currency (pi_amount intent))" "0 < fa_minor_units (pi_amount intent)"
    "json_is_object (pi_metadata intent)" "pi_merchant_id intent = m"
  using assms by (auto simp: intent_to_create_def result_simps payment_intent_create_def fiat_parse_positive_def
      fiat_positive_def split: if_splits dest: currency_new_wf)

lemma intent_to_create_again:
  assumes "intent_to_create ij sha js i m key input now = Inr (intent, hash)"
  shows "\<exists>intent'. intent_to_create ij sha js i' m key input now' = Inr (intent', hash) \<and> pi_merchant_id intent' = m"
  using assms by (auto simp: intent_to_create_def result_simps payment_intent_create_def split: if_splits)


definition sample_create_input :: create_payment_intent where
  "sample_create_input = \<lparr> cp_amount_minor = ''500'', cp_currency = ''usd'', cp_reference = ''order-2'',
     cp_description = None, cp_metadata = JObject [] \<rparr>"


end
