(* ===== verification/Merchant_Money.thy ===== *)
theory Merchant_Money
  imports Quote_Store Operator_Money
begin

text \<open>
  Creating, quoting, cancelling and expiring orders moves no money: each of these
  transactions keeps the exact books of \<open>Settlement_Pass\<close>. The books are kept together
  with the foreign key of fulfilments, because a new order must not already be announced
  as paid.
\<close>

section \<open>Books with their references\<close>

definition refs_ok :: "store \<Rightarrow> bool" where
  "refs_ok s \<longleftrightarrow> (\<forall>f\<in>set (st_fulfillments s). fu_payment_intent_id f \<in> set (map in_id (st_intents s)))"

definition books_ok :: "store \<Rightarrow> bool" where
  "books_ok s \<longleftrightarrow> exact_inv s \<and> refs_ok s"

lemma refs_ok_frame:
  "st_fulfillments s' = st_fulfillments s \<Longrightarrow> map in_id (st_intents s') = map in_id (st_intents s) \<Longrightarrow>
     refs_ok s' = refs_ok s"
  by (simp add: refs_ok_def del: set_map)

lemma books_ok_frame [simp]:
  "books_ok (s\<lparr> st_generated := g \<rparr>) = books_ok s" "books_ok (s\<lparr> st_audit := au \<rparr>) = books_ok s"
  "books_ok (s\<lparr> st_idempotency := ir \<rparr>) = books_ok s" "books_ok (s\<lparr> st_quotes := q \<rparr>) = books_ok s"
  "books_ok (s\<lparr> st_amount_leases := le \<rparr>) = books_ok s" "books_ok (s\<lparr> st_lease_history := lh \<rparr>) = books_ok s"
  by (simp_all add: books_ok_def refs_ok_def exact_inv_def obligation_ok_def attempt_allocated_def)

lemma books_okD:
  assumes "books_ok s"
  shows "money_inv s" "obligation_ok s" "refs_ok s"
  using assms by (simp_all add: books_ok_def exact_inv_def)

text \<open>Orders and attempts may change their state as long as nothing becomes or stops being paid.\<close>

lemma books_intents:
  assumes "books_ok s" "\<And>i. in_id (f i) = in_id i"
    and "\<And>i. i \<in> set (st_intents s) \<Longrightarrow> P i \<Longrightarrow> in_status i \<noteq> ''paid'' \<and> in_status (f i) \<noteq> ''paid''"
  shows "books_ok (s\<lparr> st_intents := sql_update P f (st_intents s) \<rparr>)"
proof -
  let ?Q = "\<lambda>i. P i \<and> i \<in> set (st_intents s)"
  have e: "sql_update P f (st_intents s) = sql_update ?Q f (st_intents s)" by (auto simp: sql_update_def)
  note b = books_okD [OF assms(1)] note m = money_invD [OF b(1)]
  have k: "map in_id (sql_update ?Q f (st_intents s)) = map in_id (st_intents s)"
    by (rule map_sql_update) (rule assms(2))
  have "paid_ok (sql_update ?Q f (st_intents s)) (st_attempts s) (st_fulfillments s) (st_outbox s)"
    by (rule paid_ok_intents [OF m(6)]) (use assms(2,3) in simp)
  with m k have "money_inv (s\<lparr> st_intents := sql_update P f (st_intents s) \<rparr>)"
    unfolding e by (simp add: money_inv_def keys_ok_def del: map_map)
  moreover have "refs_ok (s\<lparr> st_intents := sql_update P f (st_intents s) \<rparr>)"
    unfolding e using b(3) by (simp add: refs_ok_def k del: set_map)
  moreover have "obligation_ok (s\<lparr> st_intents := sql_update P f (st_intents s) \<rparr>)"
    using b(2) by (simp add: obligation_ok_def attempt_allocated_def)
  ultimately show ?thesis by (simp add: books_ok_def exact_inv_def)
qed

definition same_obligation :: "attempt_row \<Rightarrow> attempt_row \<Rightarrow> bool" where
  "same_obligation a b \<longleftrightarrow> at_id b = at_id a \<and> at_payment_intent_id b = at_payment_intent_id a \<and>
     at_collector_address_id b = at_collector_address_id a \<and> at_expected_amount_raw b = at_expected_amount_raw a"

lemma books_attempts:
  assumes "books_ok s" "\<And>a. same_obligation a (f a) \<and> at_status (f a) \<noteq> ''settled''"
  shows "books_ok (s\<lparr> st_attempts := sql_update P f (st_attempts s) \<rparr>)"
proof -
  let ?ats = "sql_update P f (st_attempts s)"
  note b = books_okD [OF assms(1)] note m = money_invD [OF b(1)]
  note f = assms(2) [unfolded same_obligation_def]
  have k: "map at_id ?ats = map at_id (st_attempts s)" by (rule map_sql_update) (use f in blast)
  have "paid_ok (st_intents s) ?ats (st_fulfillments s) (st_outbox s)"
    by (rule paid_ok_attempts [OF m(6)]) (use f in simp)
  moreover have "bound_ok (st_transfers s) (st_processing s) (st_claims s) ?ats (st_allocations s)"
    by (rule bound_ok_mono [OF m(4)]; (rule attempts_kept)?; use f in simp)
  ultimately have "money_inv (s\<lparr> st_attempts := ?ats \<rparr>)"
    using m k by (simp add: money_inv_def keys_ok_def)
  moreover have "obligation_ok (s\<lparr> st_attempts := ?ats \<rparr>)"
    using b(2) f by (auto simp: obligation_ok_def attempt_allocated_def in_sql_update split: if_splits)
  moreover have "refs_ok (s\<lparr> st_attempts := ?ats \<rparr>)" using b(3) by (simp add: refs_ok_def)
  ultimately show ?thesis by (simp add: books_ok_def exact_inv_def)
qed

lemma books_new_intent:
  assumes "books_ok s" "\<not> intent_exists (in_id r) s" "in_status r \<noteq> ''paid''"
  shows "books_ok (s\<lparr> st_intents := st_intents s @ [r] \<rparr>)"
proof -
  note b = books_okD [OF assms(1)] note m = money_invD [OF b(1)]
  have n: "in_id r \<notin> in_id ` set (st_intents s)" using assms(2) by (auto simp: intent_exists_def list_ex_iff)
  then have "\<not> fulfilled (st_fulfillments s) (in_id r)" using b(3) unfolding refs_ok_def fulfilled_def set_map by metis
  then have "paid_ok (st_intents s @ [r]) (st_attempts s) (st_fulfillments s) (st_outbox s)"
    using m(6) assms(3) by (auto simp: paid_ok_def)
  with m n have "money_inv (s\<lparr> st_intents := st_intents s @ [r] \<rparr>)" by (simp add: money_inv_def keys_ok_def)
  then show ?thesis using b by (auto simp: books_ok_def exact_inv_def obligation_ok_def attempt_allocated_def refs_ok_def)
qed

lemma unknown_attempt_unpaid:
  assumes "money_inv s" "\<not> attempt_exists a s"
  shows "attempt_allocated a s = 0"
  unfolding attempt_allocated_def
proof (rule sql_sum_0)
  fix r assume "r \<in> set (st_allocations s)"
  with money_invD(4) [OF assms(1)] obtain x where "x \<in> set (st_attempts s)" "at_id x = al_attempt_id r"
    unfolding bound_ok_def by blast
  with assms(2) show "al_attempt_id r \<noteq> a" by (auto simp: attempt_exists_def list_ex_iff)
qed

lemma books_new_attempt:
  assumes "books_ok s" "\<not> attempt_exists (at_id a) s" "at_status a \<noteq> ''settled''"
  shows "books_ok (s\<lparr> st_attempts := st_attempts s @ [a] \<rparr>)"
proof -
  note b = books_okD [OF assms(1)] note m = money_invD [OF b(1)]
  have "at_id a \<notin> at_id ` set (st_attempts s)" using assms(2) by (auto simp: attempt_exists_def list_ex_iff)
  moreover have "paid_ok (st_intents s) (st_attempts s @ [a]) (st_fulfillments s) (st_outbox s)"
    using m(6) assms(3) by (auto simp: paid_ok_def)
  moreover have "bound_ok (st_transfers s) (st_processing s) (st_claims s) (st_attempts s @ [a]) (st_allocations s)"
    by (rule bound_ok_mono [OF m(4)]) auto
  ultimately have "money_inv (s\<lparr> st_attempts := st_attempts s @ [a] \<rparr>)"
    using m by (simp add: money_inv_def keys_ok_def)
  then show ?thesis
    using b unknown_attempt_unpaid [OF b(1) assms(2)] assms(3)
    by (auto simp: books_ok_def exact_inv_def obligation_ok_def attempt_allocated_def refs_ok_def)
qed

lemma books_outbox:
  assumes "books_ok s" "event \<noteq> ''payment_intent.paid''"
  shows "books_ok (s\<lparr> st_generated := g, st_outbox := st_outbox s @
    [outbox_entry i m channel event kind agg payload now] \<rparr>)"
proof -
  note b = books_okD [OF assms(1)]
  have "money_inv (s\<lparr> st_outbox := st_outbox s @ [outbox_entry i m channel event kind agg payload now] \<rparr>)"
    using b(1) money_inv_outbox [OF refl, of "outbox_entry i m channel event kind agg payload now" s] assms(2)
    by (simp add: outbox_entry_def)
  then show ?thesis
    using b by (simp add: books_ok_def exact_inv_def obligation_ok_def attempt_allocated_def refs_ok_def
        money_inv_def keys_ok_def)
qed

section \<open>The transactions\<close>

lemma record_request_books: "tx_keeps books_ok (record_request m route key hash resource)"
  unfolding record_request_def by (intro tx_keeps_intros; simp)

lemma stored_request_books: "tx_keeps books_ok (stored_request m route key)"
  unfolding stored_request_def by (intro tx_keeps_intros)

lemma complete_request_books: "tx_keeps books_ok (complete_request m route key)"
  unfolding complete_request_def by (intro tx_keeps_intros; simp)

lemma insert_system_audit_books: "tx_keeps books_ok (insert_system_audit m action kind resource payload)"
  unfolding insert_system_audit_def by (intro tx_keeps_intros; simp)

lemma enqueue_outbox_books:
  "event \<noteq> ''payment_intent.paid'' \<Longrightarrow> tx_keeps books_ok (enqueue_outbox m channel event kind agg payload now)"
  unfolding enqueue_outbox_def by (intro tx_keeps_intros books_outbox)

lemma find_books:
  "tx_keeps books_ok (find_intent m i)" "tx_keeps books_ok (find_quote f d b h m i)"
  unfolding find_intent_def find_quote_def by (intro tx_keeps_intros)+

lemmas request_books = record_request_books stored_request_books complete_request_books
  insert_system_audit_books enqueue_outbox_books find_books

lemma insert_intent_books:
  assumes "pi_status intent \<noteq> PI_Paid"
  shows "tx_keeps books_ok (insert_intent intent)"
proof (rule tx_keepsI)
  fix s u s' assume "books_ok s" "insert_intent intent s = Inr (u, s')"
  moreover have "in_status (intent_entry intent) \<noteq> ''paid''"
    using assms by (cases "pi_status intent") (simp_all add: intent_entry_def payment_intent_status_as_str_def)
  ultimately show "books_ok s'" by (auto simp: insert_intent_def Let_def tx_simps intro: books_new_intent)
qed

lemma create_books:
  assumes "pi_status intent \<noteq> PI_Paid"
  shows "tx_keeps books_ok (create_idempotently_tx intent actor route key hash)"
  unfolding create_idempotently_tx_def create_work_def create_replay_def insert_creation_audit_event_def
  by (intro tx_keeps_intros request_books insert_intent_books assms; simp)

text \<open>Only an order that is not paid is cancelled.\<close>

lemma cancel_rows_books:
  assumes "books_ok s" "\<And>i. i \<in> set (st_intents s) \<Longrightarrow> in_id i = intent_id \<Longrightarrow> in_status i \<noteq> ''paid''"
  shows "books_ok (cancel_rows intent_id now s)"
proof -
  have "books_ok (s\<lparr> st_intents := sql_update (\<lambda>i. in_id i = intent_id)
      (\<lambda>i. i\<lparr> in_status := ''cancelled'', in_version := in_version i + 1, in_updated_at := now \<rparr>) (st_intents s) \<rparr>)"
    by (rule books_intents [OF assms(1)]) (use assms(2) in simp_all)
  from books_attempts [OF this, of "\<lambda>a. a\<lparr> at_status := ''cancelled'', at_updated_at := now \<rparr>"]
  show ?thesis by (simp add: cancel_rows_def same_obligation_def)
qed

lemma cancellable_not_paid: "cancellable_state status \<Longrightarrow> status \<noteq> ''paid''"
  by (auto simp: cancellable_state_def)

text \<open>Cancelling changes nothing, or the rows of an order in a cancellable state and the journal.\<close>

lemma cancel_work_keeps:
  assumes "I s" "cancel_work m i actor route key reason s = Inr (x, s')"
    and rows: "\<And>row. row \<in> set (st_intents s) \<Longrightarrow> in_id row = i \<Longrightarrow> cancellable_state (in_status row) \<Longrightarrow>
      I (cancel_rows i (st_now s) s)"
    and keeps: "\<And>payload. tx_keeps I (insert_system_audit m ''payment_intent.cancelled'' ''payment_intent'' i payload)"
      "\<And>payload now. tx_keeps I (enqueue_outbox (Some m) ''webhook'' ''payment_intent.cancelled'' ''payment_intent'' i
        payload now)"
      "tx_keeps I (complete_request m route key)" "tx_keeps I (find_intent m i)"
  shows "I s'"
proof (cases "find (\<lambda>r. in_id r = i \<and> in_merchant_id r = m) (st_intents s)")
  case None
  with assms(1,2) show ?thesis by (auto simp: cancel_work_def tx_simps)
next
  case (Some row)
  then have row: "row \<in> set (st_intents s)" "in_id row = i" by (auto dest: find_SomeD)
  from assms(2) Some have l: "cancel_locked m i actor route key reason (in_status row) s = Inr (x, s')"
    by (simp add: cancel_work_def tx_simps)
  then have c: "cancellable_state (in_status row)" "\<not> money_or_decision i s"
    by (auto simp: cancel_locked_def tx_simps)
  note rows [OF row c(1)]
  moreover note l [unfolded cancel_locked_def tx_steps, simplified c simp_thms if_True]
  ultimately show ?thesis by (rule tx_keepsD [rotated]) (intro tx_keeps_intros keeps)
qed

lemma cancel_work_books: "tx_keeps books_ok (cancel_work m i actor route key reason)"
proof (rule tx_keepsI)
  fix s x s' assume inv: "books_ok s" and run: "cancel_work m i actor route key reason s = Inr (x, s')"
  have "books_ok (cancel_rows i (st_now s) s)"
    if row: "row \<in> set (st_intents s)" "in_id row = i" and c: "cancellable_state (in_status row)" for row
  proof (rule cancel_rows_books [OF inv])
    show "in_status r \<noteq> ''paid''" if "r \<in> set (st_intents s)" "in_id r = i" for r
      using distinct_key_eq [OF _ that(1) row(1), of in_id] that(2) row(2) money_invD(1) [OF books_okD(1) [OF inv]]
        cancellable_not_paid [OF c] by (auto simp: keys_ok_def)
  qed
  then show "books_ok s'"
    by (rule cancel_work_keeps [where I = books_ok, OF inv run]; (intro request_books; simp)?)
qed

lemma cancel_books: "tx_keeps books_ok (cancel_idempotently_tx m i actor route key hash reason)"
  unfolding cancel_idempotently_tx_def cancel_replay_def
  by (intro tx_keeps_intros request_books cancel_work_books)

lemma insert_attempt_books:
  assumes "at_status a \<noteq> ''settled''"
  shows "tx_keeps books_ok (insert_attempt a)"
  by (rule tx_keepsI) (auto simp: insert_attempt_def tx_simps attempt_exists_def list_ex_iff
      intro!: books_new_attempt assms)

lemma awaiting_intent_books:
  "books_ok s \<Longrightarrow> books_ok (s\<lparr> st_intents := sql_update (awaiting_intent plan)
     (\<lambda>i. i\<lparr> in_status := ''awaiting_payment'', in_version := in_version i + 1, in_updated_at := now \<rparr>)
     (st_intents s) \<rparr>)"
  by (rule books_intents) (auto simp: awaiting_intent_def)

lemma open_quote_books: "tx_keeps books_ok (open_quote token plan actor)"
  unfolding open_quote_def insert_quote_attempt_and_lease_def insert_quote_def insert_lease_def
    insert_quote_audit_events_def
  by (intro tx_keeps_intros insert_attempt_books awaiting_intent_books; simp add: attempt_entry_def)

lemma issue_books: "tx_keeps books_ok (issue_quote_tx f d b h token plan actor route key hash)"
  unfolding issue_quote_tx_def issue_work_def issue_replay_def
  by (intro tx_keeps_intros request_books open_quote_books)

lemma expired_intent_update:
  "sql_update P (expired_intent now) rows = sql_update (\<lambda>i. P i \<and> in_status i = ''awaiting_payment'')
     (\<lambda>i. i\<lparr> in_status := ''expired'', in_version := in_version i + 1, in_updated_at := now \<rparr>) rows"
  by (auto simp: sql_update_def expired_intent_def)

lemma expire_attempt_books: "tx_keeps books_ok (expire_attempt now a)"
  unfolding expire_attempt_def expired_intent_update
  by (intro tx_keeps_intros insert_system_audit_books; (rule books_attempts books_intents)?;
      simp add: same_obligation_def)

lemma archive_lease_books: "tx_keeps books_ok (archive_lease now due)"
  unfolding archive_lease_def Let_def by (intro tx_keeps_intros insert_system_audit_books; simp)

lemma expire_books: "tx_keeps books_ok (expire_tx now limit)"
proof -
  have "tx_keeps books_ok (expire_attempts now as)" for as
    by (induction as) (simp_all add: tx_keeps_intros expire_attempt_books)
  moreover have "tx_keeps books_ok (archive_leases now ls)" for ls
    by (induction ls) (simp_all add: tx_keeps_intros archive_lease_books)
  ultimately show ?thesis unfolding expire_tx_def by (intro tx_keeps_intros)
qed

end
