(* ===== verification/Quote_Slots.thy ===== *)
theory Quote_Slots
  imports Merchant_Money
begin

text \<open>
  Amount slots: on one collector, an amount is reserved by one attempt at a time. A
  reservation is a row of \<open>amount_leases\<close> while it is held and a row of
  \<open>amount_lease_history\<close> afterwards; \<open>slots_ok\<close> says that the windows of one slot never
  overlap and that whatever was released ended in the past. Issuing a quote and the
  expiry pass keep it, the former when its plan is made at the time of its transaction.
\<close>

section \<open>The invariant\<close>

definition lease_slot :: "amount_lease_row \<Rightarrow> uuid \<times> nat" where
  "lease_slot l = (le_collector_address_id l, le_amount_raw l)"

definition history_slot :: "lease_history_row \<Rightarrow> uuid \<times> nat" where
  "history_slot h = (lh_collector_address_id h, lh_amount_raw h)"

definition released_before :: "lease_history_row list \<Rightarrow> amount_lease_row \<Rightarrow> bool" where
  "released_before hs l \<longleftrightarrow> (\<forall>h\<in>set hs. history_slot h = lease_slot l \<longrightarrow> lh_leased_until h \<le> le_leased_from l)"

definition windows_ok :: "instant \<Rightarrow> amount_lease_row list \<Rightarrow> lease_history_row list \<Rightarrow> bool" where
  "windows_ok now ls hs \<longleftrightarrow> distinct (map lease_slot ls) \<and> (\<forall>h\<in>set hs. lh_leased_until h \<le> now) \<and>
     (\<forall>l\<in>set ls. released_before hs l) \<and>
     sorted_wrt (\<lambda>g h. history_slot g = history_slot h \<longrightarrow> lh_leased_until g \<le> lh_leased_from h) hs"

definition slots_ok :: "store \<Rightarrow> bool" where
  "slots_ok s \<longleftrightarrow> windows_ok (st_now s) (st_amount_leases s) (st_lease_history s)"

lemma slots_ok_cong:
  "st_now s' = st_now s \<Longrightarrow> st_amount_leases s' = st_amount_leases s \<Longrightarrow> st_lease_history s' = st_lease_history s \<Longrightarrow>
     slots_ok s' = slots_ok s"
  by (simp add: slots_ok_def)

lemma slots_ok_later: "slots_ok s \<Longrightarrow> st_now s \<le> now \<Longrightarrow> slots_ok (s\<lparr> st_now := now \<rparr>)"
  by (auto simp: slots_ok_def windows_ok_def)

section \<open>Reserving\<close>

lemma windows_ok_insert:
  assumes "windows_ok now ls hs" "lease_slot l \<notin> lease_slot ` set ls" "now \<le> le_leased_from l"
  shows "windows_ok now (ls @ [l]) hs"
  using assms by (fastforce simp: windows_ok_def released_before_def)

definition at_time :: "instant \<Rightarrow> store \<Rightarrow> bool" where
  "at_time now s \<longleftrightarrow> slots_ok s \<and> st_now s = now"

lemma at_time_cong:
  "st_now s' = st_now s \<Longrightarrow> st_amount_leases s' = st_amount_leases s \<Longrightarrow> st_lease_history s' = st_lease_history s \<Longrightarrow>
     at_time now s' = at_time now s"
  by (simp add: at_time_def slots_ok_def)

lemma at_time_frame [simp]:
  "at_time now (s\<lparr> st_generated := g \<rparr>) = at_time now s" "at_time now (s\<lparr> st_audit := au \<rparr>) = at_time now s"
  "at_time now (s\<lparr> st_idempotency := ir \<rparr>) = at_time now s" "at_time now (s\<lparr> st_quotes := q \<rparr>) = at_time now s"
  "at_time now (s\<lparr> st_attempts := a \<rparr>) = at_time now s" "at_time now (s\<lparr> st_intents := i \<rparr>) = at_time now s"
  "at_time now (s\<lparr> st_outbox := ob \<rparr>) = at_time now s" "at_time now (s\<lparr> st_processing := p \<rparr>) = at_time now s"
  "at_time now (s\<lparr> st_claims := c \<rparr>) = at_time now s" "at_time now (s\<lparr> st_allocations := al \<rparr>) = at_time now s"
  "at_time now (s\<lparr> st_decisions := d \<rparr>) = at_time now s" "at_time now (s\<lparr> st_fulfillments := f \<rparr>) = at_time now s"
  "at_time now (s\<lparr> st_events := ev \<rparr>) = at_time now s" "at_time now (s\<lparr> st_resolutions := r \<rparr>) = at_time now s"
  "at_time now (s\<lparr> st_dispositions := od \<rparr>) = at_time now s" "at_time now (s\<lparr> st_proposals := hp \<rparr>) = at_time now s"
  by (rule at_time_cong; simp)+

lemma insert_lease_slots:
  assumes "le_leased_from l = now"
  shows "tx_keeps (at_time now) (insert_lease l)"
proof (rule tx_keepsI)
  fix s u s' assume "at_time now s" "insert_lease l s = Inr (u, s')"
  then show "at_time now s'"
    using assms by (auto simp: insert_lease_def tx_simps at_time_def slots_ok_def list_ex_iff lease_slot_def
        intro!: windows_ok_insert)
qed

lemma request_slots:
  "tx_keeps (at_time now) (record_request m route key hash resource)"
  "tx_keeps (at_time now) (stored_request m route key)" "tx_keeps (at_time now) (complete_request m route key)"
  "tx_keeps (at_time now) (insert_system_audit m action kind i payload)"
  "tx_keeps (at_time now) (enqueue_outbox m' channel event kind i payload t)"
  "tx_keeps (at_time now) (find_intent m i)" "tx_keeps (at_time now) (find_quote f d b h m i)"
  unfolding record_request_def stored_request_def complete_request_def insert_system_audit_def enqueue_outbox_def
    find_intent_def find_quote_def
  by (intro tx_keeps_intros; simp)+

lemma issue_slots:
  assumes "pl_created_at plan = now"
  shows "tx_keeps (at_time now) (issue_quote_tx f d b h token plan actor route key hash)"
  unfolding issue_quote_tx_def issue_work_def issue_replay_def open_quote_def insert_quote_attempt_and_lease_def
    insert_quote_def insert_attempt_def insert_quote_audit_events_def
  by (intro tx_keeps_intros request_slots insert_lease_slots; simp add: lease_entry_def assms)

lemma create_slots: "tx_keeps (at_time now) (create_idempotently_tx intent actor route key hash)"
  unfolding create_idempotently_tx_def create_work_def create_replay_def insert_intent_def
    insert_creation_audit_event_def Let_def
  by (intro tx_keeps_intros request_slots; simp)

lemma cancel_slots: "tx_keeps (at_time now) (cancel_idempotently_tx m i actor route key hash reason)"
  unfolding cancel_idempotently_tx_def cancel_work_def cancel_locked_def cancel_replay_def cancel_rows_def
  by (intro tx_keeps_intros request_slots; simp)

section \<open>Releasing\<close>

lemma windows_ok_archive:
  assumes "windows_ok now ls hs" "distinct (map lease_slot A)" "set ls \<subseteq> set A" "l \<in> set A"
    and "le_lease_until l \<le> now" "released_before hs l" "set ls' \<subseteq> set ls - {l}" "distinct (map lease_slot ls')"
  shows "windows_ok now ls' (hs @ [lease_history_entry now l])"
proof -
  let ?h = "lease_history_entry now l"
  have slot: "history_slot ?h = lease_slot l" by (simp add: history_slot_def lease_slot_def lease_history_entry_def)
  have ne: "lease_slot l \<noteq> lease_slot x" if "x \<in> set ls'" for x
    using distinct_key_eq [OF assms(2), of l x] that assms(3,4,7) by auto
  have "released_before (hs @ [?h]) x" if "x \<in> set ls'" for x
  proof -
    have "released_before hs x" using that assms(1,7) by (auto simp: windows_ok_def)
    with ne [OF that] slot show ?thesis by (simp add: released_before_def)
  qed
  then have "\<forall>x\<in>set ls'. released_before (hs @ [?h]) x" ..
  moreover have "sorted_wrt (\<lambda>g h. history_slot g = history_slot h \<longrightarrow> lh_leased_until g \<le> lh_leased_from h) (hs @ [?h])"
    using assms(1,6) slot by (auto simp: windows_ok_def sorted_wrt_append released_before_def lease_history_entry_def)
  ultimately show ?thesis using assms(1,5,8) by (auto simp: windows_ok_def lease_history_entry_def)
qed

lemma archive_lease_effect:
  assumes "archive_lease now (l, m) s = Inr (u, s')"
  shows "st_now s' = st_now s" "st_lease_history s' = st_lease_history s @ [lease_history_entry now l]"
    "st_amount_leases s' = filter (\<lambda>x. le_id x \<noteq> le_id l) (st_amount_leases s)" "st_attempts s' = st_attempts s"
  using assms by (auto simp: archive_lease_def Let_def insert_system_audit_def tx_simps)

text \<open>The loop over due reservations, all of them taken from the table \<open>A\<close> it started with.\<close>

lemma archive_leases_slots:
  assumes "archive_leases now due s = Inr (u, s')" "at_time now s" "distinct (map lease_slot A)"
    and "set (st_amount_leases s) \<subseteq> set A" "fst ` set due \<subseteq> set A" "distinct (map fst due)"
    and "\<And>l m. (l, m) \<in> set due \<Longrightarrow> le_lease_until l \<le> now \<and> released_before (st_lease_history s) l"
  shows "at_time now s'"
  using assms
proof (induction due arbitrary: s)
  case Nil
  then show ?case by (simp add: tx_simps)
next
  case (Cons d due)
  obtain l m where d: "d = (l, m)" by (cases d)
  with Cons.prems(1) obtain s1 where one: "archive_lease now (l, m) s = Inr ((), s1)"
    and rest: "archive_leases now due s1 = Inr (u, s')" by (auto simp: tx_simps)
  note e = archive_lease_effect [OF one]
  have lA: "l \<in> set A" "le_lease_until l \<le> now" "released_before (st_lease_history s) l"
    using Cons.prems(5,7) d by auto
  have w: "windows_ok now (st_amount_leases s) (st_lease_history s)" "st_now s = now"
    using Cons.prems(2) by (auto simp: at_time_def slots_ok_def)
  have "windows_ok now (st_amount_leases s1) (st_lease_history s1)"
    unfolding e(2) by (rule windows_ok_archive [OF w(1) Cons.prems(3,4) lA])
      (use w(1) in \<open>auto simp: e(3) windows_ok_def distinct_map_filter\<close>)
  then have t: "at_time now s1" using w(2) e(1) by (simp add: at_time_def slots_ok_def)
  have "released_before (st_lease_history s1) l'" if "(l', m') \<in> set due" for l' m'
  proof -
    have "l' \<noteq> l" using Cons.prems(6) that d by (metis distinct.simps(2) fst_conv image_eqI list.map(2) list.set_map)
    moreover have "l' \<in> set A" using Cons.prems(5) that by force
    ultimately have "lease_slot l' \<noteq> lease_slot l" using distinct_key_eq [OF Cons.prems(3) _ lA(1)] by blast
    then show ?thesis using Cons.prems(7) [of l' m'] that
      by (auto simp: e(2) released_before_def history_slot_def lease_slot_def lease_history_entry_def)
  qed
  then have "le_lease_until l' \<le> now \<and> released_before (st_lease_history s1) l'" if "(l', m') \<in> set due" for l' m'
    using Cons.prems(7) [of l' m'] that by auto
  moreover have "set (st_amount_leases s1) \<subseteq> set A" using Cons.prems(4) by (auto simp: e(3))
  ultimately show ?case
    using Cons.prems(5,6) by (intro Cons.IH [OF rest t Cons.prems(3)]) simp_all
qed

lemma due_leases_fst: "map fst (List.map_filter (\<lambda>l. if P l then map_option (\<lambda>a. (l, g a)) (q l) else None) ls) =
    filter (\<lambda>l. P l \<and> q l \<noteq> None) ls"
  by (induction ls) (auto simp: map_filter_simps split: option.splits)

lemma due_leases_props:
  assumes "distinct (map lease_slot (st_amount_leases s))"
  shows "distinct (map fst (due_leases now limit s))" "fst ` set (due_leases now limit s) \<subseteq> set (st_amount_leases s)"
    "(l, m) \<in> set (due_leases now limit s) \<Longrightarrow> le_lease_until l \<le> now"
proof -
  let ?D = "List.map_filter (\<lambda>l. if le_lease_until l \<le> now
        then map_option (\<lambda>a. (l, at_merchant_id a)) (find (\<lambda>a. at_id a = le_attempt_id l) (st_attempts s))
        else None) (st_amount_leases s)"
  have f: "map fst ?D = filter (\<lambda>l. le_lease_until l \<le> now \<and> find (\<lambda>a. at_id a = le_attempt_id l) (st_attempts s) \<noteq> None)
      (st_amount_leases s)" by (rule due_leases_fst)
  have sub: "set (due_leases now limit s) \<subseteq> set ?D"
    by (auto simp: due_leases_def dest!: in_set_takeD)
  have "distinct (st_amount_leases s)" using assms by (simp add: distinct_map)
  then have "distinct (map fst ?D)" unfolding f by (rule distinct_filter)
  then have d: "inj_on fst (set ?D)" "distinct ?D" by (simp_all only: distinct_map)
  from d(2) have "distinct (due_leases now limit s)" by (simp add: due_leases_def)
  with inj_on_subset [OF d(1) sub] show "distinct (map fst (due_leases now limit s))" by (simp only: distinct_map)
  have "set (map fst ?D) = {l \<in> set (st_amount_leases s). le_lease_until l \<le> now \<and>
      find (\<lambda>a. at_id a = le_attempt_id l) (st_attempts s) \<noteq> None}" unfolding f by (rule set_filter)
  then have "fst x \<in> set (st_amount_leases s) \<and> le_lease_until (fst x) \<le> now" if "x \<in> set ?D" for x
    using that imageI [OF that, of fst] unfolding set_map by blast
  with sub show "fst ` set (due_leases now limit s) \<subseteq> set (st_amount_leases s)"
    "(l, m) \<in> set (due_leases now limit s) \<Longrightarrow> le_lease_until l \<le> now" by fastforce+
qed

lemma expire_attempts_slots: "tx_keeps (at_time now) (expire_attempts now as)"
proof (induction "as")
  case (Cons a "as")
  have "tx_keeps (at_time now) (expire_attempt now a)"
    unfolding expire_attempt_def by (intro tx_keeps_intros request_slots; simp)
  with Cons show ?case by (simp add: tx_keeps_then)
qed (simp add: tx_keeps_intros)

lemma expire_slots: "tx_keeps (at_time now) (expire_tx now limit)"
proof (rule tx_keepsI)
  fix s x s' assume t: "at_time now s" and run: "expire_tx now limit s = Inr (x, s')"
  then obtain s1 where a: "expire_attempts now (due_attempts now limit s) s = Inr ((), s1)"
    and l: "archive_leases now (due_leases now limit s1) s1 = Inr ((), s')"
    by (auto simp: expire_tx_def tx_simps)
  have t1: "at_time now s1" by (rule tx_keepsD [OF expire_attempts_slots t a])
  then have d: "distinct (map lease_slot (st_amount_leases s1))"
    and r: "\<forall>l\<in>set (st_amount_leases s1). released_before (st_lease_history s1) l"
    by (simp_all add: at_time_def slots_ok_def windows_ok_def)
  note p = due_leases_props [OF d, where now = now and limit = limit]
  show "at_time now s'"
    by (rule archive_leases_slots [OF l t1 d order_refl p(2,1)]) (use p(2,3) r in force)
qed

section \<open>What matching sees\<close>

text \<open>The candidates for a transfer without memo all held its slot, one after the other.\<close>

lemma candidate_row_lease:
  assumes "distinct (map at_id (st_attempts s))"
  shows "length (map (\<lambda>attempt. (attempt, x, y)) (filter (\<lambda>attempt. at_id attempt = i \<and> P attempt) (st_attempts s))) \<le> 1"
  using rows_affected_key [OF assms, of i P] by (simp add: rows_affected_def)

definition apart :: "attempt_row \<times> instant \<times> instant \<Rightarrow> attempt_row \<times> instant \<times> instant \<Rightarrow> bool" where
  "apart c d \<longleftrightarrow> (case (c, d) of ((_, from, until), (_, from', until')) \<Rightarrow> until \<le> from' \<or> until' \<le> from)"

lemma sorted_wrt_concat_map:
  assumes "sorted_wrt R xs" "\<And>x. x \<in> set xs \<Longrightarrow> length (f x) \<le> 1"
    and "\<And>x y c d. x \<in> set xs \<Longrightarrow> y \<in> set xs \<Longrightarrow> R x y \<Longrightarrow> c \<in> set (f x) \<Longrightarrow> d \<in> set (f y) \<Longrightarrow> S c d"
  shows "sorted_wrt S (concat (map f xs))"
  using assms
proof (induction xs)
  case (Cons x xs)
  have "sorted_wrt S (f x)" using Cons.prems(2) [of x] by (cases "f x" rule: list_of_2_cases) auto
  moreover have "sorted_wrt S (concat (map f xs))"
    by (rule Cons.IH) (use Cons.prems(1,2) in simp, use Cons.prems(2) in simp, rule Cons.prems(3), simp_all)
  moreover have "S c d" if "c \<in> set (f x)" "y \<in> set xs" "d \<in> set (f y)" for c y d
    using Cons.prems(3) [of x y c d] Cons.prems(1) that by simp
  ultimately show ?case by (auto simp: sorted_wrt_append)
qed simp

lemma distinct_slots_sorted: "distinct (map k xs) \<Longrightarrow> sorted_wrt (\<lambda>x y. k x \<noteq> k y) xs"
  by (induction xs) auto

lemma candidates_apart:
  assumes "slots_ok s" "distinct (map at_id (st_attempts s))" "tf_memo t = None"
  shows "sorted_wrt apart (candidate_rows t s)"
proof -
  let ?slot = "(tf_collector_address_id t, unat (tf_amount_raw t))"
  let ?F = "\<lambda>lease. map (\<lambda>attempt. (attempt, le_leased_from lease, le_lease_until lease))
       (filter (\<lambda>attempt. at_id attempt = le_attempt_id lease \<and> lease_slot lease = ?slot) (st_attempts s))"
  let ?G = "\<lambda>history. map (\<lambda>attempt. (attempt, lh_leased_from history, lh_leased_until history))
       (filter (\<lambda>attempt. at_id attempt = lh_attempt_id history \<and> history_slot history = ?slot \<and>
          tf_block_time t \<ge> lh_leased_from history \<and> tf_block_time t < lh_leased_until history) (st_attempts s))"
  have rows: "candidate_rows t s = concat (map ?F (st_amount_leases s)) @ concat (map ?G (st_lease_history s))"
    using assms(3) by (simp add: candidate_rows_def lease_slot_def history_slot_def conj_assoc)
  have w: "distinct (map lease_slot (st_amount_leases s))"
    "\<forall>l\<in>set (st_amount_leases s). released_before (st_lease_history s) l"
    "sorted_wrt (\<lambda>g h. history_slot g = history_slot h \<longrightarrow> lh_leased_until g \<le> lh_leased_from h) (st_lease_history s)"
    using assms(1) by (simp_all add: slots_ok_def windows_ok_def)
  have "sorted_wrt (\<lambda>l l'. lease_slot l \<noteq> lease_slot l') (st_amount_leases s)"
    by (rule distinct_slots_sorted [OF w(1)])
  then have "sorted_wrt apart (concat (map ?F (st_amount_leases s)))"
    by (rule sorted_wrt_concat_map) (rule candidate_row_lease [OF assms(2)], auto)
  moreover have "sorted_wrt apart (concat (map ?G (st_lease_history s)))"
    using w(3) by (rule sorted_wrt_concat_map) (rule candidate_row_lease [OF assms(2)], auto simp: apart_def)
  moreover have "apart c d" if "l \<in> set (st_amount_leases s)" "c \<in> set (?F l)" "h \<in> set (st_lease_history s)"
    "d \<in> set (?G h)" for l c h d
    using w(2) that by (auto simp: apart_def released_before_def)
  ultimately show ?thesis unfolding rows by (auto simp: sorted_wrt_append)
qed

lemma candidate_window:
  "candidate_try_from f (a, since, until) = Inr c \<Longrightarrow> ac_leased_from c = since \<and> ac_leased_until c = until"
  by (auto simp: candidate_try_from_def result_simps)

lemma windows_disjoint:
  assumes "map (candidate_try_from f) rows = map Inr cs" "sorted_wrt apart rows"
  shows "leases_disjoint cs"
  using assms
proof (induction rows arbitrary: cs)
  case (Cons row rows)
  then obtain c cs' where cs: "cs = c # cs'" "candidate_try_from f row = Inr c"
    "map (candidate_try_from f) rows = map Inr cs'" by (cases cs) auto
  have "ac_leased_until c \<le> ac_leased_from d \<or> ac_leased_until d \<le> ac_leased_from c" if "d \<in> set cs'" for d
  proof -
    from that have "Inr d \<in> set (map (candidate_try_from f) rows)" unfolding cs(3) by simp
    then obtain r where r: "r \<in> set rows" "candidate_try_from f r = Inr d" by auto
    with Cons.prems(2) have "apart row r" by simp
    then show ?thesis using candidate_window [of f "fst row" "fst (snd row)" "snd (snd row)" c]
      candidate_window [of f "fst r" "fst (snd r)" "snd (snd r)" d] cs(2) r(2) by (auto simp: apart_def)
  qed
  moreover have "leases_disjoint cs'" using Cons cs(3) by simp
  ultimately show ?case by (simp add: leases_disjoint_def cs(1))
qed (simp add: leases_disjoint_def)

lemma candidates_disjoint:
  assumes "slots_ok s" "distinct (map at_id (st_attempts s))" "tf_memo t = None"
    and "pg_match_candidates f t s = Inr cs"
  shows "leases_disjoint cs"
  by (rule windows_disjoint [OF _ candidates_apart [OF assms(1-3)]])
    (use assms(4) in \<open>simp add: pg_match_candidates_def collect_results_Inr_iff\<close>)

end
