(* ===== verification/Payment_Frame.thy ===== *)
theory Payment_Frame
  imports Merchant_Money
begin

text \<open>
  What deciding about money leaves alone. The locale \<open>payment_frame\<close> collects what a
  predicate on the store must tolerate: rows of the money tables, of the journal and of
  the operators' tables may change freely, attempts too, a payable order may become paid or
  partially paid, and a fulfilment may be added for an order that exists. Every transaction
  of the settlement repository and of the operator repository keeps such a predicate, for
  any command whatever.
\<close>

locale payment_frame =
  fixes I :: "store \<Rightarrow> bool"
  assumes journal [simp]:
      "I (s\<lparr> st_generated := g \<rparr>) = I s" "I (s\<lparr> st_audit := au \<rparr>) = I s" "I (s\<lparr> st_events := ev \<rparr>) = I s"
      "I (s\<lparr> st_outbox := ob \<rparr>) = I s"
    and money [simp]:
      "I (s\<lparr> st_processing := p \<rparr>) = I s" "I (s\<lparr> st_claims := c \<rparr>) = I s" "I (s\<lparr> st_allocations := al \<rparr>) = I s"
      "I (s\<lparr> st_decisions := d \<rparr>) = I s" "I (s\<lparr> st_attempts := ats \<rparr>) = I s"
    and operator [simp]:
      "I (s\<lparr> st_resolutions := r \<rparr>) = I s" "I (s\<lparr> st_dispositions := od \<rparr>) = I s" "I (s\<lparr> st_proposals := hp \<rparr>) = I s"
    and pay: "I s \<Longrightarrow> status \<in> {''paid'', ''partially_paid''} \<Longrightarrow>
      I (s\<lparr> st_intents := sql_update (payable_intent command)
        (\<lambda>i. i\<lparr> in_status := status, in_version := in_version i + 1, in_updated_at := now \<rparr>) (st_intents s) \<rparr>)"
    and fulfil: "I s \<Longrightarrow> intent_exists (fu_payment_intent_id f) s \<Longrightarrow>
      I (s\<lparr> st_fulfillments := st_fulfillments s @ [f] \<rparr>)"
begin

lemma journal_many [simp]:
  "I (s\<lparr> st_generated := g, st_outbox := ob \<rparr>) = I s" "I (s\<lparr> st_generated := g, st_resolutions := r \<rparr>) = I s"
  "I (s\<lparr> st_generated := g, st_proposals := hp \<rparr>) = I s"
proof -
  show "I (s\<lparr> st_generated := g, st_outbox := ob \<rparr>) = I s"
    using journal(1) [where s = "s\<lparr> st_outbox := ob \<rparr>" and g = g] by simp
  show "I (s\<lparr> st_generated := g, st_resolutions := r \<rparr>) = I s"
    using journal(1) [where s = "s\<lparr> st_resolutions := r \<rparr>" and g = g] by simp
  show "I (s\<lparr> st_generated := g, st_proposals := hp \<rparr>) = I s"
    using journal(1) [where s = "s\<lparr> st_proposals := hp \<rparr>" and g = g] by simp
qed

lemma statements:
  "tx_keeps I (hold_lease lease)"
  "tx_keeps I (insert_payment_event m i a t event why payload now)"
  "tx_keeps I (enqueue_outbox m channel event kind agg payload now)"
  "tx_keeps I (record_decision command outcome reason x y now)"
  "tx_keeps I (require_one_row n what)"
  "tx_keeps I (set_processing t' state reason now)"
  unfolding hold_lease_def insert_payment_event_def enqueue_outbox_def record_decision_def require_one_row_def
    set_processing_def
  by (intro tx_keeps_intros; simp)+

lemma rows:
  "tx_keeps I (insert_claim command now)" "tx_keeps I (insert_allocation command x reason now)"
  "tx_keeps I (increase_allocated t n state now)"
  by (rule tx_keepsI; auto simp: insert_claim_def insert_allocation_def increase_allocated_def Let_def
      split: option.splits if_splits)+

lemma pays: "tx_keeps I (advance_to_paid command now)" "tx_keeps I (advance_to_partially_paid command now)"
  unfolding advance_to_paid_def advance_to_partially_paid_def
  by (intro tx_keeps_guard tx_keeps_intros statements pay; simp add: fulfil fulfillment_entry_def)+

lemma allocates: "tx_keeps I (allocate_and_finish command x r outcome now)"
  unfolding allocate_and_finish_def claim_transfer_def record_remainder_def
  by (intro tx_keeps_intros statements rows pays)

lemma parks: "tx_keeps I (finish_without_money command state outcome reason now)"
  unfolding finish_without_money_def by (intro tx_keeps_intros statements)

lemma applies: "tx_keeps I (apply_outcome command now)"
  unfolding apply_outcome_def
  by (cases "sc_outcome command"; simp; intro tx_keeps_intros allocates parks)

lemma settles: "tx_keeps I (settle_attempt lease command)" "tx_keeps I (park_refused lease command reason)"
  unfolding settle_attempt_def park_refused_def by (intro tx_keeps_intros statements applies parks)+

lemma settle_run:
  assumes "I s" "pg_settle lease command s = (r, s')"
  shows "I s'"
  using assms tx_keeps_run [OF settles(2) assms(1)] tx_keepsD [OF settles(1) assms(1)]
  by (auto simp: pg_settle_def split: sum.splits prod.splits repository_error.splits)

lemma unresolved_run:
  assumes "I s" "pg_record_unresolved lease transfer u s = (r, s')"
  shows "I s'"
proof -
  have "tx_keeps I (record_unresolved_tx lease transfer u)"
    unfolding record_unresolved_tx_def Let_def by (intro tx_keeps_intros statements; simp)
  from tx_keeps_run [OF this assms(1)] assms(2) show ?thesis by (simp add: pg_record_unresolved_def)
qed

lemma settlement_frame: "settlement_repository (postgres_settlement f) I"
  by unfold_locales (auto simp: postgres_simps dest: settle_run unresolved_run pg_settle_error
      pg_record_unresolved_error pg_awaiting_bounded)

lemma operator_statements:
  "tx_keeps I (load_resolution f op key hash replayed)"
  "tx_keeps I (insert_resolution f credential key hash resolution m x y now)"
  "tx_keeps I (record_admin_audit credential resolution i)"
  "tx_keeps I (plan_honor f resolution)" "tx_keeps I (locked_proposal j)"
  "tx_keeps I (proposal_audit credential m' action j why payload)" "tx_keeps I (expire_proposals t now)"
  "tx_keeps I (approve_row j credential key why now j')"
  unfolding load_resolution_def insert_resolution_def record_admin_audit_def plan_honor_def locked_proposal_def
    proposal_audit_def expire_proposals_def approve_row_def
  by (intro tx_keeps_intros; simp)+

lemma honors: "tx_keeps I (honor_transfer f credential key hash resolution now)"
  unfolding honor_transfer_def manual_allocate_and_finish_def
  by (intro tx_keeps_intros operator_statements allocates; simp)

lemma resolve_keeps: "tx_keeps I (resolve_manual_tx f credential key hash resolution now)"
  unfolding resolve_manual_tx_def reject_transfer_def record_external_disposition_def insert_disposition_def Let_def
  by (intro tx_keeps_intros operator_statements honors statements; simp)

lemma propose_keeps:
  "tx_keeps I (propose_honor_tx f proposer key hash resolution threshold now expires_at)"
  unfolding propose_honor_tx_def
  by (cases "rn_action resolution"; cases "rn_payment_intent_id resolution"; cases "rn_attempt_id resolution";
      cases "rn_allocate_raw resolution"; simp only: prod.case option.case manual_resolution_action.case;
      intro tx_keeps_intros operator_statements; simp)

lemma decides:
  "tx_keeps I (approve_honor_tx f approver j key why now)" "tx_keeps I (reject_honor_tx approver j key why now)"
  unfolding approve_honor_tx_def reject_honor_tx_def
  by (intro tx_keeps_intros operator_statements honors; simp)+

lemma operator_step_frame:
  "operator_step f sha256 display_u256 display_uuid add_secs policy s s' \<Longrightarrow> I s \<Longrightarrow> I s'"
proof (induction rule: operator_step.induct)
  case (resolves credential key resolution s out s')
  then show ?case using tx_keeps_run [OF resolve_keeps, of s]
    by (auto simp: service_resolve_manual_def pg_resolve_manual_def split: sum.splits)
next
  case (proposes credential key resolution s out' s')
  then show ?case using converted_keeps [OF propose_keeps, of s]
    by (auto simp: service_propose_honor_def pg_propose_honor_def split: sum.splits)
next
  case (approves credential i key reason s out s')
  then show ?case using tx_keeps_run [OF decides(1), of s]
    by (auto simp: service_approve_honor_def pg_approve_honor_def split: sum.splits)
next
  case (rejects credential i key reason s out' s')
  then show ?case using converted_keeps [OF decides(2), of s]
    by (auto simp: service_reject_honor_def pg_reject_honor_def split: sum.splits)
qed

end

end
