(* ===== verification/Gateway_System.thy ===== *)
theory Gateway_System
  imports Quote_Slots Payment_Frame Lease_Store
begin

text \<open>
  The gateway as a whole: merchants creating, quoting and cancelling orders, the expiry and
  settlement passes of the worker, operators deciding about parked transfers, and clocks
  that advance, in any order. \<open>gateway_step\<close> is one such event. The locale
  \<open>gateway_invariant\<close> says what a predicate must satisfy to hold along every run; the
  exact books, the amount slots and the final states of orders are its interpretations.
\<close>

section \<open>Steps\<close>

record gateway_env =
  ge_quote :: quote_env
  ge_input_json :: "create_payment_intent \<Rightarrow> string + byte list"
  ge_cancel_json :: "uuid \<Rightarrow> string option \<Rightarrow> string + byte list"
  ge_json_to_string :: "json \<Rightarrow> string"
  ge_display_uuid :: "uuid \<Rightarrow> string"
  ge_honor_policy :: honor_approval_policy
  ge_max_open_leases :: "nat option"

abbreviation ge_from_str :: "gateway_env \<Rightarrow> string \<Rightarrow> u256 option" where
  "ge_from_str env \<equiv> qe_u256_from_str (ge_quote env)"

inductive gateway_step :: "gateway_env \<Rightarrow> store \<Rightarrow> store \<Rightarrow> bool" for env where
  clock: "st_now s \<le> now \<Longrightarrow> gateway_step env s (s\<lparr> st_now := now, st_db_now := db \<rparr>)"
| authenticates: "pg_authenticate_api_key secret s = (credential, s') \<Longrightarrow> gateway_step env s s'"
| creates: "service_create_intent (ge_input_json env) (qe_sha256 (ge_quote env)) (ge_json_to_string env) m actor key
     input s = (created, s') \<Longrightarrow> gateway_step env s s'"
| cancels: "service_cancel_intent (ge_cancel_json env) (qe_sha256 (ge_quote env)) m actor key i reason s =
     (created, s') \<Longrightarrow> gateway_step env s s'"
| quotes: "issue_inner (ge_quote env) (ge_max_open_leases env) m actor key wanted s = (issued, s') \<Longrightarrow>
     gateway_step env s s'"
| expires: "service_expire_due limit s = (expired, s') \<Longrightarrow> gateway_step env s s'"
| leases: "acquire_component_lease add component holder ttl now s = Inr (lease, s') \<Longrightarrow> gateway_step env s s'"
| settles: "settle_pending (postgres_settlement (ge_from_str env)) held limit s = (report, s') \<Longrightarrow>
     gateway_step env s s'"
| decides: "operator_step (ge_from_str env) (qe_sha256 (ge_quote env)) (qe_display_u256 (ge_quote env))
     (ge_display_uuid env) (qe_add_secs (ge_quote env)) (ge_honor_policy env) s s' \<Longrightarrow> gateway_step env s s'"

locale gateway_invariant =
  fixes env :: gateway_env and inv :: "store \<Rightarrow> bool"
  assumes unrelated [simp]: "inv (s\<lparr> st_generated := g \<rparr>) = inv s" "inv (s\<lparr> st_component_leases := cl \<rparr>) = inv s"
      "inv (s\<lparr> st_api_keys := ak \<rparr>) = inv s"
    and clock_inv: "inv s \<Longrightarrow> st_now s \<le> now \<Longrightarrow> inv (s\<lparr> st_now := now, st_db_now := db \<rparr>)"
    and create_inv: "inv s \<Longrightarrow> pi_status intent = PI_RequiresQuote \<Longrightarrow>
      create_idempotently_tx intent actor route key hash s = Inr (x, s') \<Longrightarrow> inv s'"
    and cancel_inv: "inv s \<Longrightarrow> cancel_idempotently_tx m i actor route key hash reason s = Inr (y, s') \<Longrightarrow> inv s'"
    and issue_inv: "inv s \<Longrightarrow> pl_created_at plan = st_now s \<Longrightarrow>
      issue_quote_tx f d b h token plan actor route key hash s = Inr (z, s') \<Longrightarrow> inv s'"
    and expire_inv: "inv s \<Longrightarrow> expire_tx (st_now s) limit s = Inr (w, s') \<Longrightarrow> inv s'"
    and settlement: "settlement_repository (postgres_settlement (ge_from_str env)) inv"
    and operator_inv: "inv s \<Longrightarrow> operator_step (ge_from_str env) (qe_sha256 (ge_quote env))
      (qe_display_u256 (ge_quote env)) (ge_display_uuid env) (qe_add_secs (ge_quote env)) (ge_honor_policy env) s s' \<Longrightarrow>
      inv s'"
begin

lemma created_waits: "intent_to_create ij sha js n m key input now = Inr (intent, hash) \<Longrightarrow> pi_status intent = PI_RequiresQuote"
  by (auto simp: intent_to_create_def result_simps payment_intent_create_def split: if_splits)

lemma create_service:
  assumes "inv s" "service_create_intent ij sha js m actor key input s = (out, s')"
  shows "inv s'"
proof (cases "intent_to_create ij sha js (st_now_v7 s (st_generated s)) m key input (st_now s)")
  case (Inr p)
  obtain intent hash where p: "p = (intent, hash)" by (cases p)
  let ?s = "s\<lparr> st_generated := st_generated s + 1 \<rparr>"
  show ?thesis
    using create_inv [of ?s intent actor CREATE_ROUTE key hash] created_waits [of ij sha js] assms Inr p
    by (cases rule: tx_run_cases [of "create_idempotently_tx intent actor CREATE_ROUTE key hash" ?s])
      (auto simp: service_create_intent_def pg_create_idempotently_def)
qed (use assms in \<open>simp add: service_create_intent_def\<close>)

lemma cancel_service:
  assumes "inv s" "service_cancel_intent cj sha m actor key i reason s = (out, s')"
  shows "inv s'"
proof -
  have "inv s'" if "pg_cancel_idempotently m i actor CANCEL_ROUTE key hash why s = (r, s')" for hash why r
    using cancel_inv [OF assms(1), of m i actor CANCEL_ROUTE key hash why] that assms(1)
    by (cases rule: tx_run_cases [of "cancel_idempotently_tx m i actor CANCEL_ROUTE key hash why" s])
      (auto simp: pg_cancel_idempotently_def split: option.splits)
  then show ?thesis
    using assms by (auto simp: service_cancel_intent_def Let_def split: sum.splits prod.splits option.splits)
qed

lemma issue_loop_inv:
  assumes "inv s" "issue_loop qe m actor key hash intent asset context cs refusal s = (out, s')"
  shows "inv s'"
  using assms
proof (induction cs arbitrary: refusal s)
  case (Cons c cs)
  let ?s = "s\<lparr> st_generated := st_generated s + 2 \<rparr>"
  show ?case
  proof (cases "quote_plan_build (qe_add_secs qe) (st_now_v7 s (st_generated s)) (st_now_v7 s (st_generated s + 1))
        m (pi_id intent) asset (cd_id c) (cd_address c) (pi_amount intent)
        (qc_price context) (qc_policy context) (qc_rail_health context) (st_now s)")
    case (Inr plan)
    have t: "pl_created_at plan = st_now ?s"
      using Inr by (auto simp: quote_plan_build_def result_simps split: if_splits)
    obtain r s1 where r: "issue_on qe plan actor key hash ?s = (r, s1)" by fastforce
    have "inv ?s" using Cons.prems(1) by simp
    with r have "inv s1"
      using issue_inv [OF _ t] unfolding issue_on_def pg_issue_quote_def
      by (cases rule: tx_run_cases [of "issue_quote_tx (qe_u256_from_str qe) (qe_display_u256 qe) (qe_bs58_encode qe)
          (qe_sha256 qe) (qe_new_token qe) plan actor ISSUE_ROUTE key hash" ?s]) auto
    with Cons r Inr show ?thesis by (auto split: sum.splits if_splits)
  qed (use Cons.prems in auto)
qed simp

lemma issue_service:
  assumes "inv s" "issue_inner qe limit m actor key wanted s = (out, s')"
  shows "inv s'"
  using assms issue_loop_inv [OF assms(1)]
  by (auto simp: issue_inner_def Let_def split: sum.splits option.splits if_splits)

lemma expire_service:
  assumes "inv s" "service_expire_due limit s = (out, s')"
  shows "inv s'"
  using expire_inv [OF assms(1), of limit] assms
  by (cases rule: tx_run_cases [of "expire_tx (st_now s) limit" s])
    (auto simp: service_expire_due_def pg_expire_quotes_and_archive_leases_def split: if_splits)

lemma lease_service:
  assumes "inv s" "acquire_component_lease add component holder ttl now s = Inr (lease, s')"
  shows "inv s'"
  using assms by (auto simp: acquire_component_lease_def Let_def result_simps split: if_splits option.splits)

lemma step_inv: "gateway_step env s s' \<Longrightarrow> inv s \<Longrightarrow> inv s'"
proof (induction rule: gateway_step.induct)
  case (authenticates secret s credential s')
  then show ?case by (auto simp: pg_authenticate_api_key_def)
next
  case (settles held limit s report s')
  then show ?case using settlement_repository.settle_pending_inv [OF settlement] by blast
qed (erule (1) clock_inv [rotated] create_service [rotated] cancel_service [rotated] issue_service [rotated]
    expire_service [rotated] lease_service [rotated] operator_inv [rotated])+

lemma reachable_inv: "(gateway_step env)\<^sup>*\<^sup>* s s' \<Longrightarrow> inv s \<Longrightarrow> inv s'"
  by (induction rule: rtranclp_induct) (blast dest: step_inv)+

end

section \<open>The books\<close>

interpretation fulfilments: payment_frame refs_ok
proof
  fix s status command now
  assume "refs_ok s"
  then show "refs_ok (s\<lparr> st_intents := sql_update (payable_intent command)
      (\<lambda>i. i\<lparr> in_status := status, in_version := in_version i + 1, in_updated_at := now \<rparr>) (st_intents s) \<rparr>)"
    by (simp add: refs_ok_def map_sql_update del: set_map)
next
  fix s and f :: fulfillment_row
  assume "refs_ok s" "intent_exists (fu_payment_intent_id f) s"
  then show "refs_ok (s\<lparr> st_fulfillments := st_fulfillments s @ [f] \<rparr>)"
    by (force simp: refs_ok_def intent_exists_def list_ex_iff)
qed (simp_all add: refs_ok_def)

lemma settlement_repository_conj:
  assumes "settlement_repository repo I" "settlement_repository repo J"
  shows "settlement_repository repo (\<lambda>s. I s \<and> J s)"
  by (rule settlement_repository.intro)
    (blast dest: settlement_repository.settle_inv [OF assms(1)] settlement_repository.settle_inv [OF assms(2)]
       settlement_repository.unresolved_inv [OF assms(1)] settlement_repository.unresolved_inv [OF assms(2)]
       settlement_repository.settle_error [OF assms(1)] settlement_repository.unresolved_error [OF assms(1)]
       settlement_repository.awaiting_bounded [OF assms(1)])+

lemma books_ok_idle:
  "books_ok (s\<lparr> st_component_leases := cl \<rparr>) = books_ok s" "books_ok (s\<lparr> st_api_keys := ak \<rparr>) = books_ok s"
  "books_ok (s\<lparr> st_now := now, st_db_now := db \<rparr>) = books_ok s"
  by (simp_all add: books_ok_def exact_inv_def obligation_ok_def attempt_allocated_def refs_ok_def money_inv_def
      keys_ok_def)

lemma books_invariant:
  assumes "u256_text d (ge_from_str env)"
  shows "gateway_invariant env books_ok"
proof (rule gateway_invariant.intro)
  show "settlement_repository (postgres_settlement (ge_from_str env)) books_ok"
    using settlement_repository_conj [OF exact_repository [OF assms] fulfilments.settlement_frame]
    by (simp add: books_ok_def [abs_def])
  show "books_ok s'" if "books_ok s" "operator_step (ge_from_str env) (qe_sha256 (ge_quote env))
      (qe_display_u256 (ge_quote env)) (ge_display_uuid env) (qe_add_secs (ge_quote env)) (ge_honor_policy env) s s'" for s s'
    using that operator_step_exact [OF that(2) assms] fulfilments.operator_step_frame [OF that(2)]
    by (simp add: books_ok_def)
  show "books_ok s'" if "books_ok s" "pi_status intent = PI_RequiresQuote"
    "create_idempotently_tx intent actor route key hash s = Inr (x, s')" for s intent actor route key hash x s'
    by (rule tx_keepsD [OF create_books that(1,3)]) (simp add: that(2))
qed (simp_all add: books_ok_idle, (erule (1) tx_keepsD [OF cancel_books] tx_keepsD [OF issue_books]
    tx_keepsD [OF expire_books])+)

section \<open>The slots\<close>

interpretation reserved: payment_frame "at_time now" for now
  by unfold_locales simp_all

lemma at_time_settlement: "settlement_repository (postgres_settlement f) slots_ok"
proof -
  have frame: "settlement_repository (postgres_settlement f) (at_time now)" for now by (rule reserved.settlement_frame)
  show ?thesis
    by unfold_locales
      (metis at_time_def settlement_repository.settle_inv [OF frame],
       metis at_time_def settlement_repository.unresolved_inv [OF frame],
       auto dest: settlement_repository.settle_error [OF frame] settlement_repository.unresolved_error [OF frame]
         settlement_repository.awaiting_bounded [OF frame])
qed

lemma slots_at_time: "tx_keeps (at_time (st_now s)) m \<Longrightarrow> slots_ok s \<Longrightarrow> m s = Inr (x, s') \<Longrightarrow> slots_ok s'"
  using tx_keepsD [of "at_time (st_now s)" m s x s'] by (simp add: at_time_def)

interpretation slots: gateway_invariant env slots_ok for env
proof (rule gateway_invariant.intro)
  show "settlement_repository (postgres_settlement (ge_from_str env)) slots_ok" by (rule at_time_settlement)
  show "slots_ok s'" if "slots_ok s" "operator_step (ge_from_str env) (qe_sha256 (ge_quote env))
      (qe_display_u256 (ge_quote env)) (ge_display_uuid env) (qe_add_secs (ge_quote env)) (ge_honor_policy env) s s'" for s s'
    using reserved.operator_step_frame [OF that(2), of "st_now s"] that(1) by (simp add: at_time_def)
  show "slots_ok (s\<lparr> st_now := now, st_db_now := db \<rparr>)" if "slots_ok s" "st_now s \<le> now" for s now db
    using slots_ok_later [OF that] by (simp add: slots_ok_def)
qed (auto simp: slots_ok_def [of "_\<lparr> st_generated := _ \<rparr>"] slots_ok_def [of "_\<lparr> st_component_leases := _ \<rparr>"]
    slots_ok_def [of "_\<lparr> st_api_keys := _ \<rparr>"] slots_ok_def [symmetric]
    intro: slots_at_time [OF create_slots] slots_at_time [OF cancel_slots] slots_at_time [OF issue_slots]
      slots_at_time [OF expire_slots])

section \<open>Final states\<close>

definition final_state :: "string \<Rightarrow> bool" where
  "final_state status \<longleftrightarrow> status = ''paid'' \<or> status = ''cancelled''"

definition order_is :: "uuid \<Rightarrow> string \<Rightarrow> store \<Rightarrow> bool" where
  "order_is i status s \<longleftrightarrow> distinct (map in_id (st_intents s)) \<and>
     (\<exists>r\<in>set (st_intents s). in_id r = i \<and> in_status r = status)"

lemma order_is_cong: "st_intents s' = st_intents s \<Longrightarrow> order_is i status s' = order_is i status s"
  by (simp add: order_is_def)

lemma order_is_frame [simp]:
  "order_is i status (s\<lparr> st_generated := g \<rparr>) = order_is i status s"
  "order_is i status (s\<lparr> st_audit := au \<rparr>) = order_is i status s"
  "order_is i status (s\<lparr> st_idempotency := ir \<rparr>) = order_is i status s"
  "order_is i status (s\<lparr> st_quotes := q \<rparr>) = order_is i status s"
  "order_is i status (s\<lparr> st_attempts := a \<rparr>) = order_is i status s"
  "order_is i status (s\<lparr> st_amount_leases := le \<rparr>) = order_is i status s"
  "order_is i status (s\<lparr> st_lease_history := lh \<rparr>) = order_is i status s"
  "order_is i status (s\<lparr> st_outbox := ob \<rparr>) = order_is i status s"
  "order_is i status (s\<lparr> st_generated := g, st_outbox := ob \<rparr>) = order_is i status s"
  "order_is i status (s\<lparr> st_now := now, st_db_now := db \<rparr>) = order_is i status s"
  by (rule order_is_cong; simp)+

lemma order_is_update:
  assumes "order_is i status s" "\<And>r. in_id (f r) = in_id r" "\<And>r. P r \<Longrightarrow> in_status r \<noteq> status"
  shows "order_is i status (s\<lparr> st_intents := sql_update P f (st_intents s) \<rparr>)"
proof -
  from assms(1) obtain r where r: "r \<in> set (st_intents s)" "in_id r = i" "in_status r = status"
    by (auto simp: order_is_def)
  then have "\<not> P r" using assms(3) by blast
  then have "r \<in> set (sql_update P f (st_intents s))" using r(1) by (auto simp: in_sql_update)
  moreover have "map in_id (sql_update P f (st_intents s)) = map in_id (st_intents s)"
    by (rule map_sql_update) (rule assms(2))
  ultimately show ?thesis using assms(1) r by (auto simp: order_is_def)
qed

lemma final_frame:
  assumes "final_state status"
  shows "payment_frame (order_is i status)"
proof (rule payment_frame.intro)
  show "order_is i status (s\<lparr> st_intents := sql_update (payable_intent command)
      (\<lambda>r. r\<lparr> in_status := new, in_version := in_version r + 1, in_updated_at := now \<rparr>) (st_intents s) \<rparr>)"
    if "order_is i status s" for s command new now
    using assms by (intro order_is_update [OF that]) (auto simp: final_state_def payable_intent_def PAYABLE_INTENT_STATES_def)
qed (auto simp: order_is_def)

interpretation paid: payment_frame "order_is i ''paid''" for i
  by (rule final_frame) (simp add: final_state_def)

interpretation cancelled: payment_frame "order_is i ''cancelled''" for i
  by (rule final_frame) (simp add: final_state_def)

lemma request_final:
  "tx_keeps (order_is i status) (record_request m route key hash resource)"
  "tx_keeps (order_is i status) (stored_request m route key)"
  "tx_keeps (order_is i status) (complete_request m route key)"
  "tx_keeps (order_is i status) (insert_system_audit m action kind j payload)"
  "tx_keeps (order_is i status) (enqueue_outbox m' channel event kind j payload t)"
  "tx_keeps (order_is i status) (find_intent m j)" "tx_keeps (order_is i status) (find_quote f d b h m j)"
  unfolding record_request_def stored_request_def complete_request_def insert_system_audit_def enqueue_outbox_def
    find_intent_def find_quote_def
  by (intro tx_keeps_intros; simp)+

lemma create_final: "tx_keeps (order_is i status) (create_idempotently_tx intent actor route key hash)"
proof -
  have "tx_keeps (order_is i status) (insert_intent intent)"
    by (rule tx_keepsI) (auto simp: insert_intent_def Let_def tx_simps order_is_def intent_exists_def list_ex_iff)
  then show ?thesis
    unfolding create_idempotently_tx_def create_work_def create_replay_def insert_creation_audit_event_def
    by (intro tx_keeps_intros request_final; simp)
qed

lemma issue_final:
  assumes "final_state status"
  shows "tx_keeps (order_is i status) (issue_quote_tx f d b h token plan actor route key hash)"
  unfolding issue_quote_tx_def issue_work_def issue_replay_def open_quote_def insert_quote_attempt_and_lease_def
    insert_quote_def insert_attempt_def insert_lease_def insert_quote_audit_events_def
  by (intro tx_keeps_intros request_final order_is_update;
      use assms in \<open>auto simp: final_state_def awaiting_intent_def\<close>)

lemma expire_final:
  assumes "final_state status"
  shows "tx_keeps (order_is i status) (expire_tx now limit)"
proof -
  have "tx_keeps (order_is i status) (expire_attempt now a)" for a
    unfolding expire_attempt_def expired_intent_update
    by (intro tx_keeps_intros request_final order_is_update; use assms in \<open>auto simp: final_state_def\<close>)
  then have "tx_keeps (order_is i status) (expire_attempts now as)" for "as"
    by (induction "as") (simp_all add: tx_keeps_intros)
  moreover have "tx_keeps (order_is i status) (archive_lease now l)" for l
    unfolding archive_lease_def Let_def by (intro tx_keeps_intros request_final; simp)
  then have "tx_keeps (order_is i status) (archive_leases now ls)" for ls
    by (induction ls) (simp_all add: tx_keeps_intros)
  ultimately show ?thesis unfolding expire_tx_def by (intro tx_keeps_intros)
qed

lemma cancel_rows_final:
  assumes "final_state status" "order_is i status s"
    and "row \<in> set (st_intents s)" "in_id row = j" "cancellable_state (in_status row)"
  shows "order_is i status (cancel_rows j now s)"
proof -
  from assms(2) obtain r where r: "r \<in> set (st_intents s)" "in_id r = i" "in_status r = status"
    and d: "distinct (map in_id (st_intents s))" by (auto simp: order_is_def)
  have "i \<noteq> j"
    using distinct_key_eq [OF d r(1) assms(3)] r(2,3) assms(1,4,5) by (auto simp: final_state_def cancellable_state_def)
  then have "r \<in> set (st_intents (cancel_rows j now s))" using r(1,2) by (auto simp: cancel_rows_def in_sql_update)
  moreover have "map in_id (st_intents (cancel_rows j now s)) = map in_id (st_intents s)"
    by (simp add: cancel_rows_def map_sql_update)
  ultimately show ?thesis using d r by (auto simp: order_is_def)
qed

lemma cancel_final:
  assumes "final_state status"
  shows "tx_keeps (order_is i status) (cancel_idempotently_tx m j actor route key hash reason)"
proof -
  have "tx_keeps (order_is i status) (cancel_work m j actor route key reason)"
  proof (rule tx_keepsI)
    fix s x s'
    assume s: "order_is i status s" and run: "cancel_work m j actor route key reason s = Inr (x, s')"
    show "order_is i status s'"
      by (rule cancel_work_keeps [where I = "order_is i status", OF s run])
        (blast intro: cancel_rows_final [OF assms s], (rule request_final)+)
  qed
  then show ?thesis
    unfolding cancel_idempotently_tx_def cancel_replay_def by (intro tx_keeps_intros request_final)
qed

lemma final_invariant:
  assumes "final_state status"
  shows "gateway_invariant env (order_is i status)"
proof (rule gateway_invariant.intro)
  note frame = final_frame [OF assms, of i]
  show "settlement_repository (postgres_settlement (ge_from_str env)) (order_is i status)"
    by (rule payment_frame.settlement_frame [OF frame])
  show "order_is i status s'" if "order_is i status s" "operator_step (ge_from_str env) (qe_sha256 (ge_quote env))
      (qe_display_u256 (ge_quote env)) (ge_display_uuid env) (qe_add_secs (ge_quote env)) (ge_honor_policy env) s s'" for s s'
    using payment_frame.operator_step_frame [OF frame that(2,1)] .
qed (simp_all add: order_is_def [of _ _ "_\<lparr> st_component_leases := _ \<rparr>"] order_is_def [of _ _ "_\<lparr> st_api_keys := _ \<rparr>"]
    order_is_def [symmetric], (erule (1) tx_keepsD [OF create_final] tx_keepsD [OF cancel_final [OF assms]]
      tx_keepsD [OF issue_final [OF assms]] tx_keepsD [OF expire_final [OF assms]])+)

end
