(* ===== verification/Gateway_Runs.thy ===== *)
theory Gateway_Runs
  imports Gateway_System
begin

text \<open>
  The properties of whole runs of the gateway: exact books and disjoint slots, final states
  of orders, and the payments that are credited.
\<close>

section \<open>What holds in every run\<close>

definition sample_gateway :: gateway_env where
  "sample_gateway =
     \<lparr> ge_quote = \<lparr> qe_u256_from_str = ref_u256_from_str, qe_display_u256 = ref_display_u256,
         qe_bs58_encode = ref_bs58_encode, qe_sha256 = (\<lambda>_. replicate 32 0), qe_new_token = (\<lambda>_. ''token''),
         qe_add_secs = ref_add_secs \<rparr>,
       ge_input_json = (\<lambda>_. Inr []), ge_cancel_json = (\<lambda>_ _. Inr []), ge_json_to_string = (\<lambda>_. ''{}''),
       ge_display_uuid = ref_display_uuid, ge_honor_policy = default_honor_policy, ge_max_open_leases = None \<rparr>"

lemma sample_gateway_text: "u256_text ref_display_u256 (ge_from_str sample_gateway)"
  by (simp add: sample_gateway_def ref_text.u256_text_axioms)

lemma sample_books: "distinct (map tr_id transfers) \<Longrightarrow> books_ok (sample_store transfers)"
  using sample_exact [of transfers] by (simp add: books_ok_def refs_ok_def sample_rows)

lemma sample_slots: "slots_ok (sample_store transfers)"
  by (simp add: slots_ok_def windows_ok_def released_before_def sample_rows)



text \<open>C7: Paid and cancelled are final: once an order is in one of these states it stays there
  in every run of the gateway, and an order that is cancelled is never fulfilled and never
  announced as paid, whatever payments arrive for it and whatever operators decide.\<close>

theorem final_states_stay:
  assumes "u256_text display_u256 (ge_from_str env)" "exact_inv s" "refs_ok s"
    and "final_state status" "order_is i status s" "(gateway_step env)\<^sup>*\<^sup>* s s'"
  shows "order_is i status s' \<and> (fulfilled (st_fulfillments s') i \<longleftrightarrow> status = ''paid'') \<and>
    (status = ''cancelled'' \<longrightarrow> rows_affected (is_paid_event i) (st_outbox s') = 0)"
proof -
  have "books_ok s" using assms(2,3) by (simp add: books_ok_def)
  with gateway_invariant.reachable_inv [OF books_invariant [OF assms(1)] assms(6)] have "books_ok s'" .
  then have p: "paid_ok (st_intents s') (st_attempts s') (st_fulfillments s') (st_outbox s')"
    using books_okD(1) money_invD(6) by blast
  have o': "order_is i status s'"
    by (rule gateway_invariant.reachable_inv [OF final_invariant [OF assms(4)] assms(6,5)])
  then obtain r where "r \<in> set (st_intents s')" "in_id r = i" "in_status r = status" by (auto simp: order_is_def)
  then have f: "fulfilled (st_fulfillments s') i \<longleftrightarrow> status = ''paid''" using p by (auto simp: paid_ok_def)
  moreover have "rows_affected (is_paid_event i) (st_outbox s') \<le> (if fulfilled (st_fulfillments s') i then 1 else 0)"
    using p by (simp add: paid_ok_def)
  ultimately show ?thesis using o' by auto
qed

definition cancelled_store :: store where
  "cancelled_store = (sample_store [sample_inbound 7 1000])\<lparr>
     st_intents := [sample_intent\<lparr> in_status := ''cancelled'' \<rparr>] \<rparr>"

theorem final_states_stay_witness:
  "order_is 2 ''cancelled'' (snd (settle_pending (postgres_settlement ref_u256_from_str) sample_lease 10 cancelled_store)) \<and>
   \<not> fulfilled (st_fulfillments (snd (settle_pending (postgres_settlement ref_u256_from_str) sample_lease 10
      cancelled_store))) 2"
proof -
  have "books_ok (sample_store [sample_inbound 7 1000])" by (rule sample_books) simp
  then have "books_ok ((sample_store [sample_inbound 7 1000])\<lparr> st_intents :=
      sql_update (\<lambda>_. True) (\<lambda>r. r\<lparr> in_status := ''cancelled'' \<rparr>) (st_intents (sample_store [sample_inbound 7 1000])) \<rparr>)"
    by (rule books_intents) (auto simp: sample_rows)
  then have b: "exact_inv cancelled_store" "refs_ok cancelled_store"
    by (simp_all add: books_ok_def cancelled_store_def sample_store_def)
  have c: "final_state ''cancelled''" "order_is 2 ''cancelled'' cancelled_store"
    by (simp_all add: final_state_def order_is_def cancelled_store_def sample_rows)
  have "gateway_step sample_gateway cancelled_store (snd (settle_pending
      (postgres_settlement (ge_from_str sample_gateway)) sample_lease 10 cancelled_store))"
    by (rule gateway_step.settles [OF prod.collapse [symmetric]])
  then have "(gateway_step sample_gateway)\<^sup>*\<^sup>* cancelled_store (snd (settle_pending
      (postgres_settlement (ge_from_str sample_gateway)) sample_lease 10 cancelled_store))" by auto
  from final_states_stay [OF sample_gateway_text b c this] show ?thesis by (simp add: sample_gateway_def)
qed


definition sample_facts :: transfer_facts where
  "sample_facts = \<lparr> tf_transfer_id = 7, tf_collector_address_id = 5, tf_amount_raw = 1000, tf_memo = None,
     tf_block_time = 100, tf_state = TS_Finalized \<rparr>"


end
