(* ===== verification/Bounded_Join.thy ===== *)
theory Bounded_Join
  imports Transaction "HOL-Library.Multiset"
begin

text \<open>
  Futures and \<open>bounded_join\<close> of \<open>crates/gateway-application/src/outbox.rs\<close>.

  A future is what is left of an asynchronous function: its answer, or the operation it
  awaits on the state the futures share together with what follows. A poll performs one
  awaited operation and suspends. \<open>bounded_join\<close> polls at most \<open>limit\<close> futures at a time,
  refills a freed slot at once and returns the answers in the order of the input; the
  runtime polls it again whenever it suspended. Futures are well founded, so \<open>bounded_join\<close>
  is a total function: the multiset of the futures left decreases with every poll of it.

  \<open>future_spec\<close> is a rely and guarantee specification of one future, and \<open>join_specs\<close> the
  rule for futures that \<open>bounded_join\<close> interleaves.
\<close>

section \<open>Futures\<close>

datatype ('s, 'a) future = Ready 'a | Await "'s \<Rightarrow> 's \<times> ('s, 'a) future"

definition poll :: "('s, 'a) future \<Rightarrow> 's \<Rightarrow> (('s, 'a) future + 'a) \<times> 's" where
  "poll f s = (case f of Ready a \<Rightarrow> (Inr a, s) | Await g \<Rightarrow> (Inl (snd (g s)), fst (g s)))"

text \<open>A future that stays pending for some polls first.\<close>

primrec idle :: "nat \<Rightarrow> ('s, 'a) future \<Rightarrow> ('s, 'a) future" where
  "idle 0 f = f"
| "idle (Suc n) f = Await (\<lambda>s. (s, idle n f))"

section \<open>The join\<close>

text \<open>\<open>Vec::swap_remove\<close>: the last element takes the place of the removed one.\<close>

definition swap_remove :: "nat \<Rightarrow> 'a list \<Rightarrow> 'a list" where
  "swap_remove i xs = (butlast xs)[i := last xs]"

fun join_fill :: "nat \<Rightarrow> 'f list \<Rightarrow> 'f list \<Rightarrow> 'f list \<times> 'f list" where
  "join_fill limit [] running = ([], running)"
| "join_fill limit (f # waiting) running =
     (if length running < limit then join_fill limit waiting (running @ [f]) else (f # waiting, running))"

function join_pass ::
  "nat \<Rightarrow> (nat \<times> ('s, 'a) future) list \<Rightarrow> 'a option list \<Rightarrow> bool \<Rightarrow> 's
     \<Rightarrow> (nat \<times> ('s, 'a) future) list \<times> 'a option list \<times> bool \<times> 's" where
  "join_pass position running outputs finished_any s =
     (if position < length running then
        case poll (snd (running ! position)) s of
          (Inr output, s') \<Rightarrow> join_pass position (swap_remove position running)
             (outputs[fst (running ! position) := Some output]) True s'
        | (Inl f, s') \<Rightarrow> join_pass (position + 1) (running[position := (fst (running ! position), f)])
             outputs finished_any s'
      else (running, outputs, finished_any, s))"
  by pat_completeness auto
termination
  by (relation "measure (\<lambda>(position, running, _). length running - position)") (auto simp: swap_remove_def)

declare join_pass.simps [simp del]

type_synonym ('s, 'a) join_state = "(nat \<times> ('s, 'a) future) list \<times> (nat \<times> ('s, 'a) future) list \<times> 'a option list"

lemma join_fill_length: "join_fill limit waiting running = (w, r) \<Longrightarrow> length w + length r = length waiting + length running"
  by (induction limit waiting running rule: join_fill.induct) (auto split: if_splits)

lemma join_fill_append: "join_fill limit waiting running = (w, r) \<Longrightarrow> r @ w = running @ waiting"
  by (induction limit waiting running rule: join_fill.induct) (auto split: if_splits)

lemma join_pass_length:
  "join_pass position running outputs finished s = (r, out, finished', s') \<Longrightarrow>
     length r \<le> length running \<and> (finished \<longrightarrow> finished') \<and>
     (length running = length r \<longrightarrow> finished' = finished)"
proof (induction position running outputs finished s rule: join_pass.induct)
  case (1 position running outputs finished s)
  show ?case
    using "1.prems" "1.IH"
    by (subst (asm) join_pass.simps)
      (force simp: swap_remove_def split: if_splits prod.splits sum.splits)
qed

text \<open>One poll of the join: \<open>True\<close> when every future has answered.\<close>

function join_poll :: "nat \<Rightarrow> ('s, 'a) join_state \<Rightarrow> 's \<Rightarrow> bool \<times> ('s, 'a) join_state \<times> 's" where
  "join_poll limit (waiting, running, outputs) s =
     (case join_fill limit waiting running of (waiting', running') \<Rightarrow>
        if running' = [] then (True, (waiting', running', outputs), s)
        else case join_pass 0 running' outputs False s of (running'', outputs', finished_any, s') \<Rightarrow>
          if finished_any then join_poll limit (waiting', running'', outputs') s'
          else (False, (waiting', running'', outputs'), s'))"
  by pat_completeness auto
termination
proof (relation "measure (\<lambda>(_, (waiting, running, _), _). length waiting + length running)", goal_cases)
  case (2 limit waiting running outputs s)
  then show ?case
    using join_fill_length [of limit waiting running] join_pass_length [of 0 _ outputs False s]
    by (fastforce dest!: sym [of _ "join_fill _ _ _"] sym [of _ "join_pass _ _ _ _ _"])
qed simp

declare join_poll.simps [simp del]

definition future_sub :: "(('s, 'a) future \<times> ('s, 'a) future) set" where
  "future_sub = {(f, Await g) | f g. \<exists>s. f = snd (g s)}"

lemma wf_future_sub: "wf (future_sub :: (('s, 'a) future \<times> ('s, 'a) future) set)"
proof (rule wfUNIVI)
  fix P :: "('s, 'a) future \<Rightarrow> bool" and f
  assume step: "\<forall>f. (\<forall>h. (h, f) \<in> future_sub \<longrightarrow> P h) \<longrightarrow> P f"
  show "P f"
  proof (induction f)
    case (Ready a)
    show ?case by (rule step [rule_format]) (auto simp: future_sub_def)
  next
    case (Await g)
    have "P h" if "(h, Await g) \<in> future_sub" for h
    proof -
      from that obtain s where "h = snd (g s)" by (auto simp: future_sub_def)
      then show ?thesis using Await [of "g s" h] by (simp add: snds.intros)
    qed
    then show ?case using step by blast
  qed
qed

lemma poll_pending_sub: "poll f s = (Inl h, s') \<Longrightarrow> (h, f) \<in> future_sub"
  by (cases f) (auto simp: poll_def future_sub_def)

lemma mset_swap_remove:
  assumes "i < length xs"
  shows "mset xs = add_mset (xs ! i) (mset (swap_remove i xs))"
proof -
  have xs: "xs = butlast xs @ [last xs]" using assms by (cases xs rule: rev_cases) auto
  show ?thesis
  proof (cases "i < length (butlast xs)")
    case True
    then have "xs ! i = butlast xs ! i" by (simp add: nth_butlast)
    with True show ?thesis
      by (subst (1) xs) (simp add: swap_remove_def mset_update add_mset_commute)
  next
    case False
    then have "i = length xs - 1" "(butlast xs)[i := last xs] = butlast xs"
      using assms by (auto simp: list_update_beyond)
    then show ?thesis
      using assms by (subst (1) xs) (cases xs rule: rev_cases; simp add: swap_remove_def last_conv_nth)
  qed
qed

definition futures_left :: "(nat \<times> ('s, 'a) future) list \<Rightarrow> ('s, 'a) future multiset" where
  "futures_left fs = image_mset snd (mset fs)"

lemma futures_left_append: "futures_left (xs @ ys) = futures_left xs + futures_left ys"
  by (simp add: futures_left_def)

lemma futures_left_removed:
  "i < length xs \<Longrightarrow> (futures_left (swap_remove i xs), futures_left xs) \<in> mult future_sub"
  unfolding futures_left_def mset_swap_remove
  by (simp add: mset_swap_remove [of i xs] subset_implies_mult)

lemma futures_left_updated:
  assumes "i < length xs" "(f, snd (xs ! i)) \<in> future_sub"
  shows "(futures_left (xs[i := (n, f)]), futures_left xs) \<in> mult future_sub"
proof -
  let ?M = "image_mset snd (mset xs - {#xs ! i#})"
  have "futures_left xs = add_mset (snd (xs ! i)) ?M"
    using assms(1) by (simp add: futures_left_def flip: image_mset_add_mset)
  moreover have "futures_left (xs[i := (n, f)]) = add_mset f ?M"
    using assms(1) by (simp add: futures_left_def mset_update)
  ultimately have "(futures_left (xs[i := (n, f)]), futures_left xs) \<in> mult1 future_sub"
    using mult1I [of "futures_left xs" "snd (xs ! i)" ?M "futures_left (xs[i := (n, f)])" "{#f#}" future_sub] assms(2)
    by simp
  then show ?thesis by (auto simp: mult_def)
qed

lemma join_pass_step:
  assumes "position < length running"
  shows "join_pass position running outputs finished s =
     (case poll (snd (running ! position)) s of
        (Inr output, s') \<Rightarrow> join_pass position (swap_remove position running)
           (outputs[fst (running ! position) := Some output]) True s'
      | (Inl f, s') \<Rightarrow> join_pass (position + 1) (running[position := (fst (running ! position), f)])
           outputs finished s')"
  using assms by (simp add: join_pass.simps)

lemma join_pass_end: "\<not> position < length running \<Longrightarrow> join_pass position running outputs finished s = (running, outputs, finished, s)"
  by (simp add: join_pass.simps)

text \<open>Induction over a pass: what holds at its end and is kept backwards along every poll.\<close>

lemma join_pass_induct [consumes 1, case_names over answer pending]:
  assumes "join_pass position running outputs finished s = (r, out, finished', s')"
    and "\<And>position. \<not> position < length r \<Longrightarrow> Q position r out finished' s'"
    and "\<And>position running outputs finished s output s1. position < length running \<Longrightarrow>
      poll (snd (running ! position)) s = (Inr output, s1) \<Longrightarrow>
      Q position (swap_remove position running) (outputs[fst (running ! position) := Some output]) True s1 \<Longrightarrow>
      Q position running outputs finished s"
    and "\<And>position running outputs finished s f s1. position < length running \<Longrightarrow>
      poll (snd (running ! position)) s = (Inl f, s1) \<Longrightarrow>
      Q (position + 1) (running[position := (fst (running ! position), f)]) outputs finished s1 \<Longrightarrow>
      Q position running outputs finished s"
  shows "Q position running outputs finished s"
  using assms(1)
proof (induction position running outputs finished s rule: join_pass.induct)
  case (1 position running outputs finished s)
  show ?case
  proof (cases "position < length running")
    case True
    obtain p s1 where p: "poll (snd (running ! position)) s = (p, s1)" by fastforce
    show ?thesis
    proof (cases p)
      case (Inl f)
      then show ?thesis
        using "1.prems" True p "1.IH"(1) [OF True p [symmetric] Inl]
        by (intro assms(4) [OF True p [unfolded Inl]]) (simp add: join_pass_step)
    next
      case (Inr a)
      then show ?thesis
        using "1.prems" True p "1.IH"(2) [OF True p [symmetric] Inr]
        by (intro assms(3) [OF True p [unfolded Inr]]) (simp add: join_pass_step)
    qed
  qed (use "1.prems" assms(2) in \<open>simp add: join_pass_end\<close>)
qed

lemma mult_trans: "(a, b) \<in> mult r \<Longrightarrow> (b, c) \<in> mult r \<Longrightarrow> (a, c) \<in> mult r"
  unfolding mult_def by (rule trancl_trans)

lemma mult_add_right: "(a, b) \<in> mult r \<Longrightarrow> (a + c, b + c) \<in> mult r"
  unfolding mult_def
proof (induction rule: trancl_induct)
  case (base b)
  then show ?case using mult1_union [of a b r c] by (simp add: add.commute r_into_trancl)
next
  case (step b d)
  then show ?case using mult1_union [of b d r c] by (simp add: add.commute trancl_into_trancl)
qed

lemma join_pass_left:
  assumes "join_pass position running outputs finished s = (r, out, finished', s')"
  shows "if position < length running then (futures_left r, futures_left running) \<in> mult future_sub
    else futures_left r = futures_left running"
  using assms
proof (induction rule: join_pass_induct)
  case (answer position running outputs finished s a s1)
  have "(futures_left (swap_remove position running), futures_left running) \<in> mult future_sub"
    by (rule futures_left_removed) (rule answer)
  then show ?case using answer by (auto intro: mult_trans split: if_splits)
next
  case (pending position running outputs finished s f s1)
  have "(futures_left (running[position := (fst (running ! position), f)]), futures_left running) \<in> mult future_sub"
    using pending by (intro futures_left_updated poll_pending_sub)
  then show ?case using pending by (auto intro: mult_trans split: if_splits)
qed simp

abbreviation join_left :: "('s, 'a) join_state \<Rightarrow> (nat \<times> ('s, 'a) future) list" where
  "join_left st \<equiv> fst (snd st) @ fst st"

lemma join_poll_step:
  assumes "join_fill limit waiting running = (w, r)"
  shows "r = [] \<Longrightarrow> join_poll limit (waiting, running, outputs) s = (True, (w, [], outputs), s)"
    and "r \<noteq> [] \<Longrightarrow> join_pass 0 r outputs False s = (r', out, finished, s') \<Longrightarrow>
      join_poll limit (waiting, running, outputs) s =
        (if finished then join_poll limit (w, r', out) s' else (False, (w, r', out), s'))"
  using assms by (simp_all add: join_poll.simps [of limit waiting])

text \<open>Induction over one poll of the join.\<close>

lemma join_poll_induct [consumes 1, case_names ready again pending]:
  assumes "join_poll limit (waiting, running, outputs) s = (done', st, s')"
    and "\<And>waiting running outputs s w. join_fill limit waiting running = (w, []) \<Longrightarrow>
      done' \<Longrightarrow> st = (w, [], outputs) \<Longrightarrow> s' = s \<Longrightarrow> Q waiting running outputs s"
    and "\<And>waiting running outputs s w r r' out s1. join_fill limit waiting running = (w, r) \<Longrightarrow> r \<noteq> [] \<Longrightarrow>
      join_pass 0 r outputs False s = (r', out, True, s1) \<Longrightarrow> Q w r' out s1 \<Longrightarrow> Q waiting running outputs s"
    and "\<And>waiting running outputs s w r r' out. join_fill limit waiting running = (w, r) \<Longrightarrow> r \<noteq> [] \<Longrightarrow>
      join_pass 0 r outputs False s = (r', out, False, s') \<Longrightarrow> \<not> done' \<Longrightarrow> st = (w, r', out) \<Longrightarrow>
      Q waiting running outputs s"
  shows "Q waiting running outputs s"
  using assms
proof (induction limit "(waiting, running, outputs)" s arbitrary: waiting running outputs rule: join_poll.induct)
  case (1 limit waiting running outputs s)
  obtain w r where fill: "join_fill limit waiting running = (w, r)" by fastforce
  show ?case
  proof (cases "r = []")
    case True
    with fill "1.prems"(1) join_poll_step(1) [OF fill True, of outputs s] show ?thesis
      by (intro "1.prems"(2) [of waiting running w]) simp_all
  next
    case False
    obtain r' out finished s1 where pass: "join_pass 0 r outputs False s = (r', out, finished, s1)"
      by (metis prod_cases4)
    note step = join_poll_step(2) [OF fill False pass]
    show ?thesis
    proof (cases finished)
      case True
      have "Q w r' out s1"
        by (rule "1.hyps" [OF fill [symmetric] False pass [symmetric] refl refl True _ "1.prems"(2-4)])
          (use "1.prems"(1) step True in simp)
      with True pass show ?thesis by (intro "1.prems"(3) [OF fill False]) simp_all
    next
      case unfinished: False
      with "1.prems"(1) pass step show ?thesis by (intro "1.prems"(4) [OF fill False]) auto
    qed
  qed
qed

lemma join_poll_left:
  assumes "join_poll limit (waiting, running, outputs) s = (done', st, s')" "\<not> done'"
  shows "(futures_left (join_left st), futures_left (running @ waiting)) \<in> mult future_sub"
  using assms(1)
proof (induction rule: join_poll_induct)
  case (ready waiting running outputs s w)
  with assms(2) show ?case by simp
next
  case (again waiting running outputs s w r r' out s1)
  then have "(futures_left r', futures_left r) \<in> mult future_sub" using join_pass_left [OF again(3)] by simp
  then have "(futures_left (r' @ w), futures_left (r @ w)) \<in> mult future_sub"
    by (simp add: futures_left_append mult_add_right)
  with again show ?case using join_fill_append [OF again(1)] by (auto intro: mult_trans)
next
  case (pending waiting running outputs s w r r' out)
  then have "(futures_left r', futures_left r) \<in> mult future_sub" using join_pass_left [OF pending(3)] by simp
  then have "(futures_left (r' @ w), futures_left (r @ w)) \<in> mult future_sub"
    by (simp add: futures_left_append mult_add_right)
  with pending show ?case using join_fill_append [OF pending(1)] by simp
qed

text \<open>The runtime polls the join until it is ready.\<close>

function join_run :: "nat \<Rightarrow> ('s, 'a) join_state \<Rightarrow> 's \<Rightarrow> 'a option list \<times> 's" where
  "join_run limit st s =
     (case join_poll limit st s of (done', st', s') \<Rightarrow>
        if done' then (snd (snd st'), s') else join_run limit st' s')"
  by pat_completeness auto
termination
proof (relation "inv_image (mult future_sub) (\<lambda>(_, st, _). futures_left (join_left st))", goal_cases)
  case 1
  show ?case by (intro wf_inv_image wf_mult wf_future_sub)
next
  case (2 limit st s)
  then show ?case by (cases st) (auto dest!: sym [of _ "join_poll _ _ _"] dest: join_poll_left)
qed

declare join_run.simps [simp del]

definition bounded_join :: "('s, 'a) future list \<Rightarrow> nat \<Rightarrow> 's \<Rightarrow> 'a list \<times> 's" where
  "bounded_join futures limit s =
     (let limit = max limit 1;
          (outputs, s') = join_run limit (enumerate 0 futures, [], map (\<lambda>_. None) futures) s
      in (List.map_filter id outputs, s'))"

section \<open>What the join returns\<close>

text \<open>
  \<open>spec i f s\<close>: \<open>f\<close> is what may be left of future \<open>i\<close> when the state is \<open>s\<close>. A poll keeps the
  specification of the polled future and of every other one.
\<close>

definition polls_keep :: "(nat \<Rightarrow> ('s, 'a) future \<Rightarrow> 's \<Rightarrow> bool) \<Rightarrow> bool" where
  "polls_keep spec \<longleftrightarrow> (\<forall>i f s f' s'. spec i f s \<longrightarrow> poll f s = (Inl f', s') \<longrightarrow>
     spec i f' s' \<and> (\<forall>j h. j \<noteq> i \<longrightarrow> spec j h s \<longrightarrow> spec j h s'))"

definition join_inv ::
  "(nat \<Rightarrow> ('s, 'a) future \<Rightarrow> 's \<Rightarrow> bool) \<Rightarrow> nat \<Rightarrow> (nat \<times> ('s, 'a) future) multiset \<Rightarrow> 'a option list \<Rightarrow> 's \<Rightarrow> bool" where
  "join_inv spec n left outputs s \<longleftrightarrow> length outputs = n \<and>
     image_mset fst left = mset_set {i. i < n \<and> outputs ! i = None} \<and>
     (\<forall>(i, f) \<in># left. spec i f s) \<and> (\<forall>i<n. \<forall>a. outputs ! i = Some a \<longrightarrow> spec i (Ready a) s)"

lemma join_inv_index:
  assumes "join_inv spec n (add_mset (i, f) left) outputs s"
  shows "i < n" "outputs ! i = None" "\<And>j h. (j, h) \<in># left \<Longrightarrow> j \<noteq> i"
    and "image_mset fst left = mset_set ({i. i < n \<and> outputs ! i = None} - {i})"
proof -
  let ?A = "{i. i < n \<and> outputs ! i = None}"
  from assms have eq: "add_mset i (image_mset fst left) = mset_set ?A" by (simp add: join_inv_def)
  have fin: "finite ?A" by simp
  have "i \<in># mset_set ?A" by (simp flip: eq)
  then have i: "i \<in> ?A" using fin by simp
  then show "i < n" "outputs ! i = None" by simp_all
  show left: "image_mset fst left = mset_set (?A - {i})"
    using eq i fin by (simp add: mset_set.remove)
  show "j \<noteq> i" if "(j, h) \<in># left" for j h
  proof -
    have "j \<in># image_mset fst left" using that by force
    then show ?thesis unfolding left using fin by simp
  qed
qed

lemma join_inv_answer:
  assumes "join_inv spec n (add_mset (i, Ready a) left) outputs s"
  shows "join_inv spec n left (outputs[i := Some a]) s"
proof -
  note i = join_inv_index [OF assms]
  have "{k. k < n \<and> outputs[i := Some a] ! k = None} = {k. k < n \<and> outputs ! k = None} - {i}"
    using i(1) assms by (auto simp: join_inv_def nth_list_update split: if_splits)
  with assms i show ?thesis by (auto simp: join_inv_def nth_list_update)
qed

lemma join_inv_pending:
  assumes "join_inv spec n (add_mset (i, f) left) outputs s" "polls_keep spec" "poll f s = (Inl f', s')"
  shows "join_inv spec n (add_mset (i, f') left) outputs s'"
proof -
  note i = join_inv_index [OF assms(1)]
  have "spec i f s" using assms(1) by (simp add: join_inv_def)
  with assms(2,3) have keep: "spec i f' s'" "\<And>j h. j \<noteq> i \<Longrightarrow> spec j h s \<Longrightarrow> spec j h s'"
    unfolding polls_keep_def by blast+
  have "spec j (Ready a) s'" if "j < n" "outputs ! j = Some a" for j a
  proof -
    have "j \<noteq> i" using that i by auto
    then show ?thesis using that assms(1) by (auto simp: join_inv_def intro: keep(2))
  qed
  moreover have "spec j h s'" if "(j, h) \<in># left" for j h
    using that i(3) [OF that] assms(1) by (auto simp: join_inv_def intro: keep(2))
  ultimately show ?thesis using assms(1) keep(1) by (auto simp: join_inv_def)
qed

lemma join_pass_inv:
  assumes "join_pass position running outputs finished s = (r, out, finished', s')" "polls_keep spec"
    and "join_inv spec n (mset (running @ waiting)) outputs s"
  shows "join_inv spec n (mset (r @ waiting)) out s'"
  using assms(1,3)
proof (induction rule: join_pass_induct)
  case (answer position running outputs finished s a s1)
  then have "running ! position = (fst (running ! position), Ready a)" "s1 = s"
    by (auto simp: poll_def prod_eq_iff split: future.splits)
  moreover have "mset (running @ waiting) =
      add_mset (running ! position) (mset (swap_remove position running @ waiting))"
    using mset_swap_remove [OF answer(1)] by simp
  ultimately show ?case using answer(3,4) join_inv_answer by metis
next
  case (pending position running outputs finished s f s1)
  let ?x = "running ! position" and ?rest = "mset running - {#running ! position#} + mset waiting"
  have "mset (running @ waiting) = add_mset (fst ?x, snd ?x) ?rest"
    using pending(1) by (simp add: in_multiset_in_set)
  moreover have "mset (running[position := (fst ?x, f)] @ waiting) = add_mset (fst ?x, f) ?rest"
    using pending(1) by (simp add: mset_update)
  ultimately show ?case
    using pending(3,4) join_inv_pending [OF _ assms(2) pending(2)] by metis
qed simp

lemma join_poll_inv:
  assumes "join_poll limit (waiting, running, outputs) s = (done', st, s')" "polls_keep spec"
    and "join_inv spec n (mset (running @ waiting)) outputs s"
  shows "join_inv spec n (mset (join_left st)) (snd (snd st)) s'"
  using assms(1,3)
proof (induction rule: join_poll_induct)
  case (again waiting running outputs s w r r' out s1)
  then show ?case using join_pass_inv [OF again(3) assms(2), of n w] join_fill_append [OF again(1)] by simp
next
  case (pending waiting running outputs s w r r' out)
  then show ?case using join_pass_inv [OF pending(3) assms(2), of n w] join_fill_append [OF pending(1)] by simp
qed (use join_fill_append in force)

lemma join_fill_stops: "join_fill limit waiting running = (w, []) \<Longrightarrow> 0 < limit \<Longrightarrow> w = []"
  by (induction limit waiting running rule: join_fill.induct) (auto split: if_splits)

lemma join_poll_ready:
  assumes "join_poll limit (waiting, running, outputs) s = (done', st, s')" "done'" "0 < limit"
  shows "join_left st = []"
  using assms(1) by (induction rule: join_poll_induct) (use assms(2,3) in \<open>auto dest: join_fill_stops\<close>)

lemma join_fill_bounded: "join_fill limit waiting running = (w, r) \<Longrightarrow> length running \<le> limit \<Longrightarrow> length r \<le> limit"
  by (induction limit waiting running rule: join_fill.induct) (auto split: if_splits)

lemma join_poll_bounded:
  assumes "join_poll limit (waiting, running, outputs) s = (done', st, s')" "length running \<le> limit"
  shows "length (fst (snd st)) \<le> limit"
  using assms
proof (induction rule: join_poll_induct)
  case (again waiting running outputs s w r r' out s1)
  then show ?case using join_fill_bounded [OF again(1)] join_pass_length [OF again(3)] by simp
next
  case (pending waiting running outputs s w r r' out)
  then show ?case using join_fill_bounded [OF pending(1)] join_pass_length [OF pending(3)] by simp
qed simp

lemma join_run_inv:
  assumes "join_run limit st s = (outputs, s')" "0 < limit" "polls_keep spec"
    and "join_inv spec n (mset (join_left st)) (snd (snd st)) s"
  shows "join_inv spec n {#} outputs s'"
  using assms
proof (induction limit st s rule: join_run.induct)
  case (1 limit st s)
  obtain d st' s1 where poll: "join_poll limit st s = (d, st', s1)" by (metis prod_cases3)
  have inv: "join_inv spec n (mset (join_left st')) (snd (snd st')) s1"
    using join_poll_inv [of limit "fst st" "fst (snd st)" "snd (snd st)"] "1.prems"(3,4) poll by simp
  show ?case
  proof (cases d)
    case True
    then have "join_left st' = []" using join_poll_ready [of limit "fst st" "fst (snd st)" "snd (snd st)"] poll "1.prems"(2) by simp
    with True poll inv "1.prems"(1) show ?thesis by (simp add: join_run.simps [of limit st])
  next
    case False
    with poll "1.prems"(1) have "join_run limit st' s1 = (outputs, s')" by (simp add: join_run.simps [of limit st])
    then show ?thesis using "1.IH" [OF poll [symmetric] refl False] "1.prems"(2,3) inv by simp
  qed
qed

lemma join_inv_start:
  assumes "\<And>i. i < length fs \<Longrightarrow> spec i (fs ! i) s"
  shows "join_inv spec (length fs) (mset (enumerate 0 fs)) (map (\<lambda>_. None) fs) s"
proof -
  have "image_mset fst (mset (enumerate 0 fs)) = mset [0..<length fs]"
    by (simp flip: mset_map)
  also have "\<dots> = mset_set {0..<length fs}" by simp
  also have "{0..<length fs} = {i. i < length fs \<and> map (\<lambda>_. None :: 'b option) fs ! i = None}" by auto
  finally show ?thesis using assms by (auto simp: join_inv_def in_set_enumerate_eq)
qed

lemma join_inv_end:
  assumes "join_inv spec n {#} outputs s"
  shows "\<exists>answers. outputs = map Some answers \<and> length answers = n \<and> (\<forall>i<n. spec i (Ready (answers ! i)) s)"
proof -
  from assms have none: "{i. i < n \<and> outputs ! i = None} = {}" and n: "length outputs = n"
    and spec: "\<And>i a. i < n \<Longrightarrow> outputs ! i = Some a \<Longrightarrow> spec i (Ready a) s"
    by (auto simp: join_inv_def mset_set_empty_iff)
  have some: "outputs ! i = Some (the (outputs ! i))" if "i < n" for i using none that by auto
  have "outputs = map Some (map the outputs)" using n some by (intro nth_equalityI) simp_all
  moreover have "spec i (Ready (map the outputs ! i)) s" if "i < n" for i using spec [OF that some [OF that]] that n by simp
  ultimately show ?thesis using n by (intro exI [where x = "map the outputs"]) simp
qed

lemma map_filter_Some: "List.map_filter id (map Some xs) = xs"
  by (induction xs) (simp_all add: List.map_filter_def)

lemma bounded_join_specs:
  assumes "bounded_join fs limit s = (answers, s')" "polls_keep spec" "\<And>i. i < length fs \<Longrightarrow> spec i (fs ! i) s"
  shows "length answers = length fs" "\<And>i. i < length fs \<Longrightarrow> spec i (Ready (answers ! i)) s'"
proof -
  obtain outputs where run: "join_run (max limit 1) (enumerate 0 fs, [], map (\<lambda>_. None) fs) s = (outputs, s')"
    and answers: "answers = List.map_filter id outputs"
    using assms(1) by (auto simp: bounded_join_def Let_def split: prod.splits)
  have "join_inv spec (length fs) {#} outputs s'"
    using join_run_inv [OF run _ assms(2), of "length fs"] join_inv_start [of fs spec s] assms(3) by simp
  from join_inv_end [OF this] show "length answers = length fs" "\<And>i. i < length fs \<Longrightarrow> spec i (Ready (answers ! i)) s'"
    by (auto simp: answers map_filter_Some)
qed

section \<open>Every join ends\<close>

text \<open>The answers a future can give, whatever happens to the state between its polls.\<close>

inductive may_answer :: "('s, 'a) future \<Rightarrow> 'a \<Rightarrow> bool" where
  now: "may_answer (Ready a) a"
| later: "may_answer (snd (g s)) a \<Longrightarrow> may_answer (Await g) a"

inductive_cases may_answer_ReadyE: "may_answer (Ready b) a"

text \<open>A poll of the join that suspends.\<close>

inductive join_suspends :: "nat \<Rightarrow> ('s, 'a) join_state \<times> 's \<Rightarrow> ('s, 'a) join_state \<times> 's \<Rightarrow> bool" for limit where
  "join_poll limit st s = (False, st', s') \<Longrightarrow> join_suspends limit (st, s) (st', s')"

lemma join_run_suspends:
  "join_run limit st s = (outputs, s') \<Longrightarrow>
     \<exists>st1 s1 st2. (join_suspends limit)\<^sup>*\<^sup>* (st, s) (st1, s1) \<and> join_poll limit st1 s1 = (True, st2, s') \<and>
       outputs = snd (snd st2)"
proof (induction limit st s rule: join_run.induct)
  case (1 limit st s)
  obtain d st' s1 where poll: "join_poll limit st s = (d, st', s1)" by (metis prod_cases3)
  show ?case
  proof (cases d)
    case True
    with poll "1.prems" have "join_poll limit st s = (True, st', s')" "outputs = snd (snd st')"
      by (simp_all add: join_run.simps [of limit st])
    then show ?thesis by blast
  next
    case False
    with poll "1.prems" have "join_run limit st' s1 = (outputs, s')" by (simp add: join_run.simps [of limit st])
    moreover have "join_suspends limit (st, s) (st', s1)" using poll False by (simp add: join_suspends.intros)
    ultimately show ?thesis
      using "1.IH" [OF poll [symmetric] refl False] by (meson converse_rtranclp_into_rtranclp)
  qed
qed

lemma join_suspends_bounded:
  assumes "(join_suspends limit)\<^sup>*\<^sup>* (st, s) (st', s')" "length (fst (snd st)) \<le> limit"
  shows "length (fst (snd st')) \<le> limit"
  using assms(1)
proof (induction rule: rtranclp_induct2)
  case (step st1 s1 st2 s2)
  then show ?case
    using join_poll_bounded [of limit "fst st1" "fst (snd st1)" "snd (snd st1)"] by (simp add: join_suspends.simps)
qed (rule assms(2))

definition join_start :: "('s, 'a) future list \<Rightarrow> ('s, 'a) join_state" where
  "join_start futures = (enumerate 0 futures, [], map (\<lambda>_. None) futures)"

lemma may_answer_poll: "poll f s = (Inl f', s') \<Longrightarrow> may_answer f' a \<Longrightarrow> may_answer f a"
  by (cases f) (auto simp: poll_def intro: may_answer.intros)

lemma bounded_join_answers: "list_all2 may_answer fs (fst (bounded_join fs limit s))"
proof -
  let ?spec = "\<lambda>i f s. \<forall>a. may_answer f a \<longrightarrow> may_answer (fs ! i) a"
  obtain answers s' where join: "bounded_join fs limit s = (answers, s')" by fastforce
  have "polls_keep ?spec" unfolding polls_keep_def by (blast intro: may_answer_poll)
  from bounded_join_specs [OF join this]
  have "length answers = length fs" "\<And>i. i < length fs \<Longrightarrow> may_answer (fs ! i) (answers ! i)"
    by (simp_all add: may_answer.now)
  with join show ?thesis by (simp add: list_all2_conv_all_nth)
qed

text \<open>C11: Whatever futures it is given and however they interleave, \<open>bounded_join\<close> suspends only
  finitely often and then returns one answer per future, in the order of the input and each an
  answer of that future; between two polls at most \<open>limit\<close> futures (at least one) are in flight.\<close>

theorem bounded_join_finishes:
  "\<exists>st s1 answers s'. (join_suspends (max limit 1))\<^sup>*\<^sup>* (join_start futures, s) (st, s1) \<and>
     join_poll (max limit 1) st s1 = (True, ([], [], map Some answers), s') \<and>
     bounded_join futures limit s = (answers, s') \<and> list_all2 may_answer futures answers \<and>
     (\<forall>st2 s2. (join_suspends (max limit 1))\<^sup>*\<^sup>* (join_start futures, s) (st2, s2) \<longrightarrow>
        length (fst (snd st2)) \<le> max limit 1)"
proof -
  obtain outputs s' where run: "join_run (max limit 1) (join_start futures) s = (outputs, s')" by fastforce
  from join_run_suspends [OF run] obtain st s1 st2 where
    poll: "(join_suspends (max limit 1))\<^sup>*\<^sup>* (join_start futures, s) (st, s1)"
      "join_poll (max limit 1) st s1 = (True, st2, s')" "outputs = snd (snd st2)" by blast
  have left: "join_left st2 = []"
    using join_poll_ready [of "max limit 1" "fst st" "fst (snd st)" "snd (snd st)"] poll(2) by simp
  have "join_inv (\<lambda>_ _ _. True) (length futures) {#} outputs s'"
    using join_run_inv [OF run, of "\<lambda>_ _ _. True"] join_inv_start [of futures "\<lambda>_ _ _. True" s]
    by (simp add: polls_keep_def join_start_def)
  from join_inv_end [OF this] obtain answers where answers: "outputs = map Some answers" by blast
  have join: "bounded_join futures limit s = (answers, s')"
    using run by (simp add: bounded_join_def join_start_def answers map_filter_Some)
  have "st2 = ([], [], map Some answers)" using left poll(3) answers by (cases st2) auto
  moreover have "length (fst (snd st3)) \<le> max limit 1"
    if "(join_suspends (max limit 1))\<^sup>*\<^sup>* (join_start futures, s) (st3, s3)" for st3 s3
    by (rule join_suspends_bounded [OF that]) (simp add: join_start_def)
  moreover have "list_all2 may_answer futures answers" using bounded_join_answers [of futures limit s] join by simp
  ultimately show ?thesis using poll(1,2) join by blast
qed

text \<open>Two futures with two slots: the first is pending for longer, the answers keep the order.\<close>

theorem bounded_join_finishes_witness:
  "\<exists>st s1 s'. (join_suspends 2)\<^sup>*\<^sup>* (join_start [idle 3 (Ready ''slow''), idle 1 (Ready ''fast'')], ()) (st, s1) \<and>
     join_poll 2 st s1 = (True, ([], [], [Some ''slow'', Some ''fast'']), s')"
proof -
  let ?fs = "[idle 3 (Ready ''slow''), idle 1 (Ready ''fast'')] :: (unit, string) future list"
  have two: "max (2 :: nat) 1 = 2" by simp
  from bounded_join_finishes [of 2 ?fs "()", unfolded two] obtain st s1 answers s' where
    *: "(join_suspends 2)\<^sup>*\<^sup>* (join_start ?fs, ()) (st, s1)"
      "join_poll 2 st s1 = (True, ([], [], map Some answers), s')" "list_all2 may_answer ?fs answers"
    by blast
  have only: "may_answer (idle n (Ready a :: (unit, string) future)) b \<Longrightarrow> b = a" for n a b
    by (induction n) (auto elim: may_answer.cases)
  have "answers = [''slow'', ''fast'']" using *(3)
    by (auto simp: list_all2_Cons1 dest!: only simp del: idle.simps One_nat_def)
  with *(2) have "join_poll 2 st s1 = (True, ([], [], [Some ''slow'', Some ''fast'']), s')" by simp
  with *(1) show ?thesis by blast
qed

section \<open>Rely and guarantee\<close>

text \<open>
  \<open>rely\<close>: what the others may do to the state between two polls. \<open>guar\<close>: what one of the
  future's own operations does to it. \<open>post\<close>: its answer and the state once it is ready.
\<close>

inductive future_spec ::
  "('s \<Rightarrow> 's \<Rightarrow> bool) \<Rightarrow> ('s \<Rightarrow> 's \<Rightarrow> bool) \<Rightarrow> ('a \<Rightarrow> 's \<Rightarrow> bool) \<Rightarrow> ('s, 'a) future \<Rightarrow> 's \<Rightarrow> bool"
  for rely guar post where
  ready: "(\<And>s'. rely s s' \<Longrightarrow> post a s') \<Longrightarrow> future_spec rely guar post (Ready a) s"
| await: "(\<And>s'. rely s s' \<Longrightarrow> guar s' (fst (g s')) \<and> future_spec rely guar post (snd (g s')) (fst (g s'))) \<Longrightarrow>
    future_spec rely guar post (Await g) s"

inductive_cases future_spec_ReadyE: "future_spec rely guar post (Ready a) s"
inductive_cases future_spec_AwaitE: "future_spec rely guar post (Await g) s"

lemma future_spec_rely:
  assumes "future_spec rely guar post f s" "rely s s'" "transp rely"
  shows "future_spec rely guar post f s'"
  using assms(1,2)
proof (cases f)
  case (Ready a)
  with assms show ?thesis by (auto elim!: future_spec_ReadyE intro!: future_spec.ready dest: transpD)
next
  case (Await g)
  with assms show ?thesis
    by (auto elim!: future_spec_AwaitE intro!: future_spec.await dest: transpD)
qed

lemma future_spec_post: "future_spec rely guar post (Ready a) s \<Longrightarrow> rely s s \<Longrightarrow> post a s"
  by (auto elim: future_spec_ReadyE)

lemma future_spec_idle:
  assumes "future_spec rely guar post f s" "transp rely" "\<And>s. guar s s"
  shows "future_spec rely guar post (idle n f) s"
  using assms(1)
proof (induction n arbitrary: s)
  case (Suc n)
  show ?case
    using Suc.IH future_spec_rely [OF Suc.prems _ assms(2)] assms(3) by (auto intro!: future_spec.await)
qed simp

lemma bounded_join_Nil: "bounded_join [] limit s = ([], s)"
  by (simp add: bounded_join_def join_run.simps join_poll.simps List.map_filter_def)

lemma join_specs:
  assumes "bounded_join fs limit s = (answers, s')"
    and "\<And>i. i < length fs \<Longrightarrow> future_spec (rely i) (guar i) (post i) (fs ! i) s"
    and "\<And>i. reflp (rely i)" "\<And>i. transp (rely i)" "\<And>i j s s'. i \<noteq> j \<Longrightarrow> guar i s s' \<Longrightarrow> rely j s s'"
    and "\<And>i s s'. guar i s s' \<Longrightarrow> whole s s'" "reflp whole" "transp whole"
  shows "length answers = length fs" "\<And>i. i < length fs \<Longrightarrow> post i (answers ! i) s'" "whole s s'"
proof -
  let ?spec = "\<lambda>i f t. future_spec (rely i) (guar i) (post i) f t \<and> whole s t"
  have "?spec i f' t' \<and> (\<forall>j h. j \<noteq> i \<longrightarrow> ?spec j h t \<longrightarrow> ?spec j h t')"
    if "?spec i f t" "poll f t = (Inl f', t')" for i f t f' t'
  proof (cases f)
    case (Await g)
    with that have step: "guar i t t'" "future_spec (rely i) (guar i) (post i) f' t'"
      using reflpD [OF assms(3)] by (auto simp: poll_def elim!: future_spec_AwaitE)
    have "future_spec (rely j) (guar j) (post j) h t'"
      if "j \<noteq> i" "future_spec (rely j) (guar j) (post j) h t" for j h
      by (rule future_spec_rely [OF that(2) assms(5) [OF that(1) [symmetric] step(1)] assms(4)])
    moreover have "whole s t'" using that(1) assms(6) [OF step(1)] transpD [OF assms(8)] by blast
    ultimately show ?thesis using step(2) by simp
  qed (use that in \<open>simp add: poll_def\<close>)
  then have keep: "polls_keep ?spec" unfolding polls_keep_def by blast
  have start: "?spec i (fs ! i) s" if "i < length fs" for i using assms(2) [OF that] reflpD [OF assms(7)] by blast
  show "length answers = length fs" by (rule bounded_join_specs(1) [OF assms(1) keep start])
  have joined: "?spec i (Ready (answers ! i)) s'" if "i < length fs" for i
    by (rule bounded_join_specs(2) [OF assms(1) keep start that])
  show "post i (answers ! i) s'" if "i < length fs" for i
    by (rule future_spec_post [OF conjunct1 [OF joined [OF that]] reflpD [OF assms(3)]])
  show "whole s s'"
  proof (cases fs)
    case Nil
    then show ?thesis using assms(1) reflpD [OF assms(7)] by (simp add: bounded_join_Nil)
  qed (use joined [of 0] in simp)
qed

end
