(* ===== verification/Outbox.thy ===== *)
theory Outbox
  imports Bounded_Join Webhook Settlement_Service Settlement_Store
begin

text \<open>
  Webhook delivery: \<open>crates/gateway-application/src/outbox.rs\<close> over the queries of
  \<open>crates/gateway-storage/src/outbox.rs\<close>.

  A pass claims a bounded batch of due events, groups them by merchant and delivers the
  merchants concurrently. A delivery is a future over the world: the store, the number of
  clock readings taken and the calls sent so far. Every awaited operation is one step, after
  which the future may stay pending for \<open>dv_latency\<close> polls, so that every interleaving of the
  merchants' operations occurs for some latency.

  The HTTP client is the parameter \<open>dv_sender\<close>, which may answer every call differently;
  \<open>serde_json\<close>, HMAC and SHA-256 are parameters too. \<open>UPDATE ... RETURNING\<close> promises no order
  of its rows: \<open>dv_returning\<close> is the order they come back in. Metrics are left out.
\<close>

section \<open>Data\<close>

record outbox_event =
  oe_id :: uuid
  oe_merchant_id :: "uuid option"
  oe_event_type :: string
  oe_aggregate_type :: string
  oe_aggregate_id :: uuid
  oe_payload :: payload
  oe_attempts :: int
  oe_created_at :: instant
  oe_target_endpoint_id :: "uuid option"
  oe_attempt_floor :: int

record previous_secret =
  ps_version :: int
  ps_fingerprint :: "byte list"

record webhook_endpoint =
  ep_id :: uuid
  ep_merchant_id :: uuid
  ep_url :: string
  ep_secret_version :: int
  ep_secret_fingerprint :: "byte list"
  ep_previous_secret :: "previous_secret option"

datatype delivery_result =
    DR_Accepted nat nat
  | DR_Refused nat nat string
  | DR_Unreachable string nat

record delivery_attempt =
  da_event_id :: uuid
  da_endpoint_id :: uuid
  da_attempt :: int
  da_status :: "int option"
  da_error :: "string option"
  da_duration_ms :: nat

record outbox_report =
  or_claimed :: nat
  or_delivered :: nat
  or_rescheduled :: nat
  or_dead_lettered :: nat
  or_endpoints_missing :: nat

definition no_deliveries :: outbox_report where
  "no_deliveries = \<lparr> or_claimed = 0, or_delivered = 0, or_rescheduled = 0, or_dead_lettered = 0,
     or_endpoints_missing = 0 \<rparr>"

definition report_absorb :: "outbox_report \<Rightarrow> outbox_report \<Rightarrow> outbox_report" where
  "report_absorb r other =
     \<lparr> or_claimed = u32_sat_add (or_claimed r) (or_claimed other),
       or_delivered = u32_sat_add (or_delivered r) (or_delivered other),
       or_rescheduled = u32_sat_add (or_rescheduled r) (or_rescheduled other),
       or_dead_lettered = u32_sat_add (or_dead_lettered r) (or_dead_lettered other),
       or_endpoints_missing = u32_sat_add (or_endpoints_missing r) (or_endpoints_missing other) \<rparr>"

datatype outbox_error =
    OE_InvalidBatchLimit
  | OE_InvalidRetryCeiling
  | OE_InvalidFairness
  | OE_Serialization string
  | OE_Webhook webhook_error
  | OE_Repository repository_error

fun outbox_is_transient :: "outbox_error \<Rightarrow> bool" where
  "outbox_is_transient (OE_Repository e) = repository_is_transient e"
| "outbox_is_transient _ = False"

definition MAX_BATCH_LIMIT :: nat where
  "MAX_BATCH_LIMIT = 500"

record delivery_fairness =
  fa_max_events_per_merchant :: nat
  fa_concurrency :: nat

definition default_fairness :: delivery_fairness where
  "default_fairness = \<lparr> fa_max_events_per_merchant = 20, fa_concurrency = 8 \<rparr>"

record outbox_service =
  os_master_key :: "byte list"
  os_holder :: string
  os_max_attempts :: int
  os_fairness :: delivery_fairness

definition outbox_new :: "byte list \<Rightarrow> string \<Rightarrow> int \<Rightarrow> outbox_error + outbox_service" where
  "outbox_new master_key holder max_attempts =
     (if length master_key < 32 then Inl (OE_Webhook WeakMasterKey)
      else if max_attempts < 1 then Inl OE_InvalidRetryCeiling
      else Inr \<lparr> os_master_key = master_key, os_holder = holder, os_max_attempts = max_attempts,
                 os_fairness = default_fairness \<rparr>)"

definition with_fairness :: "outbox_service \<Rightarrow> delivery_fairness \<Rightarrow> outbox_error + outbox_service" where
  "with_fairness service fairness =
     (if fa_max_events_per_merchant fairness = 0 \<or> fa_max_events_per_merchant fairness > MAX_BATCH_LIMIT \<or>
         fa_concurrency fairness = 0 \<or> fa_concurrency fairness > 64
      then Inl OE_InvalidFairness
      else Inr (service\<lparr> os_fairness := fairness \<rparr>))"

text \<open>The values \<open>json!\<close> puts into the body of a delivery.\<close>

record event_envelope =
  en_id :: uuid
  en_type :: string
  en_created_at :: int
  en_object :: string
  en_object_id :: uuid
  en_attributes :: payload

definition envelope :: "outbox_event \<Rightarrow> event_envelope" where
  "envelope event =
     \<lparr> en_id = oe_id event, en_type = oe_event_type event,
       en_created_at = oe_created_at event div nanos_per_sec,
       en_object = oe_aggregate_type event, en_object_id = oe_aggregate_id event,
       en_attributes = oe_payload event \<rparr>"

definition i32_sat :: "int \<Rightarrow> int" where
  "i32_sat x = max (- 2147483648) (min 2147483647 x)"

text \<open>Seconds until the next attempt.\<close>

definition backoff_for :: "int \<Rightarrow> int" where
  "backoff_for attempt =
     (let doublings = max 1 (min 8 attempt) - 1;
          seconds = i64_sat (60 * 2 ^ nat doublings)
      in min seconds (6 * 60 * 60))"

section \<open>Queries\<close>

definition event_open :: "outbox_row \<Rightarrow> bool" where
  "event_open r \<longleftrightarrow> ob_delivered_at r = None \<and> ob_dead_lettered_at r = None"

definition event_due :: "instant \<Rightarrow> outbox_row \<Rightarrow> bool" where
  "event_due now r \<longleftrightarrow> ob_channel r = ''webhook'' \<and> event_open r \<and> ob_available_at r \<le> now \<and>
     (case ob_claimed_until r of None \<Rightarrow> True | Some until \<Rightarrow> until < now)"

definition older_event :: "outbox_row \<Rightarrow> outbox_row \<Rightarrow> bool" where
  "older_event a b \<longleftrightarrow> ob_available_at a < ob_available_at b \<or>
     ob_available_at a = ob_available_at b \<and> ob_id a < ob_id b"

text \<open>\<open>row_number()\<close> within the due events of the same merchant, from 1.\<close>

definition merchant_rank :: "instant \<Rightarrow> outbox_row list \<Rightarrow> outbox_row \<Rightarrow> nat" where
  "merchant_rank now rows r =
     rows_affected (\<lambda>x. event_due now x \<and> ob_merchant_id x = ob_merchant_id r \<and> older_event x r) rows + 1"

definition due_events :: "nat \<Rightarrow> nat \<Rightarrow> instant \<Rightarrow> outbox_row list \<Rightarrow> outbox_row list" where
  "due_events limit per_merchant_limit now rows =
     take limit (sort_key ob_available_at (sort_key ob_id
       (filter (\<lambda>r. event_due now r \<and> merchant_rank now rows r \<le> per_merchant_limit) rows)))"

definition event_of_row :: "outbox_row \<Rightarrow> outbox_event" where
  "event_of_row row =
     \<lparr> oe_id = ob_id row, oe_merchant_id = ob_merchant_id row, oe_event_type = ob_event_type row,
       oe_aggregate_type = ob_aggregate_type row, oe_aggregate_id = ob_aggregate_id row,
       oe_payload = ob_payload row, oe_attempts = ob_attempts row, oe_created_at = ob_created_at row,
       oe_target_endpoint_id = ob_target_endpoint_id row, oe_attempt_floor = ob_attempt_floor row \<rparr>"

definition claim_due_events ::
  "(instant \<Rightarrow> int \<Rightarrow> instant option) \<Rightarrow> (outbox_row list \<Rightarrow> outbox_row list) \<Rightarrow> string \<Rightarrow> nat \<Rightarrow> nat \<Rightarrow> int
     \<Rightarrow> instant \<Rightarrow> outbox_event list repo_tx" where
  "claim_due_events add_secs returning holder limit per_merchant_limit visibility_seconds now =
     (if visibility_seconds \<le> 0 then tx_fail (CorruptData ''a delivery claim needs a positive visibility window'')
      else tx_bind (tx_read (\<lambda>_. ok_or (CorruptData ''the delivery visibility window overflowed'')
             (add_secs now visibility_seconds))) (\<lambda>claimed_until.
        tx_bind (tx_gets (\<lambda>s. due_events limit per_merchant_limit now (st_outbox s))) (\<lambda>due.
        tx_then (tx_modify (\<lambda>s. s\<lparr> st_outbox := sql_update (\<lambda>r. ob_id r \<in> set (map ob_id due))
          (\<lambda>r. r\<lparr> ob_claimed_by := Some holder, ob_claimed_until := Some claimed_until \<rparr>) (st_outbox s) \<rparr>))
        (tx_return (map event_of_row (returning due))))))"

text \<open>An endpoint row as the query returns it: the previous secret only while it is valid.\<close>

definition valid_previous :: "instant \<Rightarrow> webhook_endpoint_row \<Rightarrow> (int \<times> byte list) option" where
  "valid_previous db_now row =
     (case (we_previous_valid_until row, we_previous_secret_version row, we_previous_secret_fingerprint row) of
        (Some until, Some version, Some fingerprint) \<Rightarrow>
          if until > db_now then Some (version, fingerprint) else None
      | _ \<Rightarrow> None)"

definition endpoint_of_row :: "instant \<Rightarrow> webhook_endpoint_row \<Rightarrow> repository_error + webhook_endpoint" where
  "endpoint_of_row db_now row =
     (if length (we_secret_fingerprint row) \<noteq> 32
      then Inl (CorruptData ''a webhook endpoint fingerprint is not 32 bytes'')
      else bind_result
        (case valid_previous db_now row of
           None \<Rightarrow> Inr None
         | Some (version, fingerprint) \<Rightarrow>
             if length fingerprint \<noteq> 32
             then Inl (CorruptData ''a previous webhook secret fingerprint is not 32 bytes'')
             else Inr (Some \<lparr> ps_version = version, ps_fingerprint = fingerprint \<rparr>)) (\<lambda>previous.
        Inr \<lparr> ep_id = we_id row, ep_merchant_id = we_merchant_id row, ep_url = we_url row,
              ep_secret_version = we_secret_version row,
              ep_secret_fingerprint = we_secret_fingerprint row, ep_previous_secret = previous \<rparr>))"

definition active_endpoints :: "uuid \<Rightarrow> webhook_endpoint list repo_tx" where
  "active_endpoints merchant_id = tx_read (\<lambda>s.
     collect_results (map (endpoint_of_row (st_db_now s))
       (sort_key we_created_at
         (filter (\<lambda>r. we_merchant_id r = merchant_id \<and> we_status r = ''active'') (st_endpoints s)))))"

definition delivery_key :: "webhook_delivery_row \<Rightarrow> uuid \<times> uuid \<times> int" where
  "delivery_key d = (wd_event_id d, wd_endpoint_id d, wd_attempt d)"

text \<open>One row per event, endpoint and attempt; a second record of the same attempt replaces it.\<close>

definition record_attempt :: "delivery_attempt \<Rightarrow> instant \<Rightarrow> unit repo_tx" where
  "record_attempt attempt now =
     (let row = \<lparr> wd_event_id = da_event_id attempt, wd_endpoint_id = da_endpoint_id attempt,
            wd_attempt = da_attempt attempt, wd_response_status = da_status attempt,
            wd_error = da_error attempt, wd_duration_ms = min (int (da_duration_ms attempt)) 2147483647,
            wd_delivered_at = now \<rparr>
      in tx_then (tx_require (\<lambda>_. 0 < da_attempt attempt) (StorageUnavailable ''webhook_deliveries_attempt_check''))
        (tx_bind (tx_gets (\<lambda>s. list_ex (\<lambda>d. delivery_key d = delivery_key row) (st_deliveries s))) (\<lambda>recorded.
         if recorded then
           tx_modify (\<lambda>s. s\<lparr> st_deliveries := sql_update (\<lambda>d. delivery_key d = delivery_key row) (\<lambda>_. row)
             (st_deliveries s) \<rparr>)
         else
           tx_then (tx_require (\<lambda>s. list_ex (\<lambda>r. ob_id r = da_event_id attempt) (st_outbox s))
             (StorageUnavailable ''webhook_deliveries_event_id_fkey''))
           (tx_then (tx_require (\<lambda>s. list_ex (\<lambda>e. we_id e = da_endpoint_id attempt) (st_endpoints s))
             (StorageUnavailable ''webhook_deliveries_endpoint_id_fkey''))
           (tx_modify (\<lambda>s. s\<lparr> st_deliveries := st_deliveries s @ [row] \<rparr>))))))"

text \<open>
  The three ways an attempt ends. Each updates the event only while it is open, counts the
  attempt and releases the claim; the counter is a 32-bit column.
\<close>

definition end_attempt :: "uuid \<Rightarrow> (outbox_row \<Rightarrow> outbox_row) \<Rightarrow> unit repo_tx" where
  "end_attempt event_id change =
     tx_then (tx_require (\<lambda>s. \<forall>r\<in>set (st_outbox s). ob_id r = event_id \<and> event_open r \<longrightarrow>
       ob_attempts r + 1 \<le> 2147483647) (StorageUnavailable ''integer out of range''))
     (tx_modify (\<lambda>s. s\<lparr> st_outbox := sql_update (\<lambda>r. ob_id r = event_id \<and> event_open r)
       (\<lambda>r. (change r)\<lparr> ob_attempts := ob_attempts r + 1, ob_claimed_by := None, ob_claimed_until := None \<rparr>)
       (st_outbox s) \<rparr>))"

definition mark_delivered :: "uuid \<Rightarrow> instant \<Rightarrow> unit repo_tx" where
  "mark_delivered event_id now =
     end_attempt event_id (\<lambda>r. r\<lparr> ob_delivered_at := Some now, ob_last_error := None \<rparr>)"

definition reschedule :: "uuid \<Rightarrow> instant \<Rightarrow> string \<Rightarrow> unit repo_tx" where
  "reschedule event_id available_at error =
     end_attempt event_id (\<lambda>r. r\<lparr> ob_available_at := available_at, ob_last_error := Some error \<rparr>)"

definition dead_letter :: "uuid \<Rightarrow> string \<Rightarrow> instant \<Rightarrow> unit repo_tx" where
  "dead_letter event_id error now =
     end_attempt event_id (\<lambda>r. r\<lparr> ob_dead_lettered_at := Some now, ob_last_error := Some error \<rparr>)"

section \<open>The world\<close>

record sent_call =
  sn_endpoint :: webhook_endpoint
  sn_event_id :: uuid
  sn_body :: "byte list"
  sn_signature :: string

record world =
  wo_store :: store
  wo_reads :: nat
  wo_sent :: "sent_call list"

record delivery_env =
  dv_clock :: "nat \<Rightarrow> instant"
  dv_sender :: "sent_call list \<Rightarrow> sent_call \<Rightarrow> delivery_result"
  dv_to_vec :: "event_envelope \<Rightarrow> string + byte list"
  dv_hmac :: "byte list \<Rightarrow> byte list \<Rightarrow> byte list option"
  dv_sha256 :: "byte list \<Rightarrow> byte list"
  dv_add_secs :: "instant \<Rightarrow> int \<Rightarrow> instant option"
  dv_returning :: "outbox_row list \<Rightarrow> outbox_row list"
  dv_latency :: "world \<Rightarrow> nat"

type_synonym 'a delivery = "(world, outbox_error + 'a) future"

definition run_repo :: "'a repo_tx \<Rightarrow> world \<Rightarrow> (outbox_error + 'a) \<times> world" where
  "run_repo m w = (case tx_run m (wo_store w) of (r, s) \<Rightarrow> (map_err OE_Repository r, w\<lparr> wo_store := s \<rparr>))"

definition clocked :: "delivery_env \<Rightarrow> (instant \<Rightarrow> world \<Rightarrow> 'b \<times> world) \<Rightarrow> world \<Rightarrow> 'b \<times> world" where
  "clocked env f w = f (dv_clock env (wo_reads w)) (w\<lparr> wo_reads := wo_reads w + 1 \<rparr>)"

text \<open>An awaited operation followed by \<open>?\<close>.\<close>

definition await_op ::
  "delivery_env \<Rightarrow> (world \<Rightarrow> (outbox_error + 'x) \<times> world) \<Rightarrow> ('x \<Rightarrow> 'a delivery) \<Rightarrow> 'a delivery" where
  "await_op env operation k = Await (\<lambda>w.
     case operation w of (r, w') \<Rightarrow>
       (w', idle (dv_latency env w') (case r of Inl e \<Rightarrow> Ready (Inl e) | Inr x \<Rightarrow> k x)))"

definition send_call :: "delivery_env \<Rightarrow> sent_call \<Rightarrow> world \<Rightarrow> (outbox_error + delivery_result) \<times> world" where
  "send_call env call w = (Inr (dv_sender env (wo_sent w) call), w\<lparr> wo_sent := wo_sent w @ [call] \<rparr>)"

section \<open>Delivering one event\<close>

definition attempt_number :: "outbox_event \<Rightarrow> int" where
  "attempt_number event = i32_sat (oe_attempts event + 1)"

definition result_accepted :: "delivery_result \<Rightarrow> bool" where
  "result_accepted result = (case result of DR_Accepted _ _ \<Rightarrow> True | _ \<Rightarrow> False)"

definition attempt_of :: "outbox_event \<Rightarrow> webhook_endpoint \<Rightarrow> delivery_result \<Rightarrow> delivery_attempt" where
  "attempt_of event endpoint result =
     (let base = \<lparr> da_event_id = oe_id event, da_endpoint_id = ep_id endpoint, da_attempt = attempt_number event,
            da_status = None, da_error = None, da_duration_ms = 0 \<rparr>
      in case result of
           DR_Accepted status duration \<Rightarrow> base\<lparr> da_status := Some (int status), da_duration_ms := duration \<rparr>
         | DR_Refused status duration detail \<Rightarrow>
             base\<lparr> da_status := Some (int status), da_error := Some detail, da_duration_ms := duration \<rparr>
         | DR_Unreachable detail duration \<Rightarrow> base\<lparr> da_error := Some detail, da_duration_ms := duration \<rparr>)"

definition key_mismatch :: "outbox_event \<Rightarrow> webhook_endpoint \<Rightarrow> delivery_attempt" where
  "key_mismatch event endpoint =
     \<lparr> da_event_id = oe_id event, da_endpoint_id = ep_id endpoint, da_attempt = attempt_number event,
       da_status = None, da_error = Some ''signing_key_mismatch'', da_duration_ms = 0 \<rparr>"

definition endpoint_secret ::
  "delivery_env \<Rightarrow> outbox_service \<Rightarrow> webhook_endpoint \<Rightarrow> int \<Rightarrow> webhook_error + signing_secret" where
  "endpoint_secret env service endpoint version =
     secret_derive (dv_hmac env) (os_master_key service) (word_of_int version)
       (ep_merchant_id endpoint) (ep_id endpoint)"

text \<open>The secrets a delivery is signed with: the current one, and the previous one while it matches.\<close>

definition signing_secrets ::
  "delivery_env \<Rightarrow> outbox_service \<Rightarrow> webhook_endpoint \<Rightarrow> signing_secret \<Rightarrow> webhook_error + signing_secret list" where
  "signing_secrets env service endpoint secret =
     (case ep_previous_secret endpoint of
        None \<Rightarrow> Inr [secret]
      | Some previous \<Rightarrow> bind_result (endpoint_secret env service endpoint (ps_version previous)) (\<lambda>old.
          Inr (if secret_fingerprint (dv_sha256 env) old = ps_fingerprint previous then [secret, old] else [secret])))"

definition send_signed ::
  "delivery_env \<Rightarrow> outbox_event \<Rightarrow> byte list \<Rightarrow> webhook_endpoint \<Rightarrow> signing_secret list
     \<Rightarrow> world \<Rightarrow> (outbox_error + delivery_result) \<times> world" where
  "send_signed env event body endpoint secrets = clocked env (\<lambda>now. send_call env
     \<lparr> sn_endpoint = endpoint, sn_event_id = oe_id event, sn_body = body,
       sn_signature = sign_event_with_all (dv_hmac env) secrets (now div nanos_per_sec) body \<rparr>)"

fun deliver_to_endpoints ::
  "delivery_env \<Rightarrow> outbox_service \<Rightarrow> outbox_event \<Rightarrow> byte list \<Rightarrow> webhook_endpoint list \<Rightarrow> bool
     \<Rightarrow> (bool \<Rightarrow> 'a delivery) \<Rightarrow> 'a delivery" where
  "deliver_to_endpoints env service event body [] all_accepted k = k all_accepted"
| "deliver_to_endpoints env service event body (endpoint # endpoints) all_accepted k =
     (case endpoint_secret env service endpoint (ep_secret_version endpoint) of
        Inl e \<Rightarrow> Ready (Inl (OE_Webhook e))
      | Inr secret \<Rightarrow>
          if secret_fingerprint (dv_sha256 env) secret \<noteq> ep_secret_fingerprint endpoint then
            await_op env (clocked env (\<lambda>now. run_repo (record_attempt (key_mismatch event endpoint) now)))
              (\<lambda>_. deliver_to_endpoints env service event body endpoints False k)
          else
            (case signing_secrets env service endpoint secret of
               Inl e \<Rightarrow> Ready (Inl (OE_Webhook e))
             | Inr secrets \<Rightarrow>
                 await_op env (send_signed env event body endpoint secrets) (\<lambda>result.
                 await_op env (clocked env (\<lambda>now. run_repo (record_attempt (attempt_of event endpoint result) now)))
                   (\<lambda>_. deliver_to_endpoints env service event body endpoints
                          (all_accepted \<and> result_accepted result) k))))"

definition deliver_to_all ::
  "delivery_env \<Rightarrow> outbox_service \<Rightarrow> outbox_event \<Rightarrow> webhook_endpoint list \<Rightarrow> (bool \<Rightarrow> 'a delivery) \<Rightarrow> 'a delivery" where
  "deliver_to_all env service event endpoints k =
     (case dv_to_vec env (envelope event) of
        Inl e \<Rightarrow> Ready (Inl (OE_Serialization e))
      | Inr body \<Rightarrow> deliver_to_endpoints env service event body endpoints True k)"

section \<open>Delivering a merchant's share\<close>

definition event_targets :: "outbox_event \<Rightarrow> webhook_endpoint list \<Rightarrow> webhook_endpoint list" where
  "event_targets event endpoints =
     (case oe_target_endpoint_id event of
        Some target \<Rightarrow> filter (\<lambda>endpoint. ep_id endpoint = target) endpoints
      | None \<Rightarrow> endpoints)"

definition missing_reason :: "outbox_event \<Rightarrow> string" where
  "missing_reason event =
     (if oe_target_endpoint_id event \<noteq> None then ''redelivery_target_inactive'' else ''no_active_endpoint'')"

text \<open>The attempts of the current budget, with this one.\<close>

definition used_attempts :: "outbox_event \<Rightarrow> int" where
  "used_attempts event = i32_sat (i32_sat (oe_attempts event - oe_attempt_floor event) + 1)"

abbreviation dead_letter_op :: "delivery_env \<Rightarrow> uuid \<Rightarrow> string \<Rightarrow> world \<Rightarrow> (outbox_error + unit) \<times> world" where
  "dead_letter_op env event_id reason \<equiv> clocked env (\<lambda>now. run_repo (dead_letter event_id reason now))"

definition reschedule_op :: "delivery_env \<Rightarrow> uuid \<Rightarrow> int \<Rightarrow> world \<Rightarrow> (outbox_error + unit) \<times> world" where
  "reschedule_op env event_id used = clocked env (\<lambda>now w.
     case dv_add_secs env now (backoff_for used) of
       None \<Rightarrow> (Inl OE_InvalidRetryCeiling, w)
     | Some available_at \<Rightarrow>
         clocked env (\<lambda>_. run_repo (reschedule event_id available_at ''delivery_failed'')) w)"

abbreviation count_claimed :: "outbox_report \<Rightarrow> outbox_report" where
  "count_claimed r \<equiv> r\<lparr> or_claimed := count_up (or_claimed r) \<rparr>"

abbreviation count_delivered :: "outbox_report \<Rightarrow> outbox_report" where
  "count_delivered r \<equiv> r\<lparr> or_delivered := count_up (or_delivered r) \<rparr>"

abbreviation count_rescheduled :: "outbox_report \<Rightarrow> outbox_report" where
  "count_rescheduled r \<equiv> r\<lparr> or_rescheduled := count_up (or_rescheduled r) \<rparr>"

abbreviation count_dead :: "outbox_report \<Rightarrow> outbox_report" where
  "count_dead r \<equiv> r\<lparr> or_dead_lettered := count_up (or_dead_lettered r) \<rparr>"

abbreviation count_missing :: "outbox_report \<Rightarrow> outbox_report" where
  "count_missing r \<equiv> r\<lparr> or_endpoints_missing := count_up (or_endpoints_missing r) \<rparr>"

fun dead_letter_all :: "delivery_env \<Rightarrow> outbox_event list \<Rightarrow> outbox_report \<Rightarrow> outbox_report delivery" where
  "dead_letter_all env [] report = Ready (Inr report)"
| "dead_letter_all env (event # events) report =
     await_op env (dead_letter_op env (oe_id event) ''webhook_event_without_merchant'')
       (\<lambda>_. dead_letter_all env events (count_dead (count_claimed report)))"

fun deliver_events ::
  "delivery_env \<Rightarrow> outbox_service \<Rightarrow> webhook_endpoint list \<Rightarrow> outbox_event list \<Rightarrow> outbox_report
     \<Rightarrow> outbox_report delivery" where
  "deliver_events env service endpoints [] report = Ready (Inr report)"
| "deliver_events env service endpoints (event # events) report =
     (let report = count_claimed report;
          targets = event_targets event endpoints;
          used = used_attempts event
      in if targets = [] then
           await_op env (dead_letter_op env (oe_id event) (missing_reason event))
             (\<lambda>_. deliver_events env service endpoints events (count_dead (count_missing report)))
         else deliver_to_all env service event targets (\<lambda>all_accepted.
           if all_accepted then
             await_op env (clocked env (\<lambda>now. run_repo (mark_delivered (oe_id event) now)))
               (\<lambda>_. deliver_events env service endpoints events (count_delivered report))
           else if used \<ge> os_max_attempts service then
             await_op env (dead_letter_op env (oe_id event) ''delivery_attempts_exhausted'')
               (\<lambda>_. deliver_events env service endpoints events (count_dead report))
           else
             await_op env (reschedule_op env (oe_id event) used)
               (\<lambda>_. deliver_events env service endpoints events (count_rescheduled report))))"

definition deliver_merchant ::
  "delivery_env \<Rightarrow> outbox_service \<Rightarrow> uuid option \<Rightarrow> outbox_event list \<Rightarrow> outbox_report delivery" where
  "deliver_merchant env service merchant events =
     (case merchant of
        None \<Rightarrow> dead_letter_all env events no_deliveries
      | Some merchant_id \<Rightarrow>
          await_op env (run_repo (active_endpoints merchant_id))
            (\<lambda>endpoints. deliver_events env service endpoints events no_deliveries))"

section \<open>A delivery pass\<close>

text \<open>The queue of the event's merchant, or a new queue at the end.\<close>

fun push_event :: "outbox_event \<Rightarrow> (uuid option \<times> outbox_event list) list \<Rightarrow> (uuid option \<times> outbox_event list) list" where
  "push_event event [] = [(oe_merchant_id event, [event])]"
| "push_event event ((merchant, queue) # groups) =
     (if merchant = oe_merchant_id event then (merchant, queue @ [event]) # groups
      else (merchant, queue) # push_event event groups)"

definition group_by_merchant :: "outbox_event list \<Rightarrow> (uuid option \<times> outbox_event list) list" where
  "group_by_merchant events = foldl (\<lambda>groups event. push_event event groups) [] events"

fun absorb_outcomes ::
  "(outbox_error + outbox_report) list \<Rightarrow> outbox_report \<Rightarrow> outbox_error option \<Rightarrow> outbox_error + outbox_report" where
  "absorb_outcomes [] report None = Inr report"
| "absorb_outcomes [] report (Some error) = Inl error"
| "absorb_outcomes (Inr part # outcomes) report first_error =
     absorb_outcomes outcomes (report_absorb report part) first_error"
| "absorb_outcomes (Inl error # outcomes) report first_error =
     absorb_outcomes outcomes report (case first_error of None \<Rightarrow> Some error | Some e \<Rightarrow> Some e)"

definition deliver_due ::
  "delivery_env \<Rightarrow> outbox_service \<Rightarrow> nat \<Rightarrow> world \<Rightarrow> (outbox_error + outbox_report) \<times> world" where
  "deliver_due env service limit w =
     (if limit = 0 \<or> limit > MAX_BATCH_LIMIT then (Inl OE_InvalidBatchLimit, w)
      else case clocked env (\<lambda>now. run_repo (claim_due_events (dv_add_secs env) (dv_returning env) (os_holder service)
                  limit (fa_max_events_per_merchant (os_fairness service)) 300 now)) w of
        (Inl e, w1) \<Rightarrow> (Inl e, w1)
      | (Inr events, w1) \<Rightarrow>
          (case bounded_join (map (\<lambda>(merchant, queue). deliver_merchant env service merchant queue)
                    (group_by_merchant events)) (fa_concurrency (os_fairness service)) w1 of
             (outcomes, w2) \<Rightarrow> (absorb_outcomes outcomes no_deliveries None, w2)))"

end
