(* ===== verification/Outbox_Delivery.thy ===== *)
theory Outbox_Delivery
  imports Outbox
begin

text \<open>
  What a delivery pass does. \<open>changes A\<close> is the only effect any operation of it has: the
  delivery columns of the events \<open>A\<close> and the delivery records of those events. The
  futures of two merchants work on different events, so each relies on \<open>changes (- A)\<close> and
  guarantees \<open>changes A\<close> for its own events \<open>A\<close>, and the rule \<open>join_specs\<close> gives the outcome of
  the concurrent pass: every claimed event got exactly one attempt, which ended it or left
  it within its budget.
\<close>

section \<open>What a pass may change\<close>

text \<open>Everything of an event but its delivery columns.\<close>

definition event_core :: "outbox_row \<Rightarrow> outbox_row" where
  "event_core r = r\<lparr> ob_available_at := 0, ob_attempts := 0, ob_last_error := None, ob_claimed_by := None,
     ob_claimed_until := None, ob_delivered_at := None, ob_dead_lettered_at := None \<rparr>"

definition same_event :: "outbox_row \<Rightarrow> outbox_row \<Rightarrow> bool" where
  "same_event r r' \<longleftrightarrow> event_core r' = event_core r"

lemma same_event_refl: "same_event r r"
  by (simp add: same_event_def)

lemma same_event_trans: "same_event r r' \<Longrightarrow> same_event r' r'' \<Longrightarrow> same_event r r''"
  by (simp add: same_event_def)

lemma same_event_simps:
  assumes "same_event r r'"
  shows "ob_id r' = ob_id r" "ob_merchant_id r' = ob_merchant_id r" "ob_channel r' = ob_channel r"
    "ob_event_type r' = ob_event_type r" "ob_aggregate_id r' = ob_aggregate_id r" "ob_payload r' = ob_payload r"
    "ob_attempt_floor r' = ob_attempt_floor r" "ob_target_endpoint_id r' = ob_target_endpoint_id r"
  using assms by (cases r; cases r'; simp add: same_event_def event_core_def)+

definition store_changes :: "uuid set \<Rightarrow> store \<Rightarrow> store \<Rightarrow> bool" where
  "store_changes A s s' \<longleftrightarrow> (\<exists>rows records. s' = s\<lparr> st_outbox := rows, st_deliveries := records \<rparr> \<and>
     list_all2 (\<lambda>r r'. same_event r r' \<and> (ob_id r \<notin> A \<longrightarrow> r' = r)) (st_outbox s) rows \<and>
     filter (\<lambda>d. wd_event_id d \<notin> A) records = filter (\<lambda>d. wd_event_id d \<notin> A) (st_deliveries s))"

abbreviation changes :: "uuid set \<Rightarrow> world \<Rightarrow> world \<Rightarrow> bool" where
  "changes A w w' \<equiv> store_changes A (wo_store w) (wo_store w')"

lemma store_changes_refl: "store_changes A s s"
  unfolding store_changes_def
  by (intro exI [where x = "st_outbox s"] exI [where x = "st_deliveries s"]) (simp add: list_all2_same same_event_refl)

lemma store_changes_trans:
  assumes "store_changes A s s'" "store_changes A s' s''"
  shows "store_changes A s s''"
proof -
  from assms obtain rows records rows' records' where
    s: "s' = s\<lparr> st_outbox := rows, st_deliveries := records \<rparr>" "s'' = s'\<lparr> st_outbox := rows', st_deliveries := records' \<rparr>"
    and l: "list_all2 (\<lambda>r r'. same_event r r' \<and> (ob_id r \<notin> A \<longrightarrow> r' = r)) (st_outbox s) rows"
      "list_all2 (\<lambda>r r'. same_event r r' \<and> (ob_id r \<notin> A \<longrightarrow> r' = r)) rows rows'"
    and f: "filter (\<lambda>d. wd_event_id d \<notin> A) records = filter (\<lambda>d. wd_event_id d \<notin> A) (st_deliveries s)"
      "filter (\<lambda>d. wd_event_id d \<notin> A) records' = filter (\<lambda>d. wd_event_id d \<notin> A) records"
    by (auto simp: store_changes_def)
  have "list_all2 (\<lambda>r r'. same_event r r' \<and> (ob_id r \<notin> A \<longrightarrow> r' = r)) (st_outbox s) rows'"
    by (rule list_all2_trans [OF _ l]) (auto intro: same_event_trans simp: same_event_simps)
  then show ?thesis unfolding store_changes_def using s f by (intro exI [where x = rows'] exI [where x = records']) simp
qed

lemma store_changes_mono:
  assumes "A \<subseteq> B" "store_changes A s s'"
  shows "store_changes B s s'"
proof -
  from assms(2) obtain rows records where s: "s' = s\<lparr> st_outbox := rows, st_deliveries := records \<rparr>"
    and l: "list_all2 (\<lambda>r r'. same_event r r' \<and> (ob_id r \<notin> A \<longrightarrow> r' = r)) (st_outbox s) rows"
    and f: "filter (\<lambda>d. wd_event_id d \<notin> A) records = filter (\<lambda>d. wd_event_id d \<notin> A) (st_deliveries s)"
    by (auto simp: store_changes_def)
  have "filter (\<lambda>d. wd_event_id d \<notin> B) ds = filter (\<lambda>d. wd_event_id d \<notin> B) (filter (\<lambda>d. wd_event_id d \<notin> A) ds)" for ds
    using assms(1) by (auto intro!: filter_cong)
  then have "filter (\<lambda>d. wd_event_id d \<notin> B) records = filter (\<lambda>d. wd_event_id d \<notin> B) (st_deliveries s)" using f by metis
  moreover have "list_all2 (\<lambda>r r'. same_event r r' \<and> (ob_id r \<notin> B \<longrightarrow> r' = r)) (st_outbox s) rows"
    by (rule list_all2_mono [OF l]) (use assms(1) in auto)
  ultimately show ?thesis unfolding store_changes_def using s by blast
qed

lemma changes_rely: "reflp (changes A)" "transp (changes A)"
  by (auto intro!: reflpI transpI store_changes_refl intro: store_changes_trans)

lemma store_changes_tables:
  assumes "store_changes A s s'"
  shows "st_endpoints s' = st_endpoints s" "st_db_now s' = st_db_now s" "map ob_id (st_outbox s') = map ob_id (st_outbox s)"
    and "active_endpoints m s' = (case active_endpoints m s of Inl e \<Rightarrow> Inl e | Inr (x, _) \<Rightarrow> Inr (x, s'))"
proof -
  from assms obtain rows records where s: "s' = s\<lparr> st_outbox := rows, st_deliveries := records \<rparr>"
    and l: "list_all2 (\<lambda>r r'. same_event r r' \<and> (ob_id r \<notin> A \<longrightarrow> r' = r)) (st_outbox s) rows"
    by (auto simp: store_changes_def)
  show "st_endpoints s' = st_endpoints s" "st_db_now s' = st_db_now s" using s by simp_all
  then show "active_endpoints m s' = (case active_endpoints m s of Inl e \<Rightarrow> Inl e | Inr (x, _) \<Rightarrow> Inr (x, s'))"
    by (simp add: active_endpoints_def tx_read_def split: sum.split)
  have "map ob_id rows = map ob_id (st_outbox s)"
    using l by (induction rule: list_all2_induct) (auto simp: same_event_simps)
  then show "map ob_id (st_outbox s') = map ob_id (st_outbox s)" using s by simp
qed

lemma store_changes_kept:
  assumes "store_changes A s s'"
  shows "r \<in> set (st_outbox s) \<Longrightarrow> ob_id r \<notin> A \<Longrightarrow> r \<in> set (st_outbox s')"
    and "d \<in> set (st_deliveries s) \<Longrightarrow> wd_event_id d \<notin> A \<Longrightarrow> d \<in> set (st_deliveries s')"
proof -
  from assms obtain rows records where s: "s' = s\<lparr> st_outbox := rows, st_deliveries := records \<rparr>"
    and l: "list_all2 (\<lambda>r r'. same_event r r' \<and> (ob_id r \<notin> A \<longrightarrow> r' = r)) (st_outbox s) rows"
    and f: "filter (\<lambda>d. wd_event_id d \<notin> A) records = filter (\<lambda>d. wd_event_id d \<notin> A) (st_deliveries s)"
    by (auto simp: store_changes_def)
  show "r \<in> set (st_outbox s')" if "r \<in> set (st_outbox s)" "ob_id r \<notin> A"
    using l that s by (auto simp: list_all2_conv_all_nth in_set_conv_nth)
  show "d \<in> set (st_deliveries s')" if "d \<in> set (st_deliveries s)" "wd_event_id d \<notin> A"
  proof -
    have "d \<in> set (filter (\<lambda>d. wd_event_id d \<notin> A) records)" unfolding f using that by simp
    then show ?thesis using s by simp
  qed
qed

lemma store_changes_update:
  assumes "\<And>r. same_event r (f r)" "\<And>r. P r \<Longrightarrow> ob_id r \<in> A"
  shows "store_changes A s (s\<lparr> st_outbox := sql_update P f (st_outbox s) \<rparr>)"
proof -
  have "list_all2 (\<lambda>r r'. same_event r r' \<and> (ob_id r \<notin> A \<longrightarrow> r' = r)) (st_outbox s) (sql_update P f (st_outbox s))"
    using assms by (auto simp: sql_update_def list_all2_map2 list_all2_same same_event_refl)
  then show ?thesis unfolding store_changes_def
    by (intro exI [where x = "sql_update P f (st_outbox s)"] exI [where x = "st_deliveries s"]) simp
qed

lemma store_changes_records:
  assumes "filter (\<lambda>d. wd_event_id d \<notin> A) records = filter (\<lambda>d. wd_event_id d \<notin> A) (st_deliveries s)"
  shows "store_changes A s (s\<lparr> st_deliveries := records \<rparr>)"
  unfolding store_changes_def
  by (intro exI [where x = "st_outbox s"] exI [where x = records]) (simp add: assms list_all2_same same_event_refl)

section \<open>One attempt\<close>

text \<open>The event is still as it was claimed; the endpoint accepted this attempt.\<close>

definition event_waits :: "outbox_event \<Rightarrow> store \<Rightarrow> bool" where
  "event_waits e s \<longleftrightarrow> (\<exists>r\<in>set (st_outbox s). event_of_row r = e \<and> event_open r)"

definition heard :: "outbox_event \<Rightarrow> store \<Rightarrow> webhook_endpoint \<Rightarrow> bool" where
  "heard e s endpoint \<longleftrightarrow> (\<exists>d\<in>set (st_deliveries s). delivery_key d = (oe_id e, ep_id endpoint, attempt_number e) \<and>
     wd_error d = None \<and> wd_response_status d \<noteq> None)"

text \<open>
  The attempt is over: it is counted, the claim is released, an event that stays open has
  attempts left, and a delivered one was accepted by every endpoint it was owed to.
\<close>

definition attempt_ended :: "int \<Rightarrow> webhook_endpoint list \<Rightarrow> outbox_event \<Rightarrow> store \<Rightarrow> bool" where
  "attempt_ended max_attempts endpoints e s \<longleftrightarrow> (\<exists>r\<in>set (st_outbox s). ob_id r = oe_id e \<and>
     ob_attempts r = oe_attempts e + 1 \<and> ob_attempt_floor r = oe_attempt_floor e \<and> ob_claimed_until r = None \<and>
     ob_attempts r \<le> 2147483647 \<and> (ob_delivered_at r = None \<or> ob_dead_lettered_at r = None) \<and>
     (event_open r \<longrightarrow> oe_attempts e + 1 - oe_attempt_floor e < max_attempts) \<and>
     (ob_delivered_at r \<noteq> None \<longrightarrow> event_targets e endpoints \<noteq> [] \<and>
        list_all (heard e s) (event_targets e endpoints)))"

definition delivering ::
  "int \<Rightarrow> webhook_endpoint list \<Rightarrow> uuid set \<Rightarrow> outbox_event list \<Rightarrow> outbox_event list \<Rightarrow> store \<Rightarrow> bool" where
  "delivering max_attempts endpoints A over events s \<longleftrightarrow>
     distinct (map ob_id (st_outbox s)) \<and> distinct (map oe_id (over @ events)) \<and> oe_id ` set (over @ events) \<subseteq> A \<and>
     (\<forall>e\<in>set events. event_waits e s) \<and> (\<forall>e\<in>set over. attempt_ended max_attempts endpoints e s) \<and>
     (\<forall>endpoint\<in>set endpoints. list_ex (\<lambda>r. we_id r = ep_id endpoint) (st_endpoints s))"

lemma heard_stable: "heard e s endpoint \<Longrightarrow> store_changes A s s' \<Longrightarrow> oe_id e \<notin> A \<Longrightarrow> heard e s' endpoint"
  unfolding heard_def by (elim bexE, rule bexI, assumption) (auto simp: delivery_key_def intro: store_changes_kept(2))

lemma event_waits_stable: "event_waits e s \<Longrightarrow> store_changes A s s' \<Longrightarrow> oe_id e \<notin> A \<Longrightarrow> event_waits e s'"
  unfolding event_waits_def by (elim bexE, rule bexI, assumption) (auto simp: event_of_row_def intro: store_changes_kept(1))

lemma attempt_ended_stable:
  assumes "attempt_ended m endpoints e s" "store_changes A s s'" "oe_id e \<notin> A"
  shows "attempt_ended m endpoints e s'"
proof -
  from assms(1) obtain r where r: "r \<in> set (st_outbox s)" "ob_id r = oe_id e" "ob_attempts r = oe_attempts e + 1"
    "ob_attempt_floor r = oe_attempt_floor e" "ob_claimed_until r = None"
    "ob_attempts r \<le> 2147483647" "ob_delivered_at r = None \<or> ob_dead_lettered_at r = None"
    "event_open r \<longrightarrow> oe_attempts e + 1 - oe_attempt_floor e < m"
    "ob_delivered_at r \<noteq> None \<longrightarrow> event_targets e endpoints \<noteq> [] \<and> list_all (heard e s) (event_targets e endpoints)"
    by (auto simp: attempt_ended_def)
  have "r \<in> set (st_outbox s')" using store_changes_kept(1) [OF assms(2) r(1)] r(2) assms(3) by simp
  moreover have "list_all (heard e s) es \<Longrightarrow> list_all (heard e s') es" for es
    by (erule list.pred_mono_strong) (rule heard_stable [OF _ assms(2,3)])
  ultimately show ?thesis unfolding attempt_ended_def using r(2-) by blast
qed

lemma delivering_rely:
  assumes "delivering m endpoints A over events s" "store_changes (- A) s s'"
  shows "delivering m endpoints A over events s'"
proof -
  have "oe_id e \<notin> - A" if "e \<in> set (over @ events)" for e using assms(1) that by (auto simp: delivering_def)
  then show ?thesis
    using assms unfolding delivering_def store_changes_tables(1,3) [OF assms(2)]
    by (auto intro: event_waits_stable attempt_ended_stable)
qed

text \<open>Recording an attempt of the event at hand keeps the situation.\<close>

lemma record_attempt_effect:
  assumes "record_attempt a now s = Inr (u, s')"
  shows "store_changes {da_event_id a} s s'" "st_outbox s' = st_outbox s"
    and "\<exists>d\<in>set (st_deliveries s'). delivery_key d = (da_event_id a, da_endpoint_id a, da_attempt a) \<and>
      wd_error d = da_error a \<and> wd_response_status d = da_status a"
    and "\<And>d. d \<in> set (st_deliveries s) \<Longrightarrow> delivery_key d \<noteq> (da_event_id a, da_endpoint_id a, da_attempt a) \<Longrightarrow>
      d \<in> set (st_deliveries s')"
proof -
  define row where "row = \<lparr> wd_event_id = da_event_id a, wd_endpoint_id = da_endpoint_id a,
    wd_attempt = da_attempt a, wd_response_status = da_status a, wd_error = da_error a,
    wd_duration_ms = min (int (da_duration_ms a)) 2147483647, wd_delivered_at = now \<rparr>"
  have key: "delivery_key row = (da_event_id a, da_endpoint_id a, da_attempt a)" "wd_event_id row = da_event_id a"
    "wd_error row = da_error a" "wd_response_status row = da_status a"
    by (simp_all add: row_def delivery_key_def)
  let ?upd = "sql_update (\<lambda>d. delivery_key d = delivery_key row) (\<lambda>_. row) (st_deliveries s)"
  let ?again = "list_ex (\<lambda>d. delivery_key d = delivery_key row) (st_deliveries s)"
  have run: "record_attempt a now s = Inr (u, s') \<Longrightarrow>
      s' = (if ?again then s\<lparr> st_deliveries := ?upd \<rparr> else s\<lparr> st_deliveries := st_deliveries s @ [row] \<rparr>)"
    unfolding record_attempt_def Let_def row_def [symmetric]
    by (cases ?again) (simp_all add: tx_steps tx_modify_iff split: if_splits)
  consider (again) ?again "s' = s\<lparr> st_deliveries := ?upd \<rparr>"
    | (new) "s' = s\<lparr> st_deliveries := st_deliveries s @ [row] \<rparr>"
    using run [OF assms] by argo
  then have "store_changes {da_event_id a} s s' \<and> st_outbox s' = st_outbox s \<and> row \<in> set (st_deliveries s') \<and>
      (\<forall>d\<in>set (st_deliveries s). delivery_key d \<noteq> delivery_key row \<longrightarrow> d \<in> set (st_deliveries s'))"
  proof cases
    case again
    have "filter (\<lambda>d. wd_event_id d \<notin> {da_event_id a}) (sql_update (\<lambda>d. delivery_key d = delivery_key row) (\<lambda>_. row) ds) =
        filter (\<lambda>d. wd_event_id d \<notin> {da_event_id a}) ds" for ds
      by (induction ds) (auto simp: key delivery_key_def)
    then have "store_changes {da_event_id a} s s'" unfolding again(2) by (rule store_changes_records)
    moreover have "row \<in> set ?upd" using again(1) by (auto simp: in_sql_update list_ex_iff)
    ultimately show ?thesis by (auto simp: again(2) in_sql_update)
  next
    case new
    then have "store_changes {da_event_id a} s s'" by (simp add: store_changes_records key)
    then show ?thesis by (simp add: new)
  qed
  then show "store_changes {da_event_id a} s s'" "st_outbox s' = st_outbox s"
    "\<exists>d\<in>set (st_deliveries s'). delivery_key d = (da_event_id a, da_endpoint_id a, da_attempt a) \<and>
      wd_error d = da_error a \<and> wd_response_status d = da_status a"
    "\<And>d. d \<in> set (st_deliveries s) \<Longrightarrow> delivery_key d \<noteq> (da_event_id a, da_endpoint_id a, da_attempt a) \<Longrightarrow>
      d \<in> set (st_deliveries s')"
    using key by auto
qed

lemma record_attempt_delivering:
  assumes "delivering m endpoints A over (e # events) s" "record_attempt a now s = Inr (u, s')"
    "da_event_id a = oe_id e" "da_attempt a = attempt_number e"
  shows "delivering m endpoints A over (e # events) s'" "store_changes A s s'"
    and "heard e s endpoint \<Longrightarrow> ep_id endpoint \<noteq> da_endpoint_id a \<Longrightarrow> heard e s' endpoint"
    and "da_error a = None \<Longrightarrow> da_status a \<noteq> None \<Longrightarrow> ep_id endpoint = da_endpoint_id a \<Longrightarrow> heard e s' endpoint"
proof -
  note effect = record_attempt_effect [OF assms(2)]
  have "oe_id e \<in> A" using assms(1) by (simp add: delivering_def)
  then show "store_changes A s s'" using store_changes_mono [OF _ effect(1), of A] assms(3) by simp
  have "oe_id x \<notin> {da_event_id a}" if "x \<in> set over" for x
    using assms(1,3) imageI [OF that, of oe_id] by (auto simp: delivering_def)
  then show "delivering m endpoints A over (e # events) s'"
    using assms(1) effect(2) store_changes_tables(1) [OF effect(1)]
    by (auto simp: delivering_def event_waits_def intro: attempt_ended_stable [OF _ effect(1)])
  show "heard e s' endpoint" if "heard e s endpoint" "ep_id endpoint \<noteq> da_endpoint_id a"
    using that effect(4) unfolding heard_def by (metis prod.inject)
  show "heard e s' endpoint" if "da_error a = None" "da_status a \<noteq> None" "ep_id endpoint = da_endpoint_id a"
    using effect(3) that assms(3,4) by (auto simp: heard_def)
qed

lemma record_attempt_succeeds:
  assumes "delivering m endpoints A over (e # events) s" "endpoint \<in> set endpoints"
    "da_event_id a = oe_id e" "da_endpoint_id a = ep_id endpoint" "0 < da_attempt a"
  shows "\<exists>s'. record_attempt a now s = Inr ((), s')"
proof -
  have "list_ex (\<lambda>r. ob_id r = da_event_id a) (st_outbox s)"
    using assms(1,3) by (auto simp: delivering_def event_waits_def list_ex_iff event_of_row_def)
  moreover have "list_ex (\<lambda>r. we_id r = da_endpoint_id a) (st_endpoints s)"
    using assms(1,2,4) by (auto simp: delivering_def)
  ultimately show ?thesis
    using assms(5) unfolding record_attempt_def Let_def by (simp add: tx_steps) (simp add: tx_modify_def)
qed

text \<open>Ending the attempt of the event at hand.\<close>

lemma waiting_row:
  assumes "delivering m endpoints A over (e # events) s" "r \<in> set (st_outbox s)" "ob_id r = oe_id e"
  shows "event_of_row r = e" "event_open r"
proof -
  from assms(1) obtain r' where r': "r' \<in> set (st_outbox s)" "event_of_row r' = e" "event_open r'"
    by (auto simp: delivering_def event_waits_def)
  have "r = r'"
    by (rule distinct_key_eq [of ob_id]) (use assms r' in \<open>auto simp: delivering_def event_of_row_def\<close>)
  with r' show "event_of_row r = e" "event_open r" by simp_all
qed

lemma end_attempt_succeeds:
  assumes "delivering m endpoints A over (e # events) s" "oe_attempts e < 2147483647"
  shows "\<exists>s'. end_attempt (oe_id e) change s = Inr ((), s')"
proof -
  have "\<forall>r\<in>set (st_outbox s). ob_id r = oe_id e \<and> event_open r \<longrightarrow> ob_attempts r + 1 \<le> 2147483647"
  proof (intro ballI impI)
    fix r
    assume r: "r \<in> set (st_outbox s)" "ob_id r = oe_id e \<and> event_open r"
    have "oe_attempts (event_of_row r) = oe_attempts e" using waiting_row(1) [OF assms(1) r(1)] r(2) by simp
    then have "ob_attempts r = oe_attempts e" by (simp add: event_of_row_def)
    with assms(2) show "ob_attempts r + 1 \<le> 2147483647" by simp
  qed
  then show ?thesis unfolding end_attempt_def by (simp add: tx_steps) (simp add: tx_modify_def)
qed

lemma end_attempt_delivering:
  assumes s: "delivering m endpoints A over (e # events) s" and run: "end_attempt (oe_id e) change s = Inr (u, s')"
    and core: "\<And>r. same_event r (change r)"
    and one: "\<And>r. event_open r \<Longrightarrow> ob_delivered_at (change r) = None \<or> ob_dead_lettered_at (change r) = None"
    and "left": "\<And>r. event_of_row r = e \<Longrightarrow> event_open (change r) \<Longrightarrow> oe_attempts e + 1 - oe_attempt_floor e < m"
    and accepted: "\<And>r. event_of_row r = e \<Longrightarrow> event_open r \<Longrightarrow> ob_delivered_at (change r) \<noteq> None \<Longrightarrow>
      event_targets e endpoints \<noteq> [] \<and> list_all (heard e s) (event_targets e endpoints)"
  shows "delivering m endpoints A (over @ [e]) events s'" "store_changes A s s'"
proof -
  let ?P = "\<lambda>r. ob_id r = oe_id e \<and> event_open r"
  let ?f = "\<lambda>r. (change r)\<lparr> ob_attempts := ob_attempts r + 1, ob_claimed_by := None, ob_claimed_until := None \<rparr>"
  have s': "s' = s\<lparr> st_outbox := sql_update ?P ?f (st_outbox s) \<rparr>"
    using run by (simp add: end_attempt_def tx_steps tx_modify_iff split: if_splits)
  have counter: "ob_attempts x + 1 \<le> 2147483647" if "x \<in> set (st_outbox s)" "?P x" for x
    using run that by (auto simp: end_attempt_def tx_steps split: if_splits)
  have f: "same_event r (?f r)" for r using core [of r] by (simp add: same_event_def event_core_def)
  have own: "store_changes {oe_id e} s s'" unfolding s' by (rule store_changes_update) (auto intro: f)
  then show "store_changes A s s'" by (rule store_changes_mono [rotated]) (use s in \<open>simp add: delivering_def\<close>)
  obtain r where r: "r \<in> set (st_outbox s)" "event_of_row r = e" "event_open r"
    using s by (auto simp: delivering_def event_waits_def)
  then have e: "ob_id r = oe_id e" "ob_attempts r = oe_attempts e" "ob_attempt_floor r = oe_attempt_floor e"
    by (auto simp: event_of_row_def)
  have "?f r \<in> set (st_outbox s')" unfolding s' using r e by (auto simp: in_sql_update intro!: bexI [of _ r])
  moreover have "heard e s' = heard e s" by (rule ext) (simp add: heard_def s')
  ultimately have "attempt_ended m endpoints e s'"
    unfolding attempt_ended_def using same_event_simps [OF core [of r]] e one [OF r(3)] counter [OF r(1)] r(3) left [OF r(2)] accepted [OF r(2,3)]
    by (intro bexI [of _ "?f r"]) (auto simp: event_open_def)
  moreover have "oe_id x \<notin> {oe_id e}" if "x \<in> set over \<union> set events" for x
  proof -
    have "oe_id x \<in> oe_id ` (set over \<union> set events)" using that by blast
    then show ?thesis using s by (auto simp: delivering_def)
  qed
  ultimately show "delivering m endpoints A (over @ [e]) events s'"
    using s unfolding delivering_def store_changes_tables(1,3) [OF own]
    by (auto intro: event_waits_stable [OF _ own] attempt_ended_stable [OF _ own])
qed

section \<open>The futures\<close>

text \<open>
  The environment never refuses: bodies serialize, keys are accepted, and the clock is far
  from the end of time. The first three are documented behaviour of the libraries.
\<close>

definition delivery_ready :: "delivery_env \<Rightarrow> outbox_service \<Rightarrow> bool" where
  "delivery_ready env service \<longleftrightarrow> (\<forall>x. \<exists>body. dv_to_vec env x = Inr body) \<and>
     (\<forall>key message. dv_hmac env key message \<noteq> None) \<and>
     (\<forall>n t. 0 \<le> t \<longrightarrow> t \<le> 7680 \<longrightarrow> dv_add_secs env (dv_clock env n) t \<noteq> None) \<and>
     32 \<le> length (os_master_key service)"

abbreviation delivery_spec ::
  "uuid set \<Rightarrow> (outbox_error + 'a \<Rightarrow> world \<Rightarrow> bool) \<Rightarrow> 'a delivery \<Rightarrow> world \<Rightarrow> bool" where
  "delivery_spec A \<equiv> future_spec (changes (- A)) (changes A)"

lemma await_spec:
  assumes "\<And>w1. changes (- A) w w1 \<Longrightarrow> \<exists>r w2. operation w1 = (r, w2) \<and> changes A w1 w2 \<and>
      (case r of Inl e \<Rightarrow> \<forall>w. post (Inl e) w | Inr x \<Rightarrow> delivery_spec A post (k x) w2)"
  shows "delivery_spec A post (await_op env operation k) w"
  unfolding await_op_def
proof (rule future_spec.await)
  fix w1
  assume "changes (- A) w w1"
  then obtain r w2 where op: "operation w1 = (r, w2)" "changes A w1 w2"
    "case r of Inl e \<Rightarrow> \<forall>w. post (Inl e) w | Inr x \<Rightarrow> delivery_spec A post (k x) w2"
    using assms by blast
  have "delivery_spec A post (case r of Inl e \<Rightarrow> Ready (Inl e) | Inr x \<Rightarrow> k x) w2"
    using op(3) by (cases r) (simp_all add: future_spec.ready)
  then have "delivery_spec A post (idle (dv_latency env w2) (case r of Inl e \<Rightarrow> Ready (Inl e) | Inr x \<Rightarrow> k x)) w2"
    by (rule future_spec_idle) (rule changes_rely store_changes_refl)+
  then show "changes A w1 (fst (case operation w1 of (r, w') \<Rightarrow>
        (w', idle (dv_latency env w') (case r of Inl e \<Rightarrow> Ready (Inl e) | Inr x \<Rightarrow> k x)))) \<and>
      delivery_spec A post (snd (case operation w1 of (r, w') \<Rightarrow>
        (w', idle (dv_latency env w') (case r of Inl e \<Rightarrow> Ready (Inl e) | Inr x \<Rightarrow> k x))))
        (fst (case operation w1 of (r, w') \<Rightarrow>
        (w', idle (dv_latency env w') (case r of Inl e \<Rightarrow> Ready (Inl e) | Inr x \<Rightarrow> k x))))"
    using op(1,2) by simp
qed

text \<open>A repository call whose failure is excused: one that is not \<open>good\<close>.\<close>

lemma repository_spec:
  assumes "\<And>s now. store_changes (- A) (wo_store w) s \<Longrightarrow> good \<Longrightarrow> \<exists>x s'. m now s = Inr (x, s')"
    and "\<And>s now x s'. store_changes (- A) (wo_store w) s \<Longrightarrow> m now s = Inr (x, s') \<Longrightarrow> store_changes A s s'"
    and "\<And>w1 now x s' w2. changes (- A) w w1 \<Longrightarrow> m now (wo_store w1) = Inr (x, s') \<Longrightarrow> wo_store w2 = s' \<Longrightarrow>
      delivery_spec A post (k x) w2"
    and "\<And>e w. \<not> good \<Longrightarrow> post (Inl e) w"
  shows "delivery_spec A post (await_op env (clocked env (\<lambda>now. run_repo (m now))) k) w"
proof (rule await_spec)
  fix w1
  assume w1: "changes (- A) w w1"
  let ?now = "dv_clock env (wo_reads w1)" and ?w = "w1\<lparr> wo_reads := wo_reads w1 + 1 \<rparr>"
  show "\<exists>r w2. clocked env (\<lambda>now. run_repo (m now)) w1 = (r, w2) \<and> changes A w1 w2 \<and>
      (case r of Inl e \<Rightarrow> \<forall>w. post (Inl e) w | Inr x \<Rightarrow> delivery_spec A post (k x) w2)"
  proof (cases "m ?now (wo_store w1)")
    case (Inl e)
    then have "\<not> good" using assms(1) [OF w1, of ?now] by auto
    then show ?thesis using Inl assms(4) store_changes_refl by (auto simp: clocked_def run_repo_def tx_run_def)
  next
    case (Inr p)
    obtain x s' where p: "m ?now (wo_store w1) = Inr (x, s')" using Inr by (cases p) auto
    have run: "clocked env (\<lambda>now. run_repo (m now)) w1 = (Inr x, ?w\<lparr> wo_store := s' \<rparr>)"
      using p by (simp add: clocked_def run_repo_def tx_run_def)
    have "store_changes A (wo_store w1) s'" by (rule assms(2) [OF w1 p])
    moreover have "delivery_spec A post (k x) (?w\<lparr> wo_store := s' \<rparr>)" by (rule assms(3) [OF w1 p]) simp
    ultimately show ?thesis using run by simp
  qed
qed

text \<open>Recording an attempt of the event at hand, then going on.\<close>

lemma record_spec:
  assumes "delivering m endpoints A over (e # events) (wo_store w)" "endpoint \<in> set endpoints" "0 < attempt_number e"
    and a: "da_event_id a = oe_id e" "da_attempt a = attempt_number e" "da_endpoint_id a = ep_id endpoint"
    and "\<And>w1. delivering m endpoints A over (e # events) (wo_store w1) \<Longrightarrow>
      (\<And>c. heard e (wo_store w) c \<Longrightarrow> ep_id c \<noteq> ep_id endpoint \<Longrightarrow> heard e (wo_store w1) c) \<Longrightarrow>
      (da_error a = None \<Longrightarrow> da_status a \<noteq> None \<Longrightarrow> heard e (wo_store w1) endpoint) \<Longrightarrow> delivery_spec A post k w1"
    and "\<And>err w. \<not> good \<Longrightarrow> post (Inl err) w"
  shows "delivery_spec A post (await_op env (clocked env (\<lambda>now. run_repo (record_attempt a now))) (\<lambda>_. k)) w"
proof (rule repository_spec [where good = good])
  have own: "oe_id e \<notin> - A" using assms(1) by (simp add: delivering_def)
  show "\<exists>x s'. record_attempt a now s = Inr (x, s')" if "store_changes (- A) (wo_store w) s" for s now
    using record_attempt_succeeds [OF delivering_rely [OF assms(1) that] assms(2) a(1,3)] a(2) assms(3) by auto
  show "store_changes A s s'" if "store_changes (- A) (wo_store w) s" "record_attempt a now s = Inr (x, s')" for s now x s'
    by (rule record_attempt_delivering(2) [OF delivering_rely [OF assms(1) that(1)] that(2) a(1,2)])
  show "delivery_spec A post k w2"
    if w1: "changes (- A) w w1" and run: "record_attempt a now (wo_store w1) = Inr (x, s')" and w2: "wo_store w2 = s'"
    for w1 now x s' w2
  proof (rule assms(7))
    note rec = record_attempt_delivering [OF delivering_rely [OF assms(1) w1] run a(1,2)]
    show "delivering m endpoints A over (e # events) (wo_store w2)" using rec(1) w2 by simp
    show "heard e (wo_store w2) c" if "heard e (wo_store w) c" "ep_id c \<noteq> ep_id endpoint" for c
      using rec(3) [OF heard_stable [OF that(1) w1 own]] that(2) a(3) w2 by simp
    show "heard e (wo_store w2) endpoint" if "da_error a = None" "da_status a \<noteq> None"
      using rec(4) [OF that] a(3) w2 by simp
  qed
qed (rule assms(8))

lemma endpoint_secret_ready:
  "delivery_ready env service \<Longrightarrow> \<exists>secret. endpoint_secret env service endpoint v = Inr secret"
  by (auto simp: endpoint_secret_def secret_derive_def delivery_ready_def MIN_MASTER_KEY_BYTES_def ok_or_def
      split: option.splits)

lemma signing_secrets_ready:
  "delivery_ready env service \<Longrightarrow> \<exists>secrets. signing_secrets env service endpoint key = Inr secrets"
  using endpoint_secret_ready [of env service endpoint]
  by (auto simp: signing_secrets_def bind_result_def split: option.splits sum.splits) (metis Inl_Inr_False)

lemma send_spec:
  assumes "\<And>result w1. changes (- A) w w1 \<Longrightarrow> delivery_spec A post (k result) w1"
  shows "delivery_spec A post (await_op env (send_signed env e body endpoint secrets) k) w"
proof (rule await_spec)
  fix w1
  assume w1: "changes (- A) w w1"
  obtain result w2 where send: "send_signed env e body endpoint secrets w1 = (Inr result, w2)" "wo_store w2 = wo_store w1"
    by (simp add: send_signed_def clocked_def send_call_def)
  have "delivery_spec A post (k result) w2" by (rule assms) (use w1 send(2) in simp)
  then show "\<exists>r w2. send_signed env e body endpoint secrets w1 = (r, w2) \<and> changes A w1 w2 \<and>
      (case r of Inl x \<Rightarrow> \<forall>w. post (Inl x) w | Inr result \<Rightarrow> delivery_spec A post (k result) w2)"
    using send store_changes_refl by auto
qed

text \<open>Calling the endpoints: if all of them accepted, all of them are on record.\<close>

lemma deliver_to_endpoints_spec:
  assumes "delivering m endpoints A over (e # events) (wo_store w)"
    and "event_targets e endpoints = called @ rest" "distinct (map ep_id (called @ rest))" "0 < attempt_number e"
    and "all_accepted \<Longrightarrow> list_all (heard e (wo_store w)) called" "good \<Longrightarrow> delivery_ready env service"
    and "\<And>b w'. delivering m endpoints A over (e # events) (wo_store w') \<Longrightarrow>
      (b \<Longrightarrow> list_all (heard e (wo_store w')) (called @ rest)) \<Longrightarrow> delivery_spec A post (k b) w'"
    and bad: "\<And>err w. \<not> good \<Longrightarrow> post (Inl err) w"
  shows "delivery_spec A post (deliver_to_endpoints env service e body rest all_accepted k) w"
  using assms(1-3,5,7)
proof (induction rest arbitrary: called all_accepted w)
  case Nil
  then show ?case by simp
next
  case (Cons endpoint rest)
  have "set (event_targets e endpoints) \<subseteq> set endpoints" by (auto simp: event_targets_def split: option.splits)
  then have mem: "endpoint \<in> set endpoints" using Cons.prems(2) by auto
  have own: "oe_id e \<notin> - A" using Cons.prems(1) by (simp add: delivering_def)
  have fresh: "ep_id c \<noteq> ep_id endpoint" if "c \<in> set called" for c
    using imageI [OF that, of ep_id] Cons.prems(3) by auto
  have step: "delivery_spec A post (await_op env (clocked env (\<lambda>now. run_repo (record_attempt a now)))
      (\<lambda>_. deliver_to_endpoints env service e body rest (all_accepted \<and> b) k)) w1"
    if w1: "changes (- A) w w1" and a: "da_event_id a = oe_id e" "da_attempt a = attempt_number e" "da_endpoint_id a = ep_id endpoint"
      and b: "b \<Longrightarrow> da_error a = None \<and> da_status a \<noteq> None" for a b w1
  proof (rule record_spec [where good = good, OF delivering_rely [OF Cons.prems(1) w1] mem assms(4) a])
    fix w2 :: world
    assume w2: "delivering m endpoints A over (e # events) (wo_store w2)"
      "\<And>c. heard e (wo_store w1) c \<Longrightarrow> ep_id c \<noteq> ep_id endpoint \<Longrightarrow> heard e (wo_store w2) c"
      "da_error a = None \<Longrightarrow> da_status a \<noteq> None \<Longrightarrow> heard e (wo_store w2) endpoint"
    have "list_all (heard e (wo_store w2)) (called @ [endpoint])" if "all_accepted \<and> b"
      using Cons.prems(4) that w2(2,3) b fresh heard_stable [OF _ w1 own] by (auto simp: list_all_iff)
    then show "delivery_spec A post (deliver_to_endpoints env service e body rest (all_accepted \<and> b) k) w2"
      using w2(1) Cons.prems(2,3,5) by (intro Cons.IH [of w2 "called @ [endpoint]"]) simp_all
  qed (rule bad)
  have refused: "delivery_spec A post (Ready (Inl err)) w" if "\<not> delivery_ready env service" for err
    by (rule future_spec.ready) (use that assms(6) bad in blast)
  have "delivery_spec A post (Ready (Inl err)) w"
    if "endpoint_secret env service endpoint v = Inl x \<or> signing_secrets env service endpoint key = Inl x" for err v key x
    using that endpoint_secret_ready [of env service endpoint v] signing_secrets_ready [of env service endpoint key]
    by (intro refused) auto
  then show ?case
    using step [OF store_changes_refl, of "key_mismatch e endpoint" False]
    by (auto simp: key_mismatch_def split: sum.splits intro!: send_spec step)
      (auto simp: attempt_of_def Let_def result_accepted_def split: delivery_result.splits)
qed

text \<open>Ending the attempt of the event at hand, then going on with the next one.\<close>

definition ends_well :: "int \<Rightarrow> webhook_endpoint list \<Rightarrow> outbox_event \<Rightarrow> (outbox_row \<Rightarrow> outbox_row) \<Rightarrow> store \<Rightarrow> bool" where
  "ends_well m endpoints e change s \<longleftrightarrow> (\<forall>r. same_event r (change r)) \<and>
     (\<forall>r. event_open r \<longrightarrow> ob_delivered_at (change r) = None \<or> ob_dead_lettered_at (change r) = None) \<and>
     (\<forall>r. event_open (change r) \<longrightarrow> oe_attempts e + 1 - oe_attempt_floor e < m) \<and>
     (\<forall>r. event_open r \<longrightarrow> ob_delivered_at (change r) \<noteq> None \<longrightarrow>
        event_targets e endpoints \<noteq> [] \<and> list_all (heard e s) (event_targets e endpoints))"

lemma end_spec:
  assumes "delivering m endpoints A over (e # events) (wo_store w)" "good \<Longrightarrow> oe_attempts e < 2147483647"
    and "\<And>w1. changes (- A) w w1 \<Longrightarrow> \<exists>w2. wo_store w2 = wo_store w1 \<and>
      ((\<exists>change. ends_well m endpoints e change (wo_store w1) \<and> operation w1 = run_repo (end_attempt (oe_id e) change) w2) \<or>
       \<not> good \<and> (\<exists>err. operation w1 = (Inl err, w2)))"
    and "\<And>w1. delivering m endpoints A (over @ [e]) events (wo_store w1) \<Longrightarrow> delivery_spec A post k w1"
    and "\<And>err w. \<not> good \<Longrightarrow> post (Inl err) w"
  shows "delivery_spec A post (await_op env operation (\<lambda>_. k)) w"
proof (rule await_spec)
  fix w1
  assume w1: "changes (- A) w w1"
  note situation = delivering_rely [OF assms(1) w1]
  obtain w2 where w2: "wo_store w2 = wo_store w1"
    and op: "(\<exists>change. ends_well m endpoints e change (wo_store w1) \<and> operation w1 = run_repo (end_attempt (oe_id e) change) w2) \<or>
       \<not> good \<and> (\<exists>err. operation w1 = (Inl err, w2))" using assms(3) [OF w1] by blast
  show "\<exists>r w2. operation w1 = (r, w2) \<and> changes A w1 w2 \<and>
      (case r of Inl x \<Rightarrow> \<forall>w. post (Inl x) w | Inr _ \<Rightarrow> delivery_spec A post k w2)"
  proof (cases "\<not> good \<and> (\<exists>err. operation w1 = (Inl err, w2))")
    case True
    then show ?thesis using w2 assms(5) store_changes_refl by auto
  next
    case False
    with op obtain change where change: "ends_well m endpoints e change (wo_store w1)"
      "operation w1 = run_repo (end_attempt (oe_id e) change) w2" by blast
    show ?thesis
    proof (cases "end_attempt (oe_id e) change (wo_store w1)")
      case (Inl err)
      then have "\<not> good" using end_attempt_succeeds [OF situation, of change] assms(2) by auto
      then show ?thesis using Inl change(2) w2 assms(5) store_changes_refl by (auto simp: run_repo_def tx_run_def)
    next
      case (Inr p)
      obtain u s' where run: "end_attempt (oe_id e) change (wo_store w1) = Inr (u, s')" using Inr by (cases p) auto
      from end_attempt_delivering [OF situation run] change(1)
      have "delivering m endpoints A (over @ [e]) events s'" "store_changes A (wo_store w1) s'"
        by (auto simp: ends_well_def)
      then show ?thesis using run change(2) w2 assms(4) [of "w2\<lparr> wo_store := s' \<rparr>"] by (simp add: run_repo_def tx_run_def)
    qed
  qed
qed

lemma ends_well_intros:
  "ends_well m endpoints e (\<lambda>r. r\<lparr> ob_dead_lettered_at := Some now, ob_last_error := err \<rparr>) s"
  "oe_attempts e + 1 - oe_attempt_floor e < m \<Longrightarrow>
     ends_well m endpoints e (\<lambda>r. r\<lparr> ob_available_at := now, ob_last_error := err \<rparr>) s"
  "event_targets e endpoints \<noteq> [] \<Longrightarrow> list_all (heard e s) (event_targets e endpoints) \<Longrightarrow>
     ends_well m endpoints e (\<lambda>r. r\<lparr> ob_delivered_at := Some now, ob_last_error := err \<rparr>) s"
  by (simp_all add: ends_well_def same_event_def event_core_def event_open_def)

lemma clocked_end_spec:
  assumes "delivering m endpoints A over (e # events) (wo_store w)" "good \<Longrightarrow> oe_attempts e < 2147483647"
    and "\<And>s now. store_changes (- A) (wo_store w) s \<Longrightarrow> ends_well m endpoints e (change now) s"
    and "\<And>w1. delivering m endpoints A (over @ [e]) events (wo_store w1) \<Longrightarrow> delivery_spec A post k w1"
    and "\<And>err w. \<not> good \<Longrightarrow> post (Inl err) w"
  shows "delivery_spec A post (await_op env (clocked env (\<lambda>now. run_repo (end_attempt (oe_id e) (change now)))) (\<lambda>_. k)) w"
proof (rule end_spec [OF assms(1,2)])
  fix w1
  assume w1: "changes (- A) w w1"
  let ?w2 = "w1\<lparr> wo_reads := wo_reads w1 + 1 \<rparr>" and ?change = "change (dv_clock env (wo_reads w1))"
  have "ends_well m endpoints e ?change (wo_store w1) \<and>
      clocked env (\<lambda>now. run_repo (end_attempt (oe_id e) (change now))) w1 = run_repo (end_attempt (oe_id e) ?change) ?w2"
    using assms(3) [OF w1] by (simp add: clocked_def)
  then show "\<exists>w2. wo_store w2 = wo_store w1 \<and>
      ((\<exists>change'. ends_well m endpoints e change' (wo_store w1) \<and>
         clocked env (\<lambda>now. run_repo (end_attempt (oe_id e) (change now))) w1 = run_repo (end_attempt (oe_id e) change') w2) \<or>
       \<not> good \<and> (\<exists>err. clocked env (\<lambda>now. run_repo (end_attempt (oe_id e) (change now))) w1 = (Inl err, w2)))"
    by (intro exI [where x = ?w2]) auto
qed (use assms in blast)+

lemma dead_letter_spec:
  assumes "delivering m endpoints A over (e # events) (wo_store w)" "good \<Longrightarrow> oe_attempts e < 2147483647"
    and "\<And>w1. delivering m endpoints A (over @ [e]) events (wo_store w1) \<Longrightarrow> delivery_spec A post k w1"
    and "\<And>err w. \<not> good \<Longrightarrow> post (Inl err) w"
  shows "delivery_spec A post (await_op env (dead_letter_op env (oe_id e) reason) (\<lambda>_. k)) w"
  unfolding dead_letter_def using assms by (intro clocked_end_spec ends_well_intros)

lemma backoff_range: "0 < backoff_for used" "backoff_for used \<le> 7680"
proof -
  define p :: int where "p = 2 ^ nat (max 1 (min 8 used) - 1)"
  have "p \<le> 2 ^ 7" unfolding p_def by (rule power_increasing) auto
  moreover have "1 \<le> p" by (simp add: p_def)
  ultimately show "0 < backoff_for used" "backoff_for used \<le> 7680"
    by (auto simp: backoff_for_def Let_def i64_sat_def i64_min_def i64_max_def simp flip: p_def)
qed

lemma ready_body: "delivery_ready env service \<Longrightarrow> dv_to_vec env x \<noteq> Inl err"
  unfolding delivery_ready_def by (metis Inl_Inr_False)

lemma ready_backoff: "delivery_ready env service \<Longrightarrow> dv_add_secs env (dv_clock env n) (backoff_for used) \<noteq> None"
  using backoff_range [of used] by (simp add: delivery_ready_def)

lemma reschedule_spec:
  assumes "delivering m endpoints A over (e # events) (wo_store w)" "good \<Longrightarrow> oe_attempts e < 2147483647"
    and "oe_attempts e + 1 - oe_attempt_floor e < m" "good \<Longrightarrow> delivery_ready env service"
    and "\<And>w1. delivering m endpoints A (over @ [e]) events (wo_store w1) \<Longrightarrow> delivery_spec A post k w1"
    and "\<And>err w. \<not> good \<Longrightarrow> post (Inl err) w"
  shows "delivery_spec A post (await_op env (reschedule_op env (oe_id e) used) (\<lambda>_. k)) w"
proof (rule end_spec [OF assms(1,2)])
  fix w1 :: world
  let ?now = "dv_clock env (wo_reads w1)" and ?w2 = "w1\<lparr> wo_reads := wo_reads w1 + 1 \<rparr>"
  show "\<exists>w2. wo_store w2 = wo_store w1 \<and>
      ((\<exists>change. ends_well m endpoints e change (wo_store w1) \<and>
         reschedule_op env (oe_id e) used w1 = run_repo (end_attempt (oe_id e) change) w2) \<or>
       \<not> good \<and> (\<exists>err. reschedule_op env (oe_id e) used w1 = (Inl err, w2)))"
  proof (cases "dv_add_secs env ?now (backoff_for used)")
    case None
    have "\<not> good"
      using None assms(4) ready_backoff by blast
    with None show ?thesis by (intro exI [where x = ?w2]) (simp add: reschedule_op_def clocked_def)
  next
    case (Some t)
    have "ends_well m endpoints e (\<lambda>r. r\<lparr> ob_available_at := t, ob_last_error := Some ''delivery_failed'' \<rparr>) (wo_store w1)"
      by (intro ends_well_intros assms(3))
    with Some show ?thesis
      by (intro exI [where x = "w1\<lparr> wo_reads := wo_reads w1 + 1 + 1 \<rparr>"])
        (auto simp: reschedule_op_def clocked_def reschedule_def)
  qed
qed (use assms in blast)+

section \<open>A merchant's share\<close>

text \<open>The counters of a share: every event was claimed and ended in one of three ways.\<close>

definition counted :: "outbox_report \<Rightarrow> nat \<Rightarrow> bool" where
  "counted report n \<longleftrightarrow> or_claimed report = n \<and>
     or_delivered report + or_rescheduled report + or_dead_lettered report = n"

lemma counted_up:
  assumes "counted report n" "n < u32_max"
  shows "counted (count_delivered (count_claimed report)) (Suc n)"
    "counted (count_rescheduled (count_claimed report)) (Suc n)"
    "counted (count_dead (count_claimed report)) (Suc n)"
    "counted (count_dead (count_missing (count_claimed report))) (Suc n)"
  using assms by (auto simp: counted_def count_up_def u32_sat_add_def)

definition share_done ::
  "bool \<Rightarrow> int \<Rightarrow> webhook_endpoint list \<Rightarrow> uuid set \<Rightarrow> outbox_event list \<Rightarrow> outbox_error + outbox_report \<Rightarrow> world \<Rightarrow> bool" where
  "share_done good m endpoints A events outcome w \<longleftrightarrow>
     (case outcome of Inl _ \<Rightarrow> \<not> good
      | Inr report \<Rightarrow> delivering m endpoints A events [] (wo_store w) \<and> counted report (length events))"

lemma share_done_bad: "\<not> good \<Longrightarrow> share_done good m endpoints A events (Inl err) w"
  by (simp add: share_done_def)

lemma share_ready:
  assumes "delivering m endpoints A events [] (wo_store w)" "counted report (length events)"
  shows "delivery_spec A (share_done good m endpoints A events) (Ready (Inr report)) w"
  by (rule future_spec.ready) (use assms delivering_rely in \<open>auto simp: share_done_def\<close>)

text \<open>Rows as the constraints of the table keep them, and the events read from them.\<close>

definition event_bounds :: "outbox_event \<Rightarrow> bool" where
  "event_bounds e \<longleftrightarrow> 0 \<le> oe_attempt_floor e \<and> oe_attempt_floor e \<le> oe_attempts e \<and> oe_attempts e \<le> 2147483647"

lemma attempt_number_pos: "event_bounds e \<Longrightarrow> 0 < attempt_number e"
  by (simp add: event_bounds_def attempt_number_def i32_sat_def)

lemma attempts_left:
  assumes "event_bounds e" "\<not> used_attempts e \<ge> m" "m \<le> 2147483647"
  shows "oe_attempts e + 1 - oe_attempt_floor e < m"
  using assms by (auto simp: event_bounds_def used_attempts_def i32_sat_def)

lemma distinct_targets: "distinct (map ep_id endpoints) \<Longrightarrow> distinct (map ep_id (event_targets e endpoints))"
  by (simp add: event_targets_def distinct_map_filter split: option.split)

lemma deliver_events_spec:
  assumes "delivering (os_max_attempts service) endpoints A over events (wo_store w)"
    and "counted report (length over)" "length (over @ events) \<le> u32_max" "list_all event_bounds events"
    and "good \<Longrightarrow> list_all (\<lambda>e. oe_attempts e < 2147483647) events" "good \<Longrightarrow> delivery_ready env service"
    and "distinct (map ep_id endpoints)" "os_max_attempts service \<le> 2147483647"
  shows "delivery_spec A (share_done good (os_max_attempts service) endpoints A (over @ events))
    (deliver_events env service endpoints events report) w"
  using assms(1-5)
proof (induction events arbitrary: over report w)
  case Nil
  then show ?case by (simp add: share_ready)
next
  case (Cons e events)
  let ?m = "os_max_attempts service" and ?post = "share_done good (os_max_attempts service) endpoints A (over @ e # events)"
  have n: "length over < u32_max" using Cons.prems(3) by simp
  have e: "event_bounds e" "good \<Longrightarrow> oe_attempts e < 2147483647" using Cons.prems(4,5) by simp_all
  have next_event: "delivery_spec A ?post (deliver_events env service endpoints events r) w1"
    if "delivering ?m endpoints A (over @ [e]) events (wo_store w1)" "counted r (Suc (length over))" for w1 r
    using Cons.IH [OF that(1), of r] that(2) Cons.prems(3-5) by simp
  note going_on = next_event [OF _ counted_up(1) [OF Cons.prems(2) n]] next_event [OF _ counted_up(2) [OF Cons.prems(2) n]]
    next_event [OF _ counted_up(3) [OF Cons.prems(2) n]] next_event [OF _ counted_up(4) [OF Cons.prems(2) n]]
  show ?case
  proof (cases "event_targets e endpoints = []")
    case True
    then show ?thesis
      using dead_letter_spec [OF Cons.prems(1) e(2) going_on(4) share_done_bad] by simp
  next
    case False
    have "delivery_spec A ?post (deliver_to_all env service e (event_targets e endpoints) (\<lambda>all_accepted.
        if all_accepted then await_op env (clocked env (\<lambda>now. run_repo (mark_delivered (oe_id e) now)))
          (\<lambda>_. deliver_events env service endpoints events (count_delivered (count_claimed report)))
        else if used_attempts e \<ge> ?m then await_op env (dead_letter_op env (oe_id e) ''delivery_attempts_exhausted'')
          (\<lambda>_. deliver_events env service endpoints events (count_dead (count_claimed report)))
        else await_op env (reschedule_op env (oe_id e) (used_attempts e))
          (\<lambda>_. deliver_events env service endpoints events (count_rescheduled (count_claimed report))))) w"
    proof (cases "dv_to_vec env (envelope e)")
      case (Inl err)
      then have "\<not> good" using assms(6) ready_body by blast
      then show ?thesis using Inl by (simp add: deliver_to_all_def future_spec.ready share_done_bad)
    next
      case (Inr body)
      have own: "oe_id e \<notin> - A" using Cons.prems(1) by (simp add: delivering_def)
      show ?thesis
        unfolding deliver_to_all_def Inr sum.case
      proof (rule deliver_to_endpoints_spec [where called = "[]" and good = good, OF Cons.prems(1)], goal_cases)
        case (6 b w1)
        have accepted: "list_all (heard e s) (event_targets e endpoints)" if b "store_changes (- A) (wo_store w1) s" for s
          by (rule list.pred_mono_strong [OF 6(2) [OF that(1), simplified]]) (rule heard_stable [OF _ that(2) own])
        show ?case
          using 6(1) e False going_on assms(6) attempts_left [OF e(1) _ assms(8)]
          by (auto simp: mark_delivered_def intro!: clocked_end_spec [where good = good] ends_well_intros
              accepted dead_letter_spec [where good = good] reschedule_spec [where service = service and good = good]
              share_done_bad)
      qed (use assms(6,7) e(1) in \<open>simp_all add: attempt_number_pos distinct_targets share_done_bad\<close>)
    qed
    then show ?thesis using False by (simp add: Let_def)
  qed
qed

lemma dead_letter_all_spec:
  assumes "delivering m [] A over events (wo_store w)" "counted report (length over)" "length (over @ events) \<le> u32_max"
    and "good \<Longrightarrow> list_all (\<lambda>e. oe_attempts e < 2147483647) events"
  shows "delivery_spec A (share_done good m [] A (over @ events)) (dead_letter_all env events report) w"
  using assms
proof (induction events arbitrary: over report w)
  case Nil
  then show ?case by (simp add: share_ready)
next
  case (Cons e events)
  have "counted (count_dead (count_claimed report)) (Suc (length over))"
    using counted_up(3) [OF Cons.prems(2)] Cons.prems(3) by simp
  then have "delivery_spec A (share_done good m [] A (over @ e # events))
      (dead_letter_all env events (count_dead (count_claimed report))) w1"
    if "delivering m [] A (over @ [e]) events (wo_store w1)" for w1
    using Cons.IH [OF that, of "count_dead (count_claimed report)"] Cons.prems(3,4) by simp
  then show ?case
    using Cons.prems(1,4) by (auto intro!: dead_letter_spec [where good = good] share_done_bad)
qed

text \<open>The endpoints the merchant has; the events are delivered to them alone.\<close>

definition merchant_endpoints :: "uuid option \<Rightarrow> store \<Rightarrow> webhook_endpoint list" where
  "merchant_endpoints merchant s =
     (case merchant of None \<Rightarrow> []
      | Some m \<Rightarrow> (case active_endpoints m s of Inl _ \<Rightarrow> [] | Inr (endpoints, _) \<Rightarrow> endpoints))"

definition fingerprints_ok :: "store \<Rightarrow> bool" where
  "fingerprints_ok s \<longleftrightarrow> (\<forall>r\<in>set (st_endpoints s). length (we_secret_fingerprint r) = 32 \<and>
     (case we_previous_secret_fingerprint r of None \<Rightarrow> True | Some f \<Rightarrow> length f = 32))"

lemma endpoint_of_row_id: "endpoint_of_row t r = Inr endpoint \<Longrightarrow> ep_id endpoint = we_id r"
  by (auto simp: endpoint_of_row_def result_simps split: if_splits)

lemma active_endpoints_rows:
  assumes "active_endpoints m s = Inr (endpoints, s')"
  shows "s' = s" "map ep_id endpoints = map we_id (sort_key we_created_at
      (filter (\<lambda>r. we_merchant_id r = m \<and> we_status r = ''active'') (st_endpoints s)))"
proof -
  let ?rows = "sort_key we_created_at (filter (\<lambda>r. we_merchant_id r = m \<and> we_status r = ''active'') (st_endpoints s))"
  from assms have *: "s' = s" "map (endpoint_of_row (st_db_now s)) ?rows = map Inr endpoints"
    by (auto simp: active_endpoints_def tx_simps collect_results_Inr_iff)
  then show "s' = s" by simp
  have "map (endpoint_of_row t) rs = map Inr es \<Longrightarrow> map ep_id es = map we_id rs" for t rs es
    by (induction rs arbitrary: es) (auto simp: Cons_eq_map_conv endpoint_of_row_id)
  then show "map ep_id endpoints = map we_id ?rows" using *(2) by blast
qed

lemma active_endpoints_succeeds:
  assumes "fingerprints_ok s"
  shows "\<exists>endpoints. active_endpoints m s = Inr (endpoints, s)"
proof -
  have "endpoint_of_row t r \<noteq> Inl e" if "r \<in> set (st_endpoints s)" for t r e
    using assms that
    by (auto simp: fingerprints_ok_def endpoint_of_row_def valid_previous_def bind_result_def split: option.splits)
  then have "\<exists>endpoints. collect_results (map (endpoint_of_row t) rs) = Inr endpoints" if "set rs \<subseteq> set (st_endpoints s)" for t rs
    using that by (induction rs) (auto split: sum.splits)
  then show ?thesis by (simp add: active_endpoints_def tx_read_def) (metis (no_types, lifting) filter_is_subset old.sum.simps(6) set_sort)
qed

lemma deliver_merchant_spec:
  assumes "delivering (os_max_attempts service) [] A [] events (wo_store w)" "length events \<le> u32_max" "list_all event_bounds events"
    and "distinct (map we_id (st_endpoints (wo_store w)))" "os_max_attempts service \<le> 2147483647"
    and "good \<Longrightarrow> list_all (\<lambda>e. oe_attempts e < 2147483647) events" "good \<Longrightarrow> delivery_ready env service"
    and "good \<Longrightarrow> fingerprints_ok (wo_store w)"
  shows "delivery_spec A (share_done good (os_max_attempts service) (merchant_endpoints merchant (wo_store w)) A events)
    (deliver_merchant env service merchant events) w"
proof (cases merchant)
  case None
  then show ?thesis
    using dead_letter_all_spec [where over = "[]", OF assms(1) _ _ assms(6)] assms(2)
    by (simp add: deliver_merchant_def merchant_endpoints_def counted_def no_deliveries_def)
next
  case (Some m)
  define post where "post = share_done good (os_max_attempts service) (merchant_endpoints (Some m) (wo_store w)) A events"
  have "delivery_spec A post (await_op env (run_repo (active_endpoints m))
      (\<lambda>endpoints. deliver_events env service endpoints events no_deliveries)) w"
  proof (rule await_spec)
    fix w1 :: world
    assume w1: "changes (- A) w w1"
    note same = store_changes_tables [OF w1]
    show "\<exists>r w2. run_repo (active_endpoints m) w1 = (r, w2) \<and> changes A w1 w2 \<and> (case r of Inl e \<Rightarrow> \<forall>w. post (Inl e) w
        | Inr endpoints \<Rightarrow> delivery_spec A post (deliver_events env service endpoints events no_deliveries) w2)"
    proof (cases "active_endpoints m (wo_store w)")
      case (Inl e)
      then have "\<not> good" using active_endpoints_succeeds [of "wo_store w" m] assms(8) by auto
      with Inl show ?thesis
        using same(4) [of m] store_changes_refl by (auto simp: run_repo_def tx_run_def post_def share_done_bad)
    next
      case (Inr p)
      obtain endpoints where eps: "active_endpoints m (wo_store w) = Inr (endpoints, wo_store w)"
        using Inr active_endpoints_rows(1) by (cases p) auto
      note rows = active_endpoints_rows(2) [OF eps]
      have ids: "distinct (map ep_id endpoints)"
        unfolding rows using assms(4) by (simp add: distinct_map distinct_map_filter) (auto intro: inj_on_subset)
      have "list_ex (\<lambda>r. we_id r = ep_id endpoint) (st_endpoints (wo_store w))" if "endpoint \<in> set endpoints" for endpoint
        using imageI [OF that, of ep_id] arg_cong [OF rows, of set] by (force simp: list_ex_iff)
      then have "delivering (os_max_attempts service) endpoints A [] events (wo_store w1)"
        using delivering_rely [OF assms(1) w1] by (simp add: delivering_def same(1))
      then have "delivery_spec A (share_done good (os_max_attempts service) endpoints A events)
          (deliver_events env service endpoints events no_deliveries) w1"
        using deliver_events_spec [where over = "[]" and good = good] assms(2,3,5,6,7) ids
        by (simp add: counted_def no_deliveries_def)
      then show ?thesis
        using eps same(4) [of m] store_changes_refl by (simp add: run_repo_def tx_run_def merchant_endpoints_def post_def)
    qed
  qed
  then show ?thesis by (simp add: deliver_merchant_def Some post_def)
qed

end
