(* ===== verification/Outbox_Pass.thy ===== *)
theory Outbox_Pass
  imports Outbox_Delivery Sample_Store
begin

text \<open>
  A whole delivery pass: what it claims, how it shares the batch between merchants, and
  that it ends every attempt it starts. The budget of the outbox, the attempts its open
  events have left, decreases with every pass that finds something due, so the outbox drains.
\<close>

section \<open>Grouping by merchant\<close>

text \<open>The merchants in the order their first event comes.\<close>

definition first_seen :: "'a list \<Rightarrow> 'a list" where
  "first_seen xs = rev (remdups (rev xs))"

lemma first_seen_snoc: "first_seen (xs @ [x]) = (if x \<in> set xs then first_seen xs else first_seen xs @ [x])"
  by (simp add: first_seen_def)

lemma first_seen_props: "distinct (first_seen xs)" "set (first_seen xs) = set xs"
  by (simp_all add: first_seen_def)

abbreviation events_of :: "outbox_event list \<Rightarrow> uuid option \<Rightarrow> outbox_event list" where
  "events_of events m \<equiv> filter (\<lambda>e. oe_merchant_id e = m) events"

lemma push_event_eq:
  assumes "distinct ms"
  shows "push_event e (map (\<lambda>m. (m, q m)) ms) =
    (if oe_merchant_id e \<in> set ms
     then map (\<lambda>m. (m, if m = oe_merchant_id e then q m @ [e] else q m)) ms
     else map (\<lambda>m. (m, q m)) ms @ [(oe_merchant_id e, [e])])"
  using assms by (induction ms) auto

lemma group_by_merchant_shares:
  "group_by_merchant events = map (\<lambda>m. (m, events_of events m)) (first_seen (map oe_merchant_id events))"
proof (induction events rule: rev_induct)
  case Nil
  then show ?case by (simp add: group_by_merchant_def first_seen_def)
next
  case (snoc e events)
  have none: "events_of events (oe_merchant_id e) = []" if "oe_merchant_id e \<notin> oe_merchant_id ` set events"
    unfolding filter_empty_conv using that by (metis imageI)
  have "group_by_merchant (events @ [e]) = push_event e (group_by_merchant events)"
    by (simp add: group_by_merchant_def)
  also have "\<dots> = map (\<lambda>m. (m, events_of (events @ [e]) m)) (first_seen (map oe_merchant_id (events @ [e])))"
    using snoc.IH push_event_eq [OF first_seen_props(1)]
    by (auto simp: first_seen_snoc first_seen_props none intro!: map_cong)
  finally show ?case .
qed

text \<open>C40: Grouping a batch by merchant is the same as listing the merchants in the order of their
  first event, each with exactly its own events in the order of the batch: no event is lost,
  duplicated, reordered within its merchant or put into another merchant's queue.\<close>

theorem group_by_merchant_eq:
  "group_by_merchant events = map (\<lambda>m. (m, events_of events m)) (first_seen (map oe_merchant_id events))"
  by (rule group_by_merchant_shares)

section \<open>Claiming\<close>

text \<open>The constraints of the table \<open>domain_events\<close>.\<close>

definition outbox_row_ok :: "outbox_row \<Rightarrow> bool" where
  "outbox_row_ok r \<longleftrightarrow> 0 \<le> ob_attempt_floor r \<and> ob_attempt_floor r \<le> ob_attempts r \<and> ob_attempts r \<le> 2147483647 \<and>
     (ob_delivered_at r = None \<or> ob_dead_lettered_at r = None)"

definition outbox_ok :: "store \<Rightarrow> bool" where
  "outbox_ok s \<longleftrightarrow> distinct (map ob_id (st_outbox s)) \<and> list_all outbox_row_ok (st_outbox s)"

lemma older_event_total: "ob_id a \<noteq> ob_id b \<Longrightarrow> older_event a b \<or> older_event b a"
  by (auto simp: older_event_def)

lemma older_event_trans: "older_event a b \<Longrightarrow> older_event b c \<Longrightarrow> older_event a c"
  by (auto simp: older_event_def)

lemma older_event_irrefl: "\<not> older_event a a"
  by (simp add: older_event_def)

lemma finite_oldest:
  assumes "finite S" "S \<noteq> {}"
  shows "\<exists>r\<in>S. \<forall>x\<in>S. \<not> older_event x r"
  using assms
proof (induction rule: finite_ne_induct)
  case (insert y S)
  then obtain r where r: "r \<in> S" "\<forall>x\<in>S. \<not> older_event x r" by blast
  show ?case
  proof (cases "older_event y r")
    case True
    then have "\<forall>x\<in>insert y S. \<not> older_event x y"
      using r older_event_trans older_event_irrefl by blast
    then show ?thesis by blast
  qed (use r in blast)
qed (simp add: older_event_irrefl)

lemma finite_newest:
  assumes "finite S" "S \<noteq> {}"
  shows "\<exists>r\<in>S. \<forall>x\<in>S. \<not> older_event r x"
  using assms
proof (induction rule: finite_ne_induct)
  case (insert y S)
  then obtain r where r: "r \<in> S" "\<forall>x\<in>S. \<not> older_event r x" by blast
  show ?case
  proof (cases "older_event r y")
    case True
    then have "\<forall>x\<in>insert y S. \<not> older_event y x"
      using r older_event_trans older_event_irrefl by blast
    then show ?thesis by blast
  qed (use r in blast)
qed (simp add: older_event_irrefl)

abbreviation claimable :: "nat \<Rightarrow> instant \<Rightarrow> outbox_row list \<Rightarrow> outbox_row \<Rightarrow> bool" where
  "claimable per_merchant_limit now rows r \<equiv> event_due now r \<and> merchant_rank now rows r \<le> per_merchant_limit"

lemma mset_take_subset: "mset (take n xs) \<subseteq># mset xs"
  by (subst (2) append_take_drop_id [of n xs, symmetric]) (simp only: mset_append mset_subset_eq_add_left)

lemma due_events_mset: "mset (due_events limit p now rows) \<subseteq># filter_mset (claimable p now rows) (mset rows)"
  using mset_take_subset [of limit "sort_key ob_available_at (sort_key ob_id (filter (claimable p now rows) rows))"]
  by (simp add: due_events_def)

lemma due_events_member: "r \<in> set (due_events limit p now rows) \<Longrightarrow> r \<in> set rows \<and> claimable p now rows r"
  using mset_subset_eqD [OF due_events_mset, of r limit p now rows] by simp

lemma due_events_length: "length (due_events limit p now rows) \<le> limit"
  by (simp add: due_events_def)

lemma due_events_distinct: "distinct (map ob_id rows) \<Longrightarrow> distinct (map ob_id (due_events limit p now rows))"
proof -
  assume "distinct (map ob_id rows)"
  then have "distinct (map ob_id (filter (claimable p now rows) rows))" by (rule distinct_map_filter)
  then have "distinct (map ob_id (sort_key ob_available_at (sort_key ob_id (filter (claimable p now rows) rows))))"
    by (simp add: distinct_map)
  then show ?thesis unfolding due_events_def take_map [symmetric] by (rule distinct_take)
qed

lemma due_events_nonempty:
  assumes "r \<in> set rows" "event_due now r" "0 < limit" "0 < p"
  shows "due_events limit p now rows \<noteq> []"
proof -
  let ?S = "{x \<in> set rows. event_due now x}"
  obtain o' where o': "o' \<in> ?S" "\<forall>x\<in>?S. \<not> older_event x o'" using finite_oldest [of ?S] assms(1,2) by auto
  have "merchant_rank now rows o' = 1" using o'(2) by (auto simp: merchant_rank_def rows_affected_0_iff)
  then have "o' \<in> set (filter (claimable p now rows) rows)" using o'(1) assms(4) by simp
  then have "filter (claimable p now rows) rows \<noteq> []" by (intro notI) simp
  then have "0 < length (sort_key ob_available_at (sort_key ob_id (filter (claimable p now rows) rows)))" by simp
  then show ?thesis unfolding due_events_def using assms(3) by (metis length_greater_0_conv take_eq_Nil neq0_conv)
qed

text \<open>No merchant gets more than its share of the batch.\<close>

lemma due_events_share:
  assumes "distinct (map ob_id rows)"
  shows "length (filter (\<lambda>r. ob_merchant_id r = m) (due_events limit p now rows)) \<le> p"
proof -
  let ?L = "filter (\<lambda>r. ob_merchant_id r = m) (due_events limit p now rows)"
  let ?S = "set ?L"
  have rows: "distinct rows" using assms by (simp add: distinct_map)
  have d: "distinct ?L" using due_events_distinct [OF assms, of limit p now] by (simp add: distinct_map)
  show ?thesis
  proof (cases "?S = {}")
    case False
    then obtain r where r: "r \<in> ?S" "\<forall>x\<in>?S. \<not> older_event r x" using finite_newest [of ?S] by auto
    have "?S - {r} \<subseteq> set (filter (\<lambda>x. event_due now x \<and> ob_merchant_id x = ob_merchant_id r \<and> older_event x r) rows)"
    proof
      fix x
      assume x: "x \<in> ?S - {r}"
      then have mem: "x \<in> set rows" "event_due now x" "r \<in> set rows" "ob_merchant_id x = ob_merchant_id r"
        using due_events_member [of x] due_events_member [of r] r(1) by auto
      moreover have "ob_id x \<noteq> ob_id r" using distinct_key_eq [OF assms mem(1,3)] x by auto
      ultimately show "x \<in> set (filter (\<lambda>x. event_due now x \<and> ob_merchant_id x = ob_merchant_id r \<and> older_event x r) rows)"
        using r(2) x older_event_total [of x r] by auto
    qed
    from card_mono [OF List.finite_set this]
    have "card (?S - {r}) \<le> rows_affected (\<lambda>x. event_due now x \<and> ob_merchant_id x = ob_merchant_id r \<and> older_event x r) rows"
      unfolding rows_affected_def distinct_card [OF distinct_filter [OF rows]] .
    moreover have "merchant_rank now rows r \<le> p" using r(1) due_events_member [of r limit p now rows] by simp
    moreover have "length ?L = Suc (card (?S - {r}))"
      using card_Suc_Diff1 [OF List.finite_set r(1)] distinct_card [OF d] by simp
    ultimately show ?thesis by (simp add: merchant_rank_def)
  qed simp
qed

lemma claim_due_events_effect:
  assumes "claim_due_events add_secs returning holder limit p visibility now s = Inr (events, s')"
    and "\<And>xs. mset (returning xs) = mset xs" "distinct (map ob_id (st_outbox s))"
  defines "due \<equiv> due_events limit p now (st_outbox s)"
  shows "mset events = mset (map event_of_row due)" "store_changes (ob_id ` set due) s s'"
    "\<And>e. e \<in> set events \<Longrightarrow> event_waits e s'"
proof -
  obtain until where s': "s' = s\<lparr> st_outbox := sql_update (\<lambda>r. ob_id r \<in> set (map ob_id due))
      (\<lambda>r. r\<lparr> ob_claimed_by := Some holder, ob_claimed_until := Some until \<rparr>) (st_outbox s) \<rparr>"
    and events: "events = map event_of_row (returning due)"
    using assms(1) by (auto simp: claim_due_events_def tx_simps due_def split: if_splits)
  show m: "mset events = mset (map event_of_row due)" unfolding events mset_map assms(2) ..
  show "store_changes (ob_id ` set due) s s'"
    unfolding s' by (rule store_changes_update) (auto simp: same_event_def event_core_def)
  show "event_waits e s'" if "e \<in> set events" for e
  proof -
    have "e \<in> set (map event_of_row due)" using that m by (metis set_mset_mset)
    then obtain r where r: "r \<in> set due" "e = event_of_row r" by auto
    then have "r \<in> set (st_outbox s)" "event_open r"
      using due_events_member [of r limit p now "st_outbox s"] by (auto simp: due_def event_due_def)
    moreover let ?r = "r\<lparr> ob_claimed_by := Some holder, ob_claimed_until := Some until \<rparr>"
    have "?r \<in> set (st_outbox s')"
      unfolding s' using r(1) \<open>r \<in> set (st_outbox s)\<close> by (auto simp: in_sql_update intro!: bexI [of _ r])
    ultimately show ?thesis
      unfolding event_waits_def using r(2) by (intro bexI [of _ ?r]) (simp_all add: event_of_row_def event_open_def)
  qed
qed

section \<open>The outcomes of a batch\<close>

lemma counted_absorb:
  "counted r n \<Longrightarrow> counted r' n' \<Longrightarrow> n + n' \<le> u32_max \<Longrightarrow> counted (report_absorb r r') (n + n')"
  by (auto simp: counted_def report_absorb_def u32_sat_add_def)

lemma absorb_failed: "absorb_outcomes outcomes report (Some e) = Inl e"
  by (induction outcomes arbitrary: report) (auto split: sum.split, metis absorb_outcomes.simps(3,4) option.simps(5) sum.exhaust)

lemma absorb_outcomes_Inr:
  "absorb_outcomes outcomes report None = Inr r \<Longrightarrow> o' \<in> set outcomes \<Longrightarrow> \<exists>x. o' = Inr x"
proof (induction outcomes arbitrary: report)
  case (Cons x outcomes)
  show ?case using Cons by (cases x) (auto simp: absorb_failed)
qed simp

lemma absorb_outcomes_counted:
  assumes "list_all2 (\<lambda>o' n. \<exists>r. o' = Inr r \<and> counted r n) outcomes ns" "counted report k" "k + sum_list ns \<le> u32_max"
  shows "\<exists>r. absorb_outcomes outcomes report None = Inr r \<and> counted r (k + sum_list ns)"
  using assms
proof (induction arbitrary: report k rule: list_all2_induct)
  case (Cons x xs n ns)
  then obtain r where r: "x = Inr r" "counted r n" by blast
  have "counted (report_absorb report r) (k + n)" using counted_absorb [OF Cons.prems(1) r(2)] Cons.prems(2) by simp
  from Cons.IH [OF this] show ?case using Cons.prems(2) r(1) by (simp add: add.assoc)
qed simp

lemma shares_add_up:
  "distinct ms \<Longrightarrow> f ` set xs \<subseteq> set ms \<Longrightarrow> sum_list (map (\<lambda>m. length (filter (\<lambda>x. f x = m) xs)) ms) = length xs"
proof (induction xs)
  case (Cons x xs)
  have "sum_list (map (\<lambda>m. length (filter (\<lambda>y. f y = m) (x # xs))) ms) =
      sum_list (map (\<lambda>m. (if m = f x then 1 else 0) + length (filter (\<lambda>y. f y = m) xs)) ms)"
    by (rule arg_cong [where f = sum_list]) auto
  also have "\<dots> = sum_list (map (\<lambda>m. if m = f x then 1 else 0) ms) + length xs" using Cons by (simp add: sum_list_addf)
  also have "sum_list (map (\<lambda>m. if m = f x then 1 else 0) ms) = (1 :: nat)"
    using Cons.prems by (simp add: sum_list_distinct_conv_sum_set)
  finally show ?case by simp
qed simp

section \<open>A delivery pass\<close>

lemma event_of_row_id [simp]: "oe_id (event_of_row r) = ob_id r" "oe_merchant_id (event_of_row r) = ob_merchant_id r"
  "oe_attempts (event_of_row r) = ob_attempts r" "oe_attempt_floor (event_of_row r) = ob_attempt_floor r"
  by (simp_all add: event_of_row_def)

lemma merchant_endpoints_kept:
  assumes "store_changes A s s'"
  shows "merchant_endpoints m s' = merchant_endpoints m s"
  using store_changes_tables(4) [OF assms] by (auto simp: merchant_endpoints_def split: option.split sum.split)

text \<open>The merchants of a claimed batch, delivered concurrently.\<close>

lemma deliver_batch:
  assumes claimed: "distinct (map ob_id (st_outbox (wo_store w)))" "\<And>e. e \<in> set events \<Longrightarrow> event_waits e (wo_store w)"
      "distinct (map oe_id events)" "length events \<le> u32_max" "list_all event_bounds events"
    and "distinct (map we_id (st_endpoints (wo_store w)))" "os_max_attempts service \<le> 2147483647"
    and good: "good \<Longrightarrow> list_all (\<lambda>e. oe_attempts e < 2147483647) events" "good \<Longrightarrow> delivery_ready env service"
      "good \<Longrightarrow> fingerprints_ok (wo_store w)"
    and join: "bounded_join (map (\<lambda>(merchant, queue). deliver_merchant env service merchant queue)
      (group_by_merchant events)) concurrency w = (outcomes, w')"
  shows "changes (oe_id ` set events) w w'"
    and "good \<Longrightarrow> \<exists>report. absorb_outcomes outcomes no_deliveries None = Inr report"
    and "absorb_outcomes outcomes no_deliveries None = Inr report \<Longrightarrow> counted report (length events) \<and>
      (\<forall>e\<in>set events. attempt_ended (os_max_attempts service) (merchant_endpoints (oe_merchant_id e) (wo_store w)) e (wo_store w'))"
proof -
  define ms where "ms = first_seen (map oe_merchant_id events)"
  define A where "A i = (if i < length ms then oe_id ` set (events_of events (ms ! i)) else {})" for i
  let ?m = "os_max_attempts service"
  let ?post = "\<lambda>i. share_done good ?m (merchant_endpoints (ms ! i) (wo_store w)) (A i) (events_of events (ms ! i))"
  let ?fs = "map (\<lambda>m. deliver_merchant env service m (events_of events m)) ms"
  have ms: "distinct ms" "set ms = oe_merchant_id ` set events" by (simp_all add: ms_def first_seen_props)
  have fs: "map (\<lambda>(merchant, queue). deliver_merchant env service merchant queue) (group_by_merchant events) = ?fs"
    by (simp add: group_by_merchant_shares ms_def comp_def)
  have apart: "A i \<inter> A j = {}" if "i \<noteq> j" for i j
  proof -
    have "ms ! i \<noteq> ms ! j" if "i < length ms" "j < length ms" using ms(1) that \<open>i \<noteq> j\<close> by (simp add: nth_eq_iff_index_eq)
    then show ?thesis
      unfolding A_def using inj_on_eq_iff [of oe_id "set events"] claimed(3) by (auto simp: distinct_map)
  qed
  have share: "delivery_spec (A i) (?post i) (?fs ! i) w" if "i < length ?fs" for i
  proof -
    have "delivering ?m [] (A i) [] (events_of events (ms ! i)) (wo_store w)"
      using that claimed(1-3) by (auto simp: delivering_def A_def distinct_map_filter)
    moreover have "length (events_of events (ms ! i)) \<le> u32_max" using claimed(4) by (meson le_trans length_filter_le)
    ultimately show ?thesis
      using that claimed(5) assms(6,7) good by (simp add: list_all_iff deliver_merchant_spec)
  qed
  note joined = join_specs [where rely = "\<lambda>i. changes (- A i)" and guar = "\<lambda>i. changes (A i)" and post = ?post and
      whole = "changes (oe_id ` set events)", OF join [unfolded fs] share changes_rely]
  have guarantee: "changes (- A j) v v'" if "i \<noteq> j" "changes (A i) v v'" for i j v v'
    by (rule store_changes_mono [OF _ that(2)]) (use apart [OF that(1)] in blast)
  have within: "changes (oe_id ` set events) v v'" if "changes (A i) v v'" for i v v'
    by (rule store_changes_mono [OF _ that]) (auto simp: A_def)
  show "changes (oe_id ` set events) w w'" by (rule joined(3)) (use guarantee within changes_rely in blast)+
  have len: "length outcomes = length ms" using joined(1) guarantee within changes_rely by force
  have ended: "?post i (outcomes ! i) w'" if "i < length ms" for i
    using joined(2) [of i] guarantee within changes_rely that by force
  have sum: "sum_list (map (\<lambda>m. length (events_of events m)) ms) = length events"
    by (rule shares_add_up) (use ms in auto)
  have all_counted: "\<exists>report. absorb_outcomes outcomes no_deliveries None = Inr report \<and> counted report (length events)"
    if "\<And>i. i < length ms \<Longrightarrow> \<exists>r. outcomes ! i = Inr r"
  proof -
    have "list_all2 (\<lambda>o' n. \<exists>r. o' = Inr r \<and> counted r n) outcomes (map (\<lambda>m. length (events_of events m)) ms)"
      using that ended len by (fastforce simp: list_all2_conv_all_nth share_done_def)
    from absorb_outcomes_counted [OF this, of no_deliveries 0] show ?thesis
      using claimed(4) sum by (simp add: counted_def no_deliveries_def)
  qed
  show "\<exists>report. absorb_outcomes outcomes no_deliveries None = Inr report" if good
    using all_counted ended that by (fastforce simp: share_done_def split: sum.splits)
  show "counted report (length events) \<and> (\<forall>e\<in>set events. attempt_ended ?m
      (merchant_endpoints (oe_merchant_id e) (wo_store w)) e (wo_store w'))"
    if report: "absorb_outcomes outcomes no_deliveries None = Inr report"
  proof
    have Inr: "\<exists>r. outcomes ! i = Inr r" if "i < length ms" for i
      using absorb_outcomes_Inr [OF report] len that by simp
    show "counted report (length events)" using all_counted Inr report by force
    show "\<forall>e\<in>set events. attempt_ended ?m (merchant_endpoints (oe_merchant_id e) (wo_store w)) e (wo_store w')"
    proof
      fix e
      assume e: "e \<in> set events"
      then obtain i where i: "i < length ms" "ms ! i = oe_merchant_id e" using ms(2) by (metis imageI in_set_conv_nth)
      then have "delivering ?m (merchant_endpoints (oe_merchant_id e) (wo_store w)) (A i)
          (events_of events (oe_merchant_id e)) [] (wo_store w')"
        using ended [OF i(1)] Inr [OF i(1)] by (auto simp: share_done_def)
      then show "attempt_ended ?m (merchant_endpoints (oe_merchant_id e) (wo_store w)) e (wo_store w')"
        using e by (simp add: delivering_def)
    qed
  qed
qed

text \<open>What the configuration, the driver and the schema guarantee before a pass.\<close>

definition service_ok :: "outbox_service \<Rightarrow> bool" where
  "service_ok service \<longleftrightarrow> 32 \<le> length (os_master_key service) \<and> 1 \<le> os_max_attempts service \<and>
     os_max_attempts service \<le> 2147483647 \<and> 0 < fa_max_events_per_merchant (os_fairness service)"

lemma outbox_new_ok: "outbox_new key holder m = Inr service \<Longrightarrow> m \<le> 2147483647 \<Longrightarrow> service_ok service"
  by (auto simp: outbox_new_def service_ok_def default_fairness_def split: if_splits)

lemma with_fairness_ok: "with_fairness service f = Inr service' \<Longrightarrow> service_ok service \<Longrightarrow> service_ok service'"
  by (auto simp: with_fairness_def service_ok_def split: if_splits)

definition pass_ok :: "delivery_env \<Rightarrow> outbox_service \<Rightarrow> nat \<Rightarrow> store \<Rightarrow> bool" where
  "pass_ok env service limit s \<longleftrightarrow> service_ok service \<and> 0 < limit \<and> limit \<le> MAX_BATCH_LIMIT \<and>
     (\<forall>rows. mset (dv_returning env rows) = mset rows) \<and> outbox_ok s \<and> distinct (map we_id (st_endpoints s))"

abbreviation batch :: "delivery_env \<Rightarrow> outbox_service \<Rightarrow> nat \<Rightarrow> world \<Rightarrow> outbox_row list" where
  "batch env service limit w \<equiv> due_events limit (fa_max_events_per_merchant (os_fairness service))
     (dv_clock env (wo_reads w)) (st_outbox (wo_store w))"

lemma batch_rows:
  assumes "outbox_ok (wo_store w)" "r \<in> set (batch env service limit w)"
  shows "r \<in> set (st_outbox (wo_store w))" "event_open r" "ob_channel r = ''webhook''" "event_bounds (event_of_row r)"
  using assms due_events_member [of r limit "fa_max_events_per_merchant (os_fairness service)" "dv_clock env (wo_reads w)"]
  by (auto simp: event_due_def outbox_ok_def list_all_iff outbox_row_ok_def event_bounds_def)

lemma ready_claim: "delivery_ready env service \<Longrightarrow> dv_add_secs env (dv_clock env n) 300 \<noteq> None"
  by (simp add: delivery_ready_def del: not_None_eq)

lemma deliver_due_effect:
  assumes "pass_ok env service limit (wo_store w)" "deliver_due env service limit w = (outcome, w')"
    and good: "good \<Longrightarrow> delivery_ready env service" "good \<Longrightarrow> fingerprints_ok (wo_store w)"
      "good \<Longrightarrow> \<forall>r\<in>set (batch env service limit w). ob_attempts r < 2147483647"
  shows "changes (ob_id ` set (batch env service limit w)) w w'" "good \<Longrightarrow> \<exists>report. outcome = Inr report"
    and "outcome = Inr report \<Longrightarrow> counted report (length (batch env service limit w)) \<and>
      (\<forall>r\<in>set (batch env service limit w). attempt_ended (os_max_attempts service)
         (merchant_endpoints (ob_merchant_id r) (wo_store w)) (event_of_row r) (wo_store w'))"
proof -
  let ?due = "batch env service limit w" and ?s = "wo_store w" and ?now = "dv_clock env (wo_reads w)"
    and ?p = "fa_max_events_per_merchant (os_fairness service)" and ?w = "w\<lparr> wo_reads := wo_reads w + 1 \<rparr>"
  let ?claim = "claim_due_events (dv_add_secs env) (dv_returning env) (os_holder service) limit ?p 300 ?now ?s"
  note ok = assms(1) [unfolded pass_ok_def]
  have rows: "distinct (map ob_id (st_outbox ?s))" using ok by (simp add: outbox_ok_def)
  have "changes (ob_id ` set ?due) w w' \<and> (good \<longrightarrow> (\<exists>report. outcome = Inr report)) \<and>
      (\<forall>report. outcome = Inr report \<longrightarrow> counted report (length ?due) \<and> (\<forall>r\<in>set ?due. attempt_ended (os_max_attempts service)
         (merchant_endpoints (ob_merchant_id r) ?s) (event_of_row r) (wo_store w')))"
  proof (cases ?claim)
    case (Inl e)
    have "dv_add_secs env ?now 300 = None" using Inl by (auto simp: claim_due_events_def tx_errors result_simps)
    then have "\<not> good" using good(1) ready_claim by blast
    moreover have "outcome = Inl (OE_Repository e)" "wo_store w' = ?s"
      using assms(2) ok Inl by (auto simp: deliver_due_def clocked_def run_repo_def tx_run_def)
    ultimately show ?thesis using store_changes_refl by simp
  next
    case (Inr c)
    obtain events s1 where claim: "?claim = Inr (events, s1)" using Inr by (cases c) auto
    define w1 where "w1 = ?w\<lparr> wo_store := s1 \<rparr>"
    obtain outcomes where join: "bounded_join (map (\<lambda>(merchant, queue). deliver_merchant env service merchant queue)
        (group_by_merchant events)) (fa_concurrency (os_fairness service)) w1 = (outcomes, w')"
      and outcome: "outcome = absorb_outcomes outcomes no_deliveries None"
      using assms(2) ok claim by (auto simp: deliver_due_def clocked_def run_repo_def tx_run_def w1_def split: prod.splits)
    note claimed = claim_due_events_effect [OF claim _ rows]
    have m: "mset events = mset (map event_of_row ?due)" and changed: "store_changes (ob_id ` set ?due) ?s s1"
      and waits: "\<And>e. e \<in> set events \<Longrightarrow> event_waits e s1" using claimed ok by auto
    have set: "set events = event_of_row ` set ?due" and len: "length events = length ?due"
      using arg_cong [OF m, of set_mset] arg_cong [OF m, of size] by simp_all
    have ids: "oe_id ` set events = ob_id ` set ?due" unfolding set by (simp add: image_image)
    have "mset (map oe_id events) = mset (map ob_id ?due)" by (simp add: m image_mset.compositionality comp_def)
    then have distinct: "distinct (map oe_id events)"
      using due_events_distinct [OF rows, of limit ?p ?now] mset_eq_imp_distinct_iff by blast
    have store: "wo_store w1 = s1" by (simp add: w1_def)
    have short: "length events \<le> u32_max"
      using len due_events_length [of limit ?p ?now "st_outbox ?s"] ok by (simp add: MAX_BATCH_LIMIT_def u32_max_def)
    have bounds: "list_all event_bounds events" using batch_rows(4) [of w] ok by (auto simp: list_all_iff set)
    note tables = store_changes_tables [OF changed]
    note pass = deliver_batch [where good = good, OF _ _ distinct short bounds _ _ _ good(1) _ join, unfolded store]
    have good': "list_all (\<lambda>e. oe_attempts e < 2147483647) events" "fingerprints_ok s1" if good
      using good(2,3) [OF that] tables(1) by (auto simp: list_all_iff set fingerprints_ok_def)
    have "store_changes (ob_id ` set ?due) s1 (wo_store w')"
      using pass(1) rows waits ok good' tables by (simp add: ids service_ok_def)
    then have "changes (ob_id ` set ?due) w w'" using store_changes_trans [OF changed] by blast
    moreover have "good \<longrightarrow> (\<exists>report. outcome = Inr report)"
      using pass(2) rows waits ok good' tables by (auto simp: outcome service_ok_def)
    moreover have "counted report (length ?due) \<and> (\<forall>r\<in>set ?due. attempt_ended (os_max_attempts service)
        (merchant_endpoints (ob_merchant_id r) ?s) (event_of_row r) (wo_store w'))" if "outcome = Inr report" for report
      using pass(3) [of report] rows waits ok good' tables that merchant_endpoints_kept [OF changed]
      by (simp add: outcome len service_ok_def set)
    ultimately show ?thesis by blast
  qed
  then show "changes (ob_id ` set ?due) w w'" "good \<Longrightarrow> \<exists>report. outcome = Inr report"
    "outcome = Inr report \<Longrightarrow> counted report (length ?due) \<and> (\<forall>r\<in>set ?due. attempt_ended (os_max_attempts service)
       (merchant_endpoints (ob_merchant_id r) ?s) (event_of_row r) (wo_store w'))"
    by blast+
qed

section \<open>Budgets\<close>

text \<open>The attempts an open webhook event may still get, at least one.\<close>

definition event_budget :: "int \<Rightarrow> outbox_row \<Rightarrow> nat" where
  "event_budget m r = (if ob_channel r = ''webhook'' \<and> event_open r
     then nat (m - 1 - (ob_attempts r - ob_attempt_floor r)) + 1 else 0)"

definition outbox_budget :: "int \<Rightarrow> store \<Rightarrow> nat" where
  "outbox_budget m s = sum_list (map (event_budget m) (st_outbox s))"

text \<open>No counter overflows before the budgets are used up.\<close>

definition headroom :: "int \<Rightarrow> store \<Rightarrow> bool" where
  "headroom m s \<longleftrightarrow> list_all (\<lambda>r. ob_attempts r + int (event_budget m r) \<le> 2147483647) (st_outbox s)"

text \<open>What a successful pass did to one row: nothing, or one attempt.\<close>

definition row_step :: "int \<Rightarrow> bool \<Rightarrow> outbox_row \<Rightarrow> outbox_row \<Rightarrow> bool" where
  "row_step m claimed r r' \<longleftrightarrow> same_event r r' \<and> (if claimed
     then ob_attempts r' = ob_attempts r + 1 \<and> ob_claimed_until r' = None \<and>
       ob_attempts r' \<le> 2147483647 \<and> (ob_delivered_at r' = None \<or> ob_dead_lettered_at r' = None) \<and>
       (event_open r' \<longrightarrow> ob_attempts r' - ob_attempt_floor r' < m)
     else r' = r)"

lemma row_step_budget:
  assumes "row_step m claimed r r'" "claimed \<Longrightarrow> event_open r \<and> ob_channel r = ''webhook''"
  shows "event_budget m r' + (if claimed then 1 else 0) \<le> event_budget m r"
  using assms same_event_simps [of r r'] by (auto simp: row_step_def event_budget_def)

lemma row_step_headroom:
  assumes "row_step m claimed r r'" "claimed \<Longrightarrow> event_open r \<and> ob_channel r = ''webhook''"
    and "ob_attempts r + int (event_budget m r) \<le> 2147483647"
  shows "ob_attempts r' + int (event_budget m r') \<le> 2147483647"
  using row_step_budget [OF assms(1,2)] assms(1,3) by (auto simp: row_step_def split: if_splits)

lemma list_all2_sum:
  assumes "list_all2 (\<lambda>r r'. f r' + c r \<le> f r) xs ys"
  shows "sum_list (map f ys) + sum_list (map c xs) \<le> (sum_list (map f xs) :: nat)"
  using assms by (induction rule: list_all2_induct) auto

lemma pass_rows:
  assumes "pass_ok env service limit (wo_store w)" "deliver_due env service limit w = (Inr report, w')"
  shows "list_all2 (\<lambda>r r'. row_step (os_max_attempts service) (r \<in> set (batch env service limit w)) r r')
    (st_outbox (wo_store w)) (st_outbox (wo_store w'))"
proof -
  let ?due = "batch env service limit w" and ?s = "wo_store w" and ?s' = "wo_store w'"
  have rows: "distinct (map ob_id (st_outbox ?s))" using assms(1) by (simp add: pass_ok_def outbox_ok_def)
  note effect = deliver_due_effect [where good = False, OF assms, simplified]
  note tables = store_changes_tables [OF effect(1)]
  have same: "list_all2 (\<lambda>r r'. same_event r r' \<and> (ob_id r \<notin> ob_id ` set ?due \<longrightarrow> r' = r)) (st_outbox ?s) (st_outbox ?s')"
    using effect(1) by (auto simp: store_changes_def)
  show ?thesis
  proof (rule list_all2_all_nthI)
    show "length (st_outbox ?s) = length (st_outbox ?s')" using same by (rule list_all2_lengthD)
    fix n
    assume n: "n < length (st_outbox ?s)"
    let ?r = "st_outbox ?s ! n" and ?r' = "st_outbox ?s' ! n"
    have n': "n < length (st_outbox ?s')" using n same by (simp add: list_all2_lengthD)
    have core: "same_event ?r ?r'" "ob_id ?r \<notin> ob_id ` set ?due \<longrightarrow> ?r' = ?r" using list_all2_nthD [OF same n] by auto
    show "row_step (os_max_attempts service) (?r \<in> set ?due) ?r ?r'"
    proof (cases "?r \<in> set ?due")
      case True
      then have "attempt_ended (os_max_attempts service) (merchant_endpoints (ob_merchant_id ?r) ?s) (event_of_row ?r) ?s'"
        using effect(3) [of report] by simp
      then obtain x where x: "x \<in> set (st_outbox ?s')" "ob_id x = ob_id ?r" "ob_attempts x = ob_attempts ?r + 1"
        "ob_claimed_until x = None" "ob_attempts x \<le> 2147483647"
        "ob_delivered_at x = None \<or> ob_dead_lettered_at x = None" "event_open x \<longrightarrow> ob_attempts ?r + 1 - ob_attempt_floor ?r < os_max_attempts service"
        by (auto simp: attempt_ended_def)
      have "x = ?r'"
        by (rule distinct_key_eq [of ob_id]) (use rows tables(3) x n' same_event_simps(1) [OF core(1)] in auto)
      with x True core(1) show ?thesis by (simp add: row_step_def same_event_simps)
    next
      case False
      have "ob_id ?r \<notin> ob_id ` set ?due"
      proof
        assume "ob_id ?r \<in> ob_id ` set ?due"
        then obtain x where x: "x \<in> set ?due" "ob_id x = ob_id ?r" by auto
        have "x = ?r"
          by (rule distinct_key_eq [OF rows]) (use x n due_events_member in auto)
        with x False show False by simp
      qed
      with False core show ?thesis by (simp add: row_step_def)
    qed
  qed
qed

lemma pass_budget:
  assumes "pass_ok env service limit (wo_store w)" "deliver_due env service limit w = (Inr report, w')"
  shows "outbox_budget (os_max_attempts service) (wo_store w') + length (batch env service limit w) \<le>
      outbox_budget (os_max_attempts service) (wo_store w)"
    and "headroom (os_max_attempts service) (wo_store w) \<Longrightarrow> headroom (os_max_attempts service) (wo_store w')"
    and "pass_ok env service limit (wo_store w')"
proof -
  let ?due = "batch env service limit w" and ?m = "os_max_attempts service"
  note step = pass_rows [OF assms]
  have ok: "outbox_ok (wo_store w)" using assms(1) by (simp add: pass_ok_def)
  have rows: "distinct (map ob_id (st_outbox (wo_store w)))" using ok by (simp add: outbox_ok_def)
  have due: "event_open r \<and> ob_channel r = ''webhook''" if "r \<in> set ?due" for r
    using batch_rows [OF ok that] by simp
  have budget: "list_all2 (\<lambda>r r'. event_budget ?m r' + (if r \<in> set ?due then 1 else 0) \<le> event_budget ?m r)
      (st_outbox (wo_store w)) (st_outbox (wo_store w'))"
    by (rule list_all2_mono [OF step]) (use row_step_budget due in blast)
  have "sum_list (map (\<lambda>r. if r \<in> set ?due then 1 else 0) (st_outbox (wo_store w))) = length ?due"
  proof -
    have d: "distinct ?due" "distinct (st_outbox (wo_store w))"
      using due_events_distinct [OF rows] rows by (auto simp: distinct_map)
    have "set ?due \<subseteq> set (st_outbox (wo_store w))" using batch_rows(1) [OF ok] by blast
    then show ?thesis
      using d by (simp add: sum_list_distinct_conv_sum_set distinct_card [symmetric] sum.If_cases Int_absorb1 Int_commute)
  qed
  then show "outbox_budget ?m (wo_store w') + length ?due \<le> outbox_budget ?m (wo_store w)"
    using list_all2_sum [OF budget] by (simp add: outbox_budget_def)
  show "headroom ?m (wo_store w')" if "headroom ?m (wo_store w)"
  proof -
    have "list_all2 (\<lambda>r r'. ob_attempts r + int (event_budget ?m r) \<le> 2147483647 \<longrightarrow>
        ob_attempts r' + int (event_budget ?m r') \<le> 2147483647) (st_outbox (wo_store w)) (st_outbox (wo_store w'))"
      by (rule list_all2_mono [OF step]) (use row_step_headroom due in blast)
    then show ?thesis using that by (auto simp: headroom_def list_all_length list_all2_conv_all_nth)
  qed
  have "list_all2 (\<lambda>r r'. outbox_row_ok r \<longrightarrow> outbox_row_ok r') (st_outbox (wo_store w)) (st_outbox (wo_store w'))"
    by (rule list_all2_mono [OF step]) (auto simp: row_step_def outbox_row_ok_def same_event_simps split: if_splits)
  then have "list_all outbox_row_ok (st_outbox (wo_store w'))"
    using ok by (auto simp: outbox_ok_def list_all_length list_all2_conv_all_nth)
  moreover note store_changes_tables [OF deliver_due_effect(1) [where good = False, OF assms]]
  ultimately show "pass_ok env service limit (wo_store w')"
    using assms(1) by (simp add: pass_ok_def outbox_ok_def)
qed

section \<open>A sample world\<close>

definition sample_delivery :: delivery_env where
  "sample_delivery = \<lparr> dv_clock = (\<lambda>_. 1000), dv_sender = (\<lambda>_ _. DR_Unreachable ''timeout'' 5),
     dv_to_vec = (\<lambda>_. Inr []), dv_hmac = (\<lambda>_ _. Some (replicate 32 0)), dv_sha256 = (\<lambda>_. replicate 32 0),
     dv_add_secs = ref_add_secs, dv_returning = rev, dv_latency = (\<lambda>_. 1) \<rparr>"

definition sample_deliverer :: outbox_service where
  "sample_deliverer = \<lparr> os_master_key = replicate 32 7, os_holder = ''worker-1'', os_max_attempts = 2,
     os_fairness = default_fairness \<rparr>"

definition sample_event :: outbox_row where
  "sample_event = \<lparr> ob_id = 31, ob_merchant_id = Some 1, ob_channel = ''webhook'', ob_event_type = ''payment_intent.paid'',
     ob_aggregate_type = ''payment_intent'', ob_aggregate_id = 2, ob_payload = [], ob_available_at = 0, ob_attempts = 0,
     ob_last_error = None, ob_claimed_by = None, ob_claimed_until = None, ob_delivered_at = None,
     ob_dead_lettered_at = None, ob_created_at = 0, ob_target_endpoint_id = None, ob_attempt_floor = 0 \<rparr>"

definition sample_world :: world where
  "sample_world = \<lparr> wo_store = (sample_store [])\<lparr> st_outbox := [sample_event],
       st_endpoints := [\<lparr> we_id = 41, we_merchant_id = 1, we_url = ''https://shop'', we_secret_version = 1,
         we_secret_fingerprint = replicate 32 0, we_previous_secret_version = None,
         we_previous_secret_fingerprint = None, we_previous_valid_until = None, we_status = ''active'',
         we_created_at = 0 \<rparr>] \<rparr>, wo_reads = 0, wo_sent = [] \<rparr>"

lemma sample_pass:
  "pass_ok sample_delivery sample_deliverer 10 (wo_store sample_world)" "delivery_ready sample_delivery sample_deliverer"
  "fingerprints_ok (wo_store sample_world)" "headroom 2 (wo_store sample_world)"
  "batch sample_delivery sample_deliverer 10 sample_world = [sample_event]"
proof -
  show "pass_ok sample_delivery sample_deliverer 10 (wo_store sample_world)"
    by (simp add: pass_ok_def service_ok_def sample_deliverer_def default_fairness_def MAX_BATCH_LIMIT_def
        sample_delivery_def outbox_ok_def sample_world_def outbox_row_ok_def sample_event_def)
  show "delivery_ready sample_delivery sample_deliverer"
    by (simp add: delivery_ready_def sample_delivery_def sample_deliverer_def ref_add_secs_def Let_def
        nanos_per_sec_def instant_min_def instant_max_def)
  show "fingerprints_ok (wo_store sample_world)" by (simp add: fingerprints_ok_def sample_world_def)
  show "headroom 2 (wo_store sample_world)"
    by (simp add: headroom_def sample_world_def sample_event_def event_budget_def event_open_def)
  show "batch sample_delivery sample_deliverer 10 sample_world = [sample_event]"
    by (simp add: due_events_def sample_delivery_def sample_deliverer_def default_fairness_def sample_world_def
        sample_event_def event_due_def event_open_def merchant_rank_def older_event_def)
qed

section \<open>The pass\<close>

text \<open>C9: A successful pass claims at most \<open>limit\<close> due events and of each merchant at most its share,
  accounts for every claimed event exactly once, touches nothing but the delivery columns and records of
  the claimed events, and ends one attempt of each: it is counted and unclaimed, delivered only if it has
  endpoints to be told and all of them accepted this attempt on record, and open only with attempts left.
  This holds for every interleaving of the merchants' deliveries.\<close>

theorem delivery_pass_sound:
  assumes "pass_ok env service limit (wo_store w)" "deliver_due env service limit w = (Inr report, w')"
  shows "length (batch env service limit w) \<le> limit \<and>
    (\<forall>m. length (filter (\<lambda>r. ob_merchant_id r = m) (batch env service limit w)) \<le>
       fa_max_events_per_merchant (os_fairness service)) \<and>
    or_claimed report = length (batch env service limit w) \<and>
    or_delivered report + or_rescheduled report + or_dead_lettered report = or_claimed report \<and>
    store_changes (ob_id ` set (batch env service limit w)) (wo_store w) (wo_store w') \<and>
    (\<forall>r\<in>set (batch env service limit w). attempt_ended (os_max_attempts service)
       (merchant_endpoints (ob_merchant_id r) (wo_store w)) (event_of_row r) (wo_store w'))"
proof -
  have rows: "distinct (map ob_id (st_outbox (wo_store w)))" using assms(1) by (simp add: pass_ok_def outbox_ok_def)
  note effect = deliver_due_effect [where good = False, OF assms]
  have "store_changes (ob_id ` set (batch env service limit w)) (wo_store w) (wo_store w')" using effect(1) by simp
  with effect(3) [of report] due_events_length due_events_share [OF rows] show ?thesis by (simp add: counted_def)
qed

theorem delivery_pass_sound_witness:
  "\<exists>report w'. deliver_due sample_delivery sample_deliverer 10 sample_world = (Inr report, w') \<and> or_claimed report = 1 \<and>
     or_delivered report + or_rescheduled report + or_dead_lettered report = 1 \<and>
     attempt_ended 2 (merchant_endpoints (Some 1) (wo_store sample_world)) (event_of_row sample_event) (wo_store w')"
proof -
  obtain outcome w' where run: "deliver_due sample_delivery sample_deliverer 10 sample_world = (outcome, w')" by fastforce
  have "\<forall>r\<in>set (batch sample_delivery sample_deliverer 10 sample_world). ob_attempts r < 2147483647"
    unfolding sample_pass(5) by (simp add: sample_event_def)
  then obtain report where "outcome = Inr report"
    using deliver_due_effect(2) [where good = True, OF sample_pass(1) run sample_pass(2,3)] by blast
  with run have pass: "deliver_due sample_delivery sample_deliverer 10 sample_world = (Inr report, w')" by simp
  have max: "os_max_attempts sample_deliverer = 2" "ob_merchant_id sample_event = Some 1"
    by (simp_all add: sample_deliverer_def sample_event_def)
  from delivery_pass_sound [OF sample_pass(1) pass] pass show ?thesis
    unfolding sample_pass(5) by (simp add: max)
qed

section \<open>The outbox drains\<close>

primrec deliver_passes :: "delivery_env \<Rightarrow> outbox_service \<Rightarrow> nat \<Rightarrow> nat \<Rightarrow> world \<Rightarrow> world" where
  "deliver_passes env service limit 0 w = w"
| "deliver_passes env service limit (Suc n) w =
     deliver_passes env service limit n (snd (deliver_due env service limit w))"

definition nothing_due :: "delivery_env \<Rightarrow> world \<Rightarrow> bool" where
  "nothing_due env w \<longleftrightarrow> list_all (\<lambda>r. \<not> event_due (dv_clock env (wo_reads w)) r) (st_outbox (wo_store w))"

lemma pass_progress:
  assumes "pass_ok env service limit (wo_store w)" "delivery_ready env service" "fingerprints_ok (wo_store w)"
    and "headroom (os_max_attempts service) (wo_store w)" "\<not> nothing_due env w"
  obtains report w' where "deliver_due env service limit w = (Inr report, w')"
    "outbox_budget (os_max_attempts service) (wo_store w') < outbox_budget (os_max_attempts service) (wo_store w)"
proof -
  let ?due = "batch env service limit w"
  have ok: "outbox_ok (wo_store w)" "service_ok service" "0 < limit" using assms(1) by (simp_all add: pass_ok_def)
  have "ob_attempts r < 2147483647" if "r \<in> set ?due" for r
  proof -
    have "ob_attempts r + int (event_budget (os_max_attempts service) r) \<le> 2147483647"
      using batch_rows(1) [OF ok(1) that] assms(4) by (simp add: headroom_def list_all_iff)
    moreover have "0 < event_budget (os_max_attempts service) r"
      using batch_rows(2,3) [OF ok(1) that] by (simp add: event_budget_def)
    ultimately show ?thesis by simp
  qed
  moreover obtain outcome w' where run: "deliver_due env service limit w = (outcome, w')" by fastforce
  ultimately obtain report where "outcome = Inr report"
    using deliver_due_effect(2) [where good = True, OF assms(1) run assms(2,3)] by blast
  with run have pass: "deliver_due env service limit w = (Inr report, w')" by simp
  have "?due \<noteq> []"
    using assms(5) ok(2,3) due_events_nonempty by (fastforce simp: nothing_due_def list_all_iff service_ok_def)
  then have "outbox_budget (os_max_attempts service) (wo_store w') < outbox_budget (os_max_attempts service) (wo_store w)"
    using pass_budget(1) [OF assms(1) pass] by (simp add: length_greater_0_conv [symmetric] del: length_greater_0_conv)
  with pass show ?thesis by (rule that)
qed

lemma fingerprints_kept: "store_changes A s s' \<Longrightarrow> fingerprints_ok s' = fingerprints_ok s"
  by (simp add: fingerprints_ok_def store_changes_tables(1))

text \<open>C10: However endpoints answer, whatever the clock shows and however deliveries interleave, passes run
  one after the other all succeed and after finitely many of them, at most the attempts the open events
  have left in total, a pass starts with nothing due: a failing endpoint is never retried for ever. This
  needs that bodies serialize, keys are accepted, stored fingerprints have 32 bytes, the clock is far from its
  end, counters have room, and nothing new is queued in between.\<close>

theorem outbox_drains:
  assumes "pass_ok env service limit (wo_store w)" "delivery_ready env service" "fingerprints_ok (wo_store w)"
    and "headroom (os_max_attempts service) (wo_store w)"
  shows "\<exists>n\<le>outbox_budget (os_max_attempts service) (wo_store w).
    (\<forall>k<n. \<exists>report. fst (deliver_due env service limit (deliver_passes env service limit k w)) = Inr report) \<and>
    nothing_due env (deliver_passes env service limit n w)"
  using assms
proof (induction "outbox_budget (os_max_attempts service) (wo_store w)" arbitrary: w rule: less_induct)
  case less
  show ?case
  proof (cases "nothing_due env w")
    case True
    then show ?thesis by (intro exI [where x = 0]) simp
  next
    case False
    obtain report w' where pass: "deliver_due env service limit w = (Inr report, w')"
      and smaller: "outbox_budget (os_max_attempts service) (wo_store w') < outbox_budget (os_max_attempts service) (wo_store w)"
      by (rule pass_progress [OF less.prems False])
    have "fingerprints_ok (wo_store w')"
      using fingerprints_kept [OF deliver_due_effect(1) [where good = False, OF less.prems(1) pass]] less.prems(3) by simp
    then obtain n where n: "n \<le> outbox_budget (os_max_attempts service) (wo_store w')"
      "\<forall>k<n. \<exists>report. fst (deliver_due env service limit (deliver_passes env service limit k w')) = Inr report"
      "nothing_due env (deliver_passes env service limit n w')"
      using less.hyps [OF smaller pass_budget(3) [OF less.prems(1) pass] less.prems(2)]
        pass_budget(2) [OF less.prems(1) pass less.prems(4)] by blast
    have "\<exists>report. fst (deliver_due env service limit (deliver_passes env service limit k w)) = Inr report" if "k < Suc n" for k
      using n(2) that pass by (cases k) auto
    then show ?thesis using n smaller pass by (intro exI [where x = "Suc n"]) auto
  qed
qed

theorem outbox_drains_witness:
  "\<exists>n\<le>2. (\<forall>k<n. \<exists>report. fst (deliver_due sample_delivery sample_deliverer 10
       (deliver_passes sample_delivery sample_deliverer 10 k sample_world)) = Inr report) \<and>
     nothing_due sample_delivery (deliver_passes sample_delivery sample_deliverer 10 n sample_world)"
proof -
  have max: "os_max_attempts sample_deliverer = 2" by (simp add: sample_deliverer_def)
  have "outbox_budget 2 (wo_store sample_world) = 2"
    by (simp add: outbox_budget_def sample_world_def sample_event_def event_budget_def event_open_def)
  then show ?thesis
    using outbox_drains [OF sample_pass(1-3), unfolded max, OF sample_pass(4)] by simp
qed

end
