(* ===== verification/Spec2Isabelle.thy ===== *)
theory Spec2Isabelle
  imports Price Verification Webhook Stale_Decision Endpoint_Idempotency Gateway_Runs Outbox_Pass
begin

text \<open>
  A verification library of the crypto payment gateway, a set of Rust crates under \<open>src/crates\<close> over
  the PostgreSQL schema of \<open>src/db/migrations\<close>.

  \<^bold>\<open>The program.\<close> A merchant creates a payment intent (an order), asks for a quote and shows the payer an
  exact amount on a collector address. Observers report transfers on the chain; a verifier accepts a
  transfer when independent sources agree; the settlement worker ties a final transfer to at most one
  attempt, decides by policy and books the money; operators decide about what is parked; the outbox tells
  the merchant by signed webhooks. \<open>gateway-domain\<close> holds the pure rules, \<open>gateway-application\<close> the
  services, \<open>gateway-storage\<close> the transactions, \<open>gateway-tron\<close> the chain adapter.

  \<^bold>\<open>How code becomes definitions.\<close> A definition keeps the name of the function it translates. A struct is a
  record, an enum a datatype, a \<open>Result\<close> a sum with the error on the left, and \<open>?\<close> is \<open>bind_result\<close>. A
  \<open>String\<close> is the list of its UTF-8 bytes, a \<open>Uuid\<close> a 128-bit word, a \<open>U256\<close> a 256-bit word with the checked
  operations written out, an \<open>OffsetDateTime\<close> its nanoseconds, and counters saturate where the code's do. The
  database is the record \<open>store\<close> with one list of rows per table; a transaction is a function that fails or
  answers with a changed store (\<open>Transaction\<close>), a statement refused by a constraint is an error, and a failed
  transaction changes nothing. Libraries outside the repository are parameters: SHA-256, HMAC, base58, the
  text of \<open>U256\<close> and \<open>Uuid\<close>, JSON printing, time arithmetic, fresh identifiers and tokens, the HTTP client.
  What the code relies on of them is stated by the locales \<open>u256_text\<close>, \<open>uuid_text\<close>, \<open>checked_time\<close> and
  \<open>base58\<close>, each interpreted by a reference implementation.

  \<^bold>\<open>Pure rules.\<close>
  \<^item> \<open>Money\<close> (\<open>money.rs\<close>): currency codes, fiat and raw amounts. The price conversion is the exact ceiling or
    the right error, and amounts and their texts determine each other.
  \<^item> \<open>Price\<close> (\<open>price.rs\<close>): aggregation of price readings. Which readings stand behind a rate, how far two of
    them can differ, and that an overflowing comparison lets an extreme reading through.
  \<^item> \<open>Chain\<close> (\<open>chain.rs\<close>): identities of addresses, transactions and readings, and the life of a transfer. A
    semantic hash determines the claim; a transfer never moves backwards.
  \<^item> \<open>Settlement\<close> (\<open>settlement.rs\<close>): matching and deciding. A match is never a guess, money is conserved and
    moves under exactly the stated conditions, more evidence never revokes a decision.
  \<^item> \<open>Verification\<close> (\<open>verification.rs\<close>): what stands behind a verified transfer and when it is final.
  \<^item> \<open>Payment_Intent\<close>, \<open>Quote\<close>, \<open>Webhook\<close>, \<open>Tron_Address\<close> (\<open>payment_intent.rs\<close>, \<open>quote.rs\<close>, \<open>webhook.rs\<close>,
    \<open>gateway-tron/src/address.rs\<close>): construction of orders and quote plans, signatures whose bytes determine
    what was signed, and addresses that survive every text form.

  \<^bold>\<open>Services over the store.\<close>
  \<^item> \<open>Gateway_Prelude\<close>, \<open>Transaction\<close>, \<open>Ports\<close>, \<open>Store\<close>: the shared vocabulary, transactions with their rules
    for preserved predicates and for errors that cannot happen, and the tables.
  \<^item> \<open>Settlement_Service\<close>, \<open>Settlement_Store\<close>, \<open>Lease_Store\<close> (\<open>settlement.rs\<close> of both crates,
    \<open>observations.rs\<close>): the settlement pass over the locale \<open>settlement_repository\<close>, its PostgreSQL
    implementation, and component leases. \<open>Money_Invariant\<close> and \<open>Settlement_Pass\<close> show that the money tables
    stay consistent under every command, that an undisturbed pass keeps every obligation exact, settles all
    or nothing and at most once, and that a lease that was taken over writes no more.
  \<^item> \<open>Idempotency\<close>, \<open>Idempotency_Store\<close>, \<open>Intent_Store\<close>, \<open>Quote_Store\<close> (\<open>payment_intents.rs\<close>, \<open>quotes.rs\<close>,
    \<open>postgres/intents.rs\<close>, \<open>postgres/quotes.rs\<close>): the merchant's calls and the expiry sweep.
    \<open>Endpoint_Idempotency\<close> shows that the three idempotent calls refine one map of requests (the locale
    \<open>idempotent_endpoint\<close>) and that a retry creates nothing. \<open>Merchant_Money\<close> and \<open>Quote_Slots\<close> show that they
    move no money and that no two attempts hold one amount of a collector at the same time.
  \<^item> \<open>Redelivery\<close>, \<open>Operations\<close>, \<open>Operator_Store\<close> (\<open>redelivery.rs\<close>, \<open>operations.rs\<close>, \<open>honor_approval.rs\<close>,
    \<open>honor_proposals.rs\<close>): the operator's commands. \<open>Operator_Money\<close> and \<open>Operator_Control\<close> show that they
    keep the books, are answered once and for all, and that a large honor needs two keys.
    \<open>Stale_Decision\<close> exhibits a settlement decided before an honor and carried out after it.
  \<^item> \<open>Bounded_Join\<close>, \<open>Outbox\<close> (\<open>outbox.rs\<close> of both crates): asynchronous deliveries as futures over a shared
    world, polled by \<open>bounded_join\<close>. \<open>Outbox_Delivery\<close> and \<open>Outbox_Pass\<close> give each merchant's delivery a rely
    and guarantee specification and show, for every interleaving, that a pass ends one attempt of every
    claimed event, delivers only what was accepted, and that the outbox drains.

  \<^bold>\<open>The whole.\<close> \<open>Gateway_System\<close> composes merchants, the expiry sweep, the settlement worker, leases, operators
  and clocks into the relation \<open>gateway_step\<close>; \<open>Payment_Frame\<close> and the locale \<open>gateway_invariant\<close> carry a
  predicate along every run. \<open>Gateway_Runs\<close> has the results: the books stay exact and slots disjoint, paid and
  cancelled orders stay so, and a payment without memo is never ambiguous. Webhook deliveries are no steps of
  \<open>gateway_step\<close>; what a delivery pass may change is stated in \<open>Outbox_Delivery\<close>. \<open>Sample_Store\<close> is a small
  store on which the properties are instantiated.

  \<^bold>\<open>Loops and bounds.\<close> There is no fuel: loops over rows are structural, the gcd loop, trimming, base58
  digits and the passes of \<open>bounded_join\<close> have a measure, and \<open>bounded_join\<close> itself ends by the multiset order of the futures left. Batch
  sizes are bounded as in the code, so that no counter of a report saturates.

  \<^bold>\<open>Assumptions.\<close> Transactions run one after the other; the interleaving of services with each other is
  that of \<open>gateway_step\<close>, one whole call at a time, except in \<open>Stale_Decision\<close>, which splits a settlement, and in
  the delivery pass, which interleaves single operations of the merchants but knows only one worker. In
  \<open>gateway_step\<close> a call reads the process clock once and it never runs backwards between calls, while the database
  clock is unrelated to it; a delivery pass reads its clock as often as the code does, with any readings. The
  outbox drains provided that nothing new is queued between the passes and that the environment never refuses
  (\<open>delivery_ready\<close>): bodies serialize, keys are accepted and the clock is far from its end.
  Time stamps are stored exactly, where PostgreSQL keeps microseconds. Outages of the connection abandon a
  transaction and are otherwise left out.

  \<^bold>\<open>Not modelled.\<close> The intake of observations, the storage side of verification, the operator's evidence
  endpoints (prices, rail health and stops, risk) and the transaction that re-queues a webhook event: further
  transactions over further tables. Accounting, reconciliation, self-check, checkout and operator reads: reports
  over the modelled tables. Provisioning and retention: administrative writes. The HTTP interface, the webhook
  client, telemetry, the schedulers and the applications: routing, serialisation, timers and start-up. The plugins,
  examples and tools run outside the gateway's processes.
\<close>

end
